(* ===== verification/Prelude.thy ===== *)
theory Prelude
  imports Main "HOL-Library.State_Monad" "HOL-Library.Sublist"
begin

text \<open>
  The vocabulary every component shares: the types that stand for Go's scalars, the collections
  of rules the component proofs use, and generic facts on lists and options.

  A Go \<open>string\<close> is a sequence of bytes, and so is an Isabelle \<^typ>\<open>string\<close>
  (each \<^typ>\<open>char\<close> is one byte).  Instants and durations are integers counting
  microseconds, the resolution Postgres keeps; an instant counts from the Unix epoch.
  A fallible function returns a sum, \<^const>\<open>Inl\<close> for the error.
\<close>

section \<open>Types\<close>

type_synonym instant = int
type_synonym duration = int
type_synonym uuid = nat
type_synonym bytes = string

abbreviation second :: duration where "second \<equiv> 1000000"
abbreviation minute :: duration where "minute \<equiv> 60 * second"
abbreviation hour :: duration where "hour \<equiv> 60 * minute"
abbreviation day :: duration where "day \<equiv> 24 * hour"

section \<open>Collections of rules\<close>

named_theorems keeps_intros \<open>composition rules for programs that keep an invariant of the database\<close>
named_theorems conn_only_intros \<open>programs that touch the connection and nothing else\<close>
named_theorems run_simps \<open>what one run of a stateful program returns\<close>
named_theorems row_simps \<open>facts on single rows and tables\<close>

section \<open>Lists and options\<close>

lemma find_Some_in: "find P xs = Some x \<Longrightarrow> x \<in> set xs \<and> P x"
  by (auto simp: find_Some_iff)

lemma find_None_all: "find P xs = None \<longleftrightarrow> (\<forall>x\<in>set xs. \<not> P x)"
  by (induction xs) auto

lemma distinct_map_filter_inj:
  "distinct (map f xs) \<Longrightarrow> x \<in> set xs \<Longrightarrow> y \<in> set xs \<Longrightarrow> f x = f y \<Longrightarrow> x = y"
  by (auto simp: distinct_map inj_on_def)

lemma find_append: "find P (xs @ ys) = (case find P xs of None \<Rightarrow> find P ys | Some x \<Rightarrow> Some x)"
  by (induction xs) auto

lemma find_unique:
  assumes "distinct (map k xs)" and "x \<in> set xs"
  shows "find (\<lambda>y. k y = k x) xs = Some x"
  using assms
  by (induction xs) (auto simp: rev_image_eqI)

lemma list_all_map_upd:
  "list_all P xs \<Longrightarrow> (\<And>x. x \<in> set xs \<Longrightarrow> P x \<Longrightarrow> P (f x)) \<Longrightarrow> list_all P (map f xs)"
  by (auto simp: list_all_iff)

lemma length_filter_mono:
  "(\<And>x. x \<in> set xs \<Longrightarrow> P x \<Longrightarrow> Q x) \<Longrightarrow> length (filter P xs) \<le> length (filter Q xs)"
  by (induction xs) (auto simp: le_SucI)

lemma length_filter_mono_less:
  assumes "\<And>x. x \<in> set xs \<Longrightarrow> P x \<Longrightarrow> Q x" and "y \<in> set xs" "Q y" "\<not> P y"
  shows "length (filter P xs) < length (filter Q xs)"
  using assms
proof (induction xs)
  case (Cons x xs)
  show ?case
  proof (cases "y = x")
    case True
    have "length (filter P xs) \<le> length (filter Q xs)"
      using Cons.prems(1) by (intro length_filter_mono) auto
    then show ?thesis using True Cons.prems(3,4) by simp
  next
    case False
    then have "length (filter P xs) < length (filter Q xs)"
      using Cons by (intro Cons.IH) auto
    then show ?thesis using Cons.prems(1) [of x] by auto
  qed
qed simp

lemma sorted_take_rest:
  assumes "sorted_wrt P xs" "g \<in> set xs" "g \<notin> set (take n xs)" "h \<in> set (take n xs)"
  shows "P h g"
proof -
  have "sorted_wrt P (take n xs @ drop n xs)" using assms(1) by simp
  then have "\<forall>x\<in>set (take n xs). \<forall>y\<in>set (drop n xs). P x y"
    unfolding sorted_wrt_append by (elim conjE)
  moreover have "g \<in> set (take n xs @ drop n xs)" using assms(2) by simp
  then have "g \<in> set (drop n xs)" using assms(3) unfolding set_append by blast
  ultimately show ?thesis using assms(4) by blast
qed

text \<open>The values a partial column takes, row by row, nulls left out.\<close>

definition column :: "('a \<Rightarrow> 'b option) \<Rightarrow> 'a list \<Rightarrow> 'b list" where
  "column f xs = List.map_filter f xs"

lemma column_Nil [simp]: "column f [] = []"
  by (simp add: column_def List.map_filter_def)

lemma column_Cons [simp]:
  "column f (x # xs) = (case f x of None \<Rightarrow> column f xs | Some y \<Rightarrow> y # column f xs)"
  by (simp add: column_def List.map_filter_def split: option.splits)

lemma set_column: "set (column f xs) = {y. \<exists>x\<in>set xs. f x = Some y}"
  by (induction xs) (auto split: option.splits)

lemma column_append [simp]: "column f (xs @ ys) = column f xs @ column f ys"
  by (induction xs) (auto split: option.splits)

lemma column_cong: "(\<And>x. x \<in> set xs \<Longrightarrow> f x = g x) \<Longrightarrow> column f xs = column g xs"
  by (induction xs) (auto split: option.splits)

lemma distinct_column_filter: "distinct (column f xs) \<Longrightarrow> distinct (column f (filter P xs))"
  by (induction xs) (auto simp: set_column split: option.splits)

lemma distinct_columnD:
  assumes "distinct (column f xs)" "x \<in> set xs" "y \<in> set xs" "f x = Some v" "f y = Some v"
  shows "x = y"
  using assms
  by (induction xs) (auto simp: set_column split: option.splits)

lemma column_map_same:
  "(\<And>x. x \<in> set xs \<Longrightarrow> f (g x) = f x) \<Longrightarrow> column f (map g xs) = column f xs"
  by (induction xs) (auto split: option.splits)

lemma distinct_map_filter_sub: "distinct (map f xs) \<Longrightarrow> distinct (map f (filter P xs))"
  by (induction xs) auto

end
