(* ===== verification/GoStrings.thy ===== *)
theory GoStrings
  imports Prelude
begin

text \<open>
  What the program uses of Go's packages \<open>strings\<close>, \<open>unicode\<close> and
  \<open>unicode/utf8\<close>, on byte strings: prefixes and suffixes, cutting at a byte, UTF-8 decoding
  with Go's rule for malformed input (one \<open>RuneError\<close> of width 1 per bad byte), and
  \<open>strings.TrimSpace\<close>.  Nothing here is part of the repository.
\<close>

section \<open>Bytes\<close>

definition byte :: "nat \<Rightarrow> char" where
  "byte n = char_of n"

definition code :: "char \<Rightarrow> nat" where
  "code c = of_char c"

abbreviation TAB :: char where "TAB \<equiv> CHR 0x09"
abbreviation LF :: char where "LF \<equiv> CHR 0x0A"
abbreviation CR :: char where "CR \<equiv> CHR 0x0D"

lemma code_byte [simp]: "n < 256 \<Longrightarrow> code (byte n) = n"
  by (simp add: code_def byte_def of_char_of)

lemma byte_code [simp]: "byte (code c) = c"
  by (simp add: code_def byte_def)

lemma code_LF [simp]: "code LF = 10" and code_CR [simp]: "code CR = 13"
  by (simp_all add: code_def)

lemma code_less: "code c < 256"
  by (simp add: code_def)

lemma code_eq_iff [simp]: "code c = code d \<longleftrightarrow> c = d"
  by (simp add: code_def)

section \<open>Prefixes, suffixes, cutting\<close>

definition has_prefix :: "string \<Rightarrow> string \<Rightarrow> bool" where
  "has_prefix s p = prefix p s"

definition has_suffix :: "string \<Rightarrow> string \<Rightarrow> bool" where
  "has_suffix s p = suffix p s"

definition cut_prefix :: "string \<Rightarrow> string \<Rightarrow> string option" where
  "cut_prefix s p = (if has_prefix s p then Some (drop (length p) s) else None)"

definition cut_suffix :: "string \<Rightarrow> string \<Rightarrow> string option" where
  "cut_suffix s p = (if has_suffix s p then Some (take (length s - length p) s) else None)"

definition trim_suffix :: "string \<Rightarrow> string \<Rightarrow> string" where
  "trim_suffix s p = (case cut_suffix s p of None \<Rightarrow> s | Some t \<Rightarrow> t)"

text \<open>\<open>strings.Cut\<close> and \<open>strings.Contains\<close> for a separator of one byte.\<close>

definition cut_at :: "char \<Rightarrow> string \<Rightarrow> (string \<times> string) option" where
  "cut_at c s = (if c \<in> set s then Some (takeWhile (\<lambda>x. x \<noteq> c) s, tl (dropWhile (\<lambda>x. x \<noteq> c) s)) else None)"

definition contains_byte :: "string \<Rightarrow> char \<Rightarrow> bool" where
  "contains_byte s c = (c \<in> set s)"

definition contains_any :: "string \<Rightarrow> char list \<Rightarrow> bool" where
  "contains_any s cs = list_ex (\<lambda>c. c \<in> set cs) s"

definition remove_byte :: "char \<Rightarrow> string \<Rightarrow> string" where
  "remove_byte c s = filter (\<lambda>x. x \<noteq> c) s"

text \<open>\<open>strings.ReplaceAll(s, "\r\n", "\n")\<close>.\<close>

fun crlf_to_lf :: "string \<Rightarrow> string" where
  "crlf_to_lf (a # b # s) = (if a = CR \<and> b = LF then LF # crlf_to_lf s else a # crlf_to_lf (b # s))"
| "crlf_to_lf s = s"

lemma cut_suffix_Some: "cut_suffix s p = Some t \<longleftrightarrow> s = t @ p"
  by (auto simp: cut_suffix_def has_suffix_def suffix_def)

lemma cut_prefix_Some: "cut_prefix s p = Some t \<longleftrightarrow> s = p @ t"
  by (auto simp: cut_prefix_def has_prefix_def prefix_def)

lemma cut_at_Some:
  "cut_at c s = Some (a, b) \<longleftrightarrow> s = a @ c # b \<and> c \<notin> set a"
proof
  assume h: "cut_at c s = Some (a, b)"
  then have c: "c \<in> set s" by (simp add: cut_at_def split: if_splits)
  then obtain u v where s: "s = u @ c # v" and u: "c \<notin> set u"
    by (meson split_list_first)
  from u have "takeWhile (\<lambda>x. x \<noteq> c) u = u" "dropWhile (\<lambda>x. x \<noteq> c) (u @ c # v) = c # v"
    by (auto simp: dropWhile_append takeWhile_eq_all_conv)
  with h s u show "s = a @ c # b \<and> c \<notin> set a"
    by (auto simp: cut_at_def takeWhile_append takeWhile_eq_all_conv)
next
  assume h: "s = a @ c # b \<and> c \<notin> set a"
  then have "takeWhile (\<lambda>x. x \<noteq> c) s = a" "dropWhile (\<lambda>x. x \<noteq> c) s = c # b"
    by (auto simp: dropWhile_append takeWhile_append takeWhile_eq_all_conv)
  with h show "cut_at c s = Some (a, b)" by (simp add: cut_at_def)
qed

lemma cut_at_None: "cut_at c s = None \<longleftrightarrow> c \<notin> set s"
  by (simp add: cut_at_def)

section \<open>Letter case\<close>

definition ascii :: "string \<Rightarrow> bool" where
  "ascii s = list_all (\<lambda>c. code c < 128) s"

definition lower_byte :: "char \<Rightarrow> char" where
  "lower_byte c = (if 65 \<le> code c \<and> code c \<le> 90 then byte (code c + 32) else c)"

text \<open>
  \<open>strings.ToLower\<close>.  On an ASCII string it is byte by byte; on any other string it goes
  through Go's Unicode tables, which the model takes as the parameter \<open>ul\<close>.
\<close>

definition to_lower :: "(string \<Rightarrow> string) \<Rightarrow> string \<Rightarrow> string" where
  "to_lower ul s = (if ascii s then map lower_byte s else ul s)"

lemma code_lower_byte:
  "code (lower_byte c) = (if 65 \<le> code c \<and> code c \<le> 90 then code c + 32 else code c)"
  by (simp add: lower_byte_def)

lemma lower_byte_idem [simp]: "lower_byte (lower_byte c) = lower_byte c"
  by (simp add: lower_byte_def)

lemma ascii_lower [simp]: "ascii (map lower_byte s) = ascii s"
proof -
  have "code (lower_byte c) < 128 \<longleftrightarrow> code c < 128" for c
    by (auto simp: code_lower_byte)
  then show ?thesis by (simp add: ascii_def list_all_iff)
qed

lemma to_lower_ascii: "ascii s \<Longrightarrow> to_lower ul s = map lower_byte s"
  by (simp add: to_lower_def)

lemma ascii_append [simp]: "ascii (s @ t) \<longleftrightarrow> ascii s \<and> ascii t"
  by (simp add: ascii_def)

section \<open>UTF-8\<close>

text \<open>
  \<open>utf8.DecodeRuneInString\<close> on a non-empty string: the code point and the bytes it takes.
  A malformed sequence is \<open>RuneError\<close> (U+FFFD) with width 1; the same code point written out
  takes 3 bytes.
\<close>

definition rune_error :: nat where "rune_error = 0xFFFD"

definition cont :: "nat \<Rightarrow> nat \<Rightarrow> char \<Rightarrow> bool" where
  "cont lo hi c = (lo \<le> code c \<and> code c \<le> hi)"

definition lead_range :: "nat \<Rightarrow> nat \<times> nat" where
  "lead_range b = (if b = 0xE0 then (0xA0, 0xBF) else if b = 0xED then (0x80, 0x9F)
     else if b = 0xF0 then (0x90, 0xBF) else if b = 0xF4 then (0x80, 0x8F) else (0x80, 0xBF))"

definition decode_rune :: "string \<Rightarrow> nat \<times> nat" where
  "decode_rune s = (case s of [] \<Rightarrow> (rune_error, 0)
   | c0 # s1 \<Rightarrow> (let b = code c0; (lo, hi) = lead_range b in
       if b < 0x80 then (b, 1)
       else if b < 0xC2 \<or> 0xF4 < b then (rune_error, 1)
       else (case s1 of [] \<Rightarrow> (rune_error, 1)
        | c1 # s2 \<Rightarrow>
          if \<not> cont lo hi c1 then (rune_error, 1)
          else if b < 0xE0 then ((b mod 32) * 64 + code c1 mod 64, 2)
          else (case s2 of [] \<Rightarrow> (rune_error, 1)
           | c2 # s3 \<Rightarrow>
             if \<not> cont 0x80 0xBF c2 then (rune_error, 1)
             else if b < 0xF0 then (((b mod 16) * 64 + code c1 mod 64) * 64 + code c2 mod 64, 3)
             else (case s3 of [] \<Rightarrow> (rune_error, 1)
              | c3 # _ \<Rightarrow>
                if \<not> cont 0x80 0xBF c3 then (rune_error, 1)
                else ((((b mod 8) * 64 + code c1 mod 64) * 64 + code c2 mod 64) * 64
                       + code c3 mod 64, 4))))))"

lemma decode_rune_width: "s \<noteq> [] \<Longrightarrow> decode_rune s = (r, n) \<Longrightarrow> 1 \<le> n \<and> n \<le> length s"
  by (auto simp: decode_rune_def Let_def split: list.splits if_splits prod.splits)

text \<open>\<open>for _, r := range s\<close>: the runes of a string, each with its width.\<close>

function decode :: "string \<Rightarrow> (nat \<times> nat) list" where
  "decode [] = []"
| "decode (c # s) = (let (r, n) = decode_rune (c # s) in (r, n) # decode (drop (n - 1) s))"
  by pat_completeness auto
termination by (relation "measure length") auto

definition runes :: "string \<Rightarrow> nat list" where
  "runes s = map fst (decode s)"

definition rune_count :: "string \<Rightarrow> nat" where
  "rune_count s = length (decode s)"

definition utf8_valid :: "string \<Rightarrow> bool" where
  "utf8_valid s = list_all (\<lambda>x. x \<noteq> (rune_error, 1)) (decode s)"

text \<open>\<open>string(r)\<close> for a valid code point.\<close>

definition encode_rune :: "nat \<Rightarrow> string" where
  "encode_rune r =
     (if r < 0x80 then [byte r]
      else if r < 0x800 then [byte (0xC0 + r div 64), byte (0x80 + r mod 64)]
      else if r < 0x10000 then
        [byte (0xE0 + r div 4096), byte (0x80 + r div 64 mod 64), byte (0x80 + r mod 64)]
      else [byte (0xF0 + r div 262144), byte (0x80 + r div 4096 mod 64),
            byte (0x80 + r div 64 mod 64), byte (0x80 + r mod 64)])"

definition valid_rune :: "nat \<Rightarrow> bool" where
  "valid_rune r = (r < 0xD800 \<or> 0xE000 \<le> r \<and> r < 0x110000)"

lemma decode_ascii: "ascii s \<Longrightarrow> decode s = map (\<lambda>c. (code c, 1)) s"
  by (induction s) (auto simp: ascii_def decode_rune_def Let_def split: prod.splits)

lemma runes_ascii: "ascii s \<Longrightarrow> runes s = map code s"
  by (simp add: runes_def decode_ascii)

lemma utf8_valid_ascii: "ascii s \<Longrightarrow> utf8_valid s"
  by (auto simp: utf8_valid_def decode_ascii list_all_iff ascii_def rune_error_def)

lemma rune_count_ascii: "ascii s \<Longrightarrow> rune_count s = length s"
  by (simp add: rune_count_def decode_ascii)

lemma rune_count_runes: "rune_count s = length (runes s)"
  by (simp add: rune_count_def runes_def)

lemma runes_Nil [simp]: "runes [] = []"
  by (simp add: runes_def)

lemma runes_eq_Nil [simp]: "runes s = [] \<longleftrightarrow> s = []"
  by (cases s) (auto simp: runes_def Let_def split: prod.splits)

lemma rune_count_le_length: "rune_count s \<le> length s"
proof -
  have "length (decode s) \<le> length s"
  proof (induction s rule: decode.induct)
    case (2 c s)
    obtain r n where rn: "decode_rune (c # s) = (r, n)" by force
    from decode_rune_width [OF _ rn] have "1 \<le> n" by simp
    with "2.IH" rn show ?case by (force simp: Let_def)
  qed simp
  then show ?thesis by (simp add: rune_count_def)
qed

text \<open>
  A byte below 0x80 is a rune of its own wherever it stands: a longer sequence, and a malformed
  one, only ever takes bytes from 0x80 up beyond its first.
\<close>

lemma decode_rune_ascii: "code c < 128 \<Longrightarrow> decode_rune (c # s) = (code c, 1)"
  by (simp add: decode_rune_def Let_def split: prod.splits)

lemma lead_range_high: "lead_range b = (lo, hi) \<Longrightarrow> 128 \<le> lo"
  by (auto simp: lead_range_def split: if_splits)

lemma cont_high: "128 \<le> lo \<Longrightarrow> cont lo hi c \<Longrightarrow> \<not> code c < 128"
  by (simp add: cont_def)

text \<open>The continuation bytes a sequence takes.\<close>

lemma decode_rune_taken:
  assumes "decode_rune (c # s) = (r, n)"
  shows "n = 1
    \<or> n = 2 \<and> (\<exists>c1 t lo hi. s = c1 # t \<and> cont lo hi c1 \<and> 128 \<le> lo)
    \<or> n = 3 \<and> (\<exists>c1 c2 t lo hi. s = c1 # c2 # t \<and> cont lo hi c1 \<and> 128 \<le> lo \<and> cont 128 191 c2)
    \<or> n = 4 \<and> (\<exists>c1 c2 c3 t lo hi. s = c1 # c2 # c3 # t \<and> cont lo hi c1 \<and> 128 \<le> lo
        \<and> cont 128 191 c2 \<and> cont 128 191 c3)"
proof -
  obtain lo hi where lr: "lead_range (code c) = (lo, hi)" by force
  then have lo: "128 \<le> lo" by (rule lead_range_high)
  from assms lo show ?thesis
    unfolding decode_rune_def list.case Let_def lr prod.case
    by (clarsimp split: if_split_asm list.split_asm) blast+
qed

lemma decode_rune_high:
  assumes "decode_rune (c # s) = (r, n)"
  shows "\<forall>x\<in>set (take (n - 1) s). \<not> code x < 128"
  using decode_rune_taken [OF assms] by (auto simp: cont_def)

lemma ascii_byte_in_runes: "c \<in> set s \<Longrightarrow> code c < 128 \<Longrightarrow> code c \<in> set (runes s)"
proof (induction s rule: decode.induct)
  case 1
  then show ?case by simp
next
  case (2 a s)
  obtain r n where rn: "decode_rune (a # s) = (r, n)" by force
  show ?case
  proof (cases "c = a")
    case True
    with 2 show ?thesis by (simp add: runes_def Let_def decode_rune_ascii)
  next
    case False
    with "2.prems" have "c \<in> set (take (n - 1) s) \<union> set (drop (n - 1) s)"
      by (metis append_take_drop_id set_ConsD set_append)
    moreover have "c \<notin> set (take (n - 1) s)"
    proof (cases "code a < 128")
      case True
      with rn have "n = 1" by (simp add: decode_rune_ascii)
      then show ?thesis by simp
    next
      case False
      then show ?thesis using decode_rune_high [OF rn] "2.prems" by blast
    qed
    ultimately have "code c \<in> set (runes (drop (n - 1) s))"
      using "2.IH" rn "2.prems" by auto
    with rn show ?thesis by (simp add: runes_def Let_def)
  qed
qed

section \<open>\<open>strings.TrimSpace\<close>\<close>

text \<open>
  \<open>unicode.IsSpace\<close> holds of 25 code points.  Since no encoding of one is a proper suffix
  or prefix of another's, trimming from either end drops their encodings one at a time.
\<close>

definition space_runes :: "nat list" where
  "space_runes = [0x09, 0x0A, 0x0B, 0x0C, 0x0D, 0x20, 0x85, 0xA0, 0x1680,
     0x2000, 0x2001, 0x2002, 0x2003, 0x2004, 0x2005, 0x2006, 0x2007, 0x2008, 0x2009, 0x200A,
     0x2028, 0x2029, 0x202F, 0x205F, 0x3000]"

definition space_encodings :: "string list" where
  "space_encodings = map encode_rune space_runes"

lemma space_encodings_literal [code]:
  "space_encodings =
     [[CHR 0x09], [CHR 0x0A], [CHR 0x0B], [CHR 0x0C], [CHR 0x0D], [CHR 0x20],
      [CHR 0xC2, CHR 0x85], [CHR 0xC2, CHR 0xA0], [CHR 0xE1, CHR 0x9A, CHR 0x80],
      [CHR 0xE2, CHR 0x80, CHR 0x80], [CHR 0xE2, CHR 0x80, CHR 0x81],
      [CHR 0xE2, CHR 0x80, CHR 0x82], [CHR 0xE2, CHR 0x80, CHR 0x83],
      [CHR 0xE2, CHR 0x80, CHR 0x84], [CHR 0xE2, CHR 0x80, CHR 0x85],
      [CHR 0xE2, CHR 0x80, CHR 0x86], [CHR 0xE2, CHR 0x80, CHR 0x87],
      [CHR 0xE2, CHR 0x80, CHR 0x88], [CHR 0xE2, CHR 0x80, CHR 0x89],
      [CHR 0xE2, CHR 0x80, CHR 0x8A], [CHR 0xE2, CHR 0x80, CHR 0xA8],
      [CHR 0xE2, CHR 0x80, CHR 0xA9], [CHR 0xE2, CHR 0x80, CHR 0xAF],
      [CHR 0xE2, CHR 0x81, CHR 0x9F], [CHR 0xE3, CHR 0x80, CHR 0x80]]"
  by (simp add: space_encodings_def space_runes_def encode_rune_def byte_def char_of_def bit_0)

function trim_left :: "string \<Rightarrow> string" where
  "trim_left s = (case find (\<lambda>e. prefix e s) space_encodings of None \<Rightarrow> s
     | Some e \<Rightarrow> trim_left (drop (length e) s))"
  by pat_completeness auto

lemma encode_rune_nonempty [simp]: "encode_rune r \<noteq> []"
  by (simp add: encode_rune_def)

lemma space_encodings_nonempty: "e \<in> set space_encodings \<Longrightarrow> e \<noteq> []"
  by (auto simp: space_encodings_def)

termination trim_left
proof (relation "measure length")
  fix s e
  assume "find (\<lambda>e. prefix e s) space_encodings = Some e"
  then have "e \<in> set space_encodings" and "prefix e s" by (auto dest: find_Some_in)
  then show "(drop (length e) s, s) \<in> measure length"
    using space_encodings_nonempty by (cases s) auto
qed simp

declare trim_left.simps [simp del]

function trim_right :: "string \<Rightarrow> string" where
  "trim_right s = (case find (\<lambda>e. suffix e s) space_encodings of None \<Rightarrow> s
     | Some e \<Rightarrow> trim_right (take (length s - length e) s))"
  by pat_completeness auto
termination
proof (relation "measure length")
  fix s e
  assume "find (\<lambda>e. suffix e s) space_encodings = Some e"
  then have "e \<in> set space_encodings" and "suffix e s" by (auto dest: find_Some_in)
  then show "(take (length s - length e) s, s) \<in> measure length"
    using space_encodings_nonempty [OF \<open>e \<in> set space_encodings\<close>] suffix_length_le [of e s]
    by (cases e; cases s) auto
qed simp

declare trim_right.simps [simp del]

definition trim_space :: "string \<Rightarrow> string" where
  "trim_space s = trim_right (trim_left s)"

definition starts_with_space :: "string \<Rightarrow> bool" where
  "starts_with_space s = list_ex (\<lambda>e. prefix e s) space_encodings"

definition ends_with_space :: "string \<Rightarrow> bool" where
  "ends_with_space s = list_ex (\<lambda>e. suffix e s) space_encodings"

definition trimmed :: "string \<Rightarrow> bool" where
  "trimmed s = (\<not> starts_with_space s \<and> \<not> ends_with_space s)"

lemma trim_left_no_space: "\<not> starts_with_space (trim_left s)"
proof (induction s rule: trim_left.induct)
  case (1 s)
  show ?case
  proof (cases "find (\<lambda>e. prefix e s) space_encodings")
    case None
    then have "trim_left s = s" by (simp add: trim_left.simps [of s])
    with None show ?thesis by (simp add: starts_with_space_def list_ex_iff find_None_all)
  next
    case (Some e)
    with 1 show ?thesis by (simp add: trim_left.simps [of s])
  qed
qed

lemma trim_left_fix: "\<not> starts_with_space s \<Longrightarrow> trim_left s = s"
proof -
  assume "\<not> starts_with_space s"
  then have "find (\<lambda>e. prefix e s) space_encodings = None"
    by (auto simp: starts_with_space_def list_ex_iff find_None_all)
  then show ?thesis by (simp add: trim_left.simps [of s])
qed

lemma trim_left_suffix: "suffix (trim_left s) s"
proof (induction s rule: trim_left.induct)
  case (1 s)
  show ?case
  proof (cases "find (\<lambda>e. prefix e s) space_encodings")
    case None
    then show ?thesis by (simp add: trim_left.simps [of s])
  next
    case (Some e)
    with 1 have "suffix (trim_left (drop (length e) s)) (drop (length e) s)" by simp
    then have "suffix (trim_left (drop (length e) s)) s"
      using suffix_drop suffix_order.trans by blast
    with Some show ?thesis by (simp add: trim_left.simps [of s])
  qed
qed

lemma trim_right_no_space: "\<not> ends_with_space (trim_right s)"
proof (induction s rule: trim_right.induct)
  case (1 s)
  show ?case
  proof (cases "find (\<lambda>e. suffix e s) space_encodings")
    case None
    then have "trim_right s = s" by (simp add: trim_right.simps [of s])
    with None show ?thesis by (simp add: ends_with_space_def list_ex_iff find_None_all)
  next
    case (Some e)
    with 1 show ?thesis by (simp add: trim_right.simps [of s])
  qed
qed

lemma trim_right_fix: "\<not> ends_with_space s \<Longrightarrow> trim_right s = s"
proof -
  assume "\<not> ends_with_space s"
  then have "find (\<lambda>e. suffix e s) space_encodings = None"
    by (auto simp: ends_with_space_def list_ex_iff find_None_all)
  then show ?thesis by (simp add: trim_right.simps [of s])
qed

lemma trim_right_prefix: "prefix (trim_right s) s"
proof (induction s rule: trim_right.induct)
  case (1 s)
  show ?case
  proof (cases "find (\<lambda>e. suffix e s) space_encodings")
    case None
    then show ?thesis by (simp add: trim_right.simps [of s])
  next
    case (Some e)
    with 1 have "prefix (trim_right (take (length s - length e) s)) (take (length s - length e) s)"
      by simp
    then have "prefix (trim_right (take (length s - length e) s)) s"
      using take_is_prefix prefix_order.trans by blast
    with Some show ?thesis by (simp add: trim_right.simps [of s])
  qed
qed

lemma starts_with_space_prefix: "prefix t s \<Longrightarrow> starts_with_space t \<Longrightarrow> starts_with_space s"
  unfolding starts_with_space_def list_ex_iff using prefix_order.trans by blast

lemma trimmed_trim_space: "trimmed (trim_space s)"
  unfolding trimmed_def trim_space_def
  using trim_right_no_space starts_with_space_prefix trim_right_prefix trim_left_no_space
  by blast

lemma trim_space_trimmed: "trimmed s \<Longrightarrow> trim_space s = s"
  by (simp add: trimmed_def trim_space_def trim_left_fix trim_right_fix)

lemma trim_space_idem [simp]: "trim_space (trim_space s) = trim_space s"
  by (simp add: trim_space_trimmed trimmed_trim_space)

lemma trim_space_sublist: "sublist (trim_space s) s"
  unfolding trim_space_def
  using trim_right_prefix trim_left_suffix prefix_imp_sublist suffix_imp_sublist
    sublist_order.order_trans by blast

lemma length_trim_space: "length (trim_space s) \<le> length s"
  using sublist_length_le [OF trim_space_sublist] .

lemma set_trim_space: "set (trim_space s) \<subseteq> set s"
  using set_mono_sublist [OF trim_space_sublist] .

lemma trimmed_Nil [simp]: "trimmed []"
  using space_encodings_nonempty
  by (auto simp: trimmed_def starts_with_space_def ends_with_space_def list_ex_iff)

end
