(* ===== verification/Schema.thy ===== *)
theory Schema
  imports GoStrings
begin

text \<open>
  The database: the rows of \<open>internal/store/models.go\<close>, the tables they live in, and the
  constraints \<open>migrations/*.sql\<close> puts on them.  A nullable column is an option.  Tables are
  lists of rows.  Postgres's \<open>lower()\<close> depends on the database's collation, so it is the
  parameter \<open>L\<close> wherever a statement or an index uses it.
\<close>

section \<open>Rows\<close>

record user_row =
  u_id :: uuid
  u_email :: string
  u_handle :: "string option"
  u_state :: string
  u_tier :: string
  u_locale :: string
  u_created_at :: instant
  u_display_name :: "string option"
  u_photo_key :: "string option"
  u_photo_width :: "int option"
  u_photo_height :: "int option"
  u_photo_uploaded_at :: "instant option"
  u_can_upload_photos :: bool
  u_terms_accepted_at :: "instant option"

record login_token =
  lt_id :: uuid
  lt_token_hash :: bytes
  lt_email :: string
  lt_created_at :: instant
  lt_expires_at :: instant
  lt_consumed_at :: "instant option"

record session_row =
  s_id :: uuid
  s_session_hash :: bytes
  s_user_id :: uuid
  s_created_at :: instant
  s_expires_at :: instant
  s_revoked_at :: "instant option"

record mood_row =
  m_user_id :: uuid
  m_mood_key :: string
  m_note :: "string option"
  m_updated_at :: instant

record mood_history_row =
  h_id :: uuid
  h_user_id :: uuid
  h_mood_key :: string
  h_note :: "string option"
  h_at :: instant

record guestbook_row =
  g_id :: uuid
  g_page_user_id :: uuid
  g_author_user_id :: uuid
  g_body :: string
  g_state :: string
  g_created_at :: instant

record page_style_row =
  ps_user_id :: uuid
  ps_bg :: "string option"
  ps_sheet :: "string option"
  ps_text_color :: "string option"
  ps_link :: "string option"
  ps_name :: "string option"
  ps_bar_bg :: "string option"
  ps_bar_fg :: "string option"
  ps_font_head :: "string option"
  ps_font_body :: "string option"
  ps_own_mood_box :: bool
  ps_updated_at :: instant

record deleted_handle_row =
  d_handle :: string
  d_deleted_at :: instant

record db =
  users :: "user_row list"
  login_tokens :: "login_token list"
  sessions :: "session_row list"
  moods :: "mood_row list"
  mood_history :: "mood_history_row list"
  guestbook_entries :: "guestbook_row list"
  page_styles :: "page_style_row list"
  deleted_handles :: "deleted_handle_row list"

definition empty_db :: db where
  "empty_db = \<lparr>users = [], login_tokens = [], sessions = [], moods = [], mood_history = [],
     guestbook_entries = [], page_styles = [], deleted_handles = []\<rparr>"

section \<open>Row constraints\<close>

text \<open>The CHECK constraints of the schema; a null passes, as in SQL.\<close>

definition null_or :: "('a \<Rightarrow> bool) \<Rightarrow> 'a option \<Rightarrow> bool" where
  "null_or P x = (case x of None \<Rightarrow> True | Some v \<Rightarrow> P v)"

lemma null_or_simps [simp]: "null_or P None" "null_or P (Some v) = P v"
  by (simp_all add: null_or_def)

text \<open>\<open>^[a-z2-7]{26}$\<close>, \<open>^#[0-9a-f]{6}$\<close> and \<open>^[a-z0-9-]{1,32}$\<close>.\<close>

definition base32_char :: "char \<Rightarrow> bool" where
  "base32_char c = (97 \<le> code c \<and> code c \<le> 122 \<or> 50 \<le> code c \<and> code c \<le> 55)"

definition photo_key_format :: "string \<Rightarrow> bool" where
  "photo_key_format s = (length s = 26 \<and> list_all base32_char s)"

definition hex_char :: "char \<Rightarrow> bool" where
  "hex_char c = (48 \<le> code c \<and> code c \<le> 57 \<or> 97 \<le> code c \<and> code c \<le> 102)"

definition hex_color :: "string \<Rightarrow> bool" where
  "hex_color s = (case s of [] \<Rightarrow> False
     | c # ds \<Rightarrow> c = CHR ''#'' \<and> length ds = 6 \<and> list_all hex_char ds)"

definition font_key_format :: "string \<Rightarrow> bool" where
  "font_key_format s = (1 \<le> length s \<and> length s \<le> 32 \<and>
     list_all (\<lambda>c. 97 \<le> code c \<and> code c \<le> 122 \<or> 48 \<le> code c \<and> code c \<le> 57 \<or> c = CHR ''-'') s)"

definition mood_vocabulary :: "string list" where
  "mood_vocabulary = [''feliz'', ''triste'', ''tranquilo'', ''ansioso'', ''enamorado'', ''cansado'',
     ''enojado'', ''aburrido'', ''inspirado'', ''nostalgico'', ''fiesta'', ''perdido'']"

definition user_check :: "user_row \<Rightarrow> bool" where
  "user_check u =
     (null_or (\<lambda>n. 1 \<le> rune_count n \<and> rune_count n \<le> 40) (u_display_name u) \<and>
      null_or photo_key_format (u_photo_key u) \<and>
      (u_photo_key u = None \<and> u_photo_width u = None \<and> u_photo_height u = None \<or>
       u_photo_key u \<noteq> None \<and> u_photo_width u \<noteq> None \<and> u_photo_height u \<noteq> None \<and>
       null_or (\<lambda>n. 0 < n) (u_photo_width u) \<and> null_or (\<lambda>n. 0 < n) (u_photo_height u)))"

definition session_check :: "session_row \<Rightarrow> bool" where
  "session_check s = null_or (\<lambda>t. s_created_at s \<le> t) (s_revoked_at s)"

definition guestbook_check :: "guestbook_row \<Rightarrow> bool" where
  "guestbook_check g =
     (1 \<le> rune_count (g_body g) \<and> rune_count (g_body g) \<le> 280 \<and>
      (g_state g = ''visible'' \<or> g_state g = ''hidden'') \<and> g_page_user_id g \<noteq> g_author_user_id g)"

definition page_style_check :: "page_style_row \<Rightarrow> bool" where
  "page_style_check p =
     (null_or hex_color (ps_bg p) \<and> null_or hex_color (ps_sheet p) \<and>
      null_or hex_color (ps_text_color p) \<and> null_or hex_color (ps_link p) \<and>
      null_or hex_color (ps_name p) \<and> null_or hex_color (ps_bar_bg p) \<and>
      null_or hex_color (ps_bar_fg p) \<and> null_or font_key_format (ps_font_head p) \<and>
      null_or font_key_format (ps_font_body p))"

section \<open>Keys and references\<close>

definition user_keys :: "(string \<Rightarrow> string) \<Rightarrow> user_row list \<Rightarrow> bool" where
  "user_keys L us =
     (distinct (map u_id us) \<and> distinct (map (\<lambda>u. L (u_email u)) us) \<and>
      distinct (column (\<lambda>u. map_option L (u_handle u)) us) \<and> distinct (column u_photo_key us))"

definition user_ids :: "db \<Rightarrow> uuid set" where
  "user_ids d = u_id ` set (users d)"

text \<open>Everything the schema promises of a database.\<close>

definition users_ok :: "(string \<Rightarrow> string) \<Rightarrow> user_row list \<Rightarrow> bool" where
  "users_ok L us = (list_all user_check us \<and> user_keys L us)"

definition tokens_ok :: "login_token list \<Rightarrow> bool" where
  "tokens_ok ts = (distinct (map lt_id ts) \<and> distinct (map lt_token_hash ts))"

definition sessions_ok :: "session_row list \<Rightarrow> bool" where
  "sessions_ok ss = (distinct (map s_id ss) \<and> distinct (map s_session_hash ss) \<and>
     list_all session_check ss)"

definition moods_ok :: "mood_row list \<Rightarrow> bool" where
  "moods_ok ms = (distinct (map m_user_id ms) \<and>
     list_all (\<lambda>m. m_mood_key m \<in> set mood_vocabulary) ms)"

definition history_ok :: "mood_history_row list \<Rightarrow> bool" where
  "history_ok hs = (distinct (map h_id hs) \<and>
     list_all (\<lambda>h. h_mood_key h \<in> set mood_vocabulary) hs)"

definition guestbook_ok :: "guestbook_row list \<Rightarrow> bool" where
  "guestbook_ok gs = (distinct (map g_id gs) \<and> list_all guestbook_check gs)"

definition styles_ok :: "page_style_row list \<Rightarrow> bool" where
  "styles_ok ps = (distinct (map ps_user_id ps) \<and> list_all page_style_check ps)"

definition reservations_ok :: "(string \<Rightarrow> string) \<Rightarrow> deleted_handle_row list \<Rightarrow> bool" where
  "reservations_ok L ds = (distinct (map d_handle ds) \<and>
     list_all (\<lambda>r. d_handle r = L (d_handle r)) ds)"

definition references_ok :: "db \<Rightarrow> bool" where
  "references_ok d =
     (s_user_id ` set (sessions d) \<subseteq> user_ids d \<and>
      m_user_id ` set (moods d) \<subseteq> user_ids d \<and>
      h_user_id ` set (mood_history d) \<subseteq> user_ids d \<and>
      g_page_user_id ` set (guestbook_entries d) \<subseteq> user_ids d \<and>
      g_author_user_id ` set (guestbook_entries d) \<subseteq> user_ids d \<and>
      ps_user_id ` set (page_styles d) \<subseteq> user_ids d)"

definition db_ok :: "(string \<Rightarrow> string) \<Rightarrow> db \<Rightarrow> bool" where
  "db_ok L d = (users_ok L (users d) \<and> tokens_ok (login_tokens d) \<and> sessions_ok (sessions d) \<and>
     moods_ok (moods d) \<and> history_ok (mood_history d) \<and> guestbook_ok (guestbook_entries d) \<and>
     styles_ok (page_styles d) \<and> reservations_ok L (deleted_handles d) \<and> references_ok d)"

lemma db_ok_empty: "db_ok L empty_db"
  by (simp add: db_ok_def empty_db_def users_ok_def user_keys_def tokens_ok_def sessions_ok_def
      moods_ok_def history_ok_def guestbook_ok_def styles_ok_def reservations_ok_def
      references_ok_def)

lemmas table_defs = users_ok_def user_keys_def tokens_ok_def sessions_ok_def moods_ok_def
  history_ok_def guestbook_ok_def styles_ok_def reservations_ok_def references_ok_def user_ids_def

end
