(* ===== verification/Queries.thy ===== *)
theory Queries
  imports Schema
begin

text \<open>
  The statements of \<open>internal/store/*.sql.go\<close>, one definition each, with the name sqlc
  generates.  A statement reads the database clock \<open>now\<close> and the tables, and returns its
  result with the tables it leaves; a statement that fails leaves them as they were.
  \<open>gen_random_uuid()\<close> is the argument \<open>rid\<close>, \<open>random()\<close> the argument \<open>pick\<close>.
  A \<open>:one\<close> query that matches nothing is \<open>NoRows\<close>; a violated constraint is
  its SQLSTATE.  Durations are passed as they are, not as a count of seconds.
\<close>

section \<open>Errors and the shape of a statement\<close>

datatype pg_error = NoRows | PgError string | ConnError string

abbreviation unique_violation :: pg_error where "unique_violation \<equiv> PgError ''23505''"
abbreviation check_violation :: pg_error where "check_violation \<equiv> PgError ''23514''"
abbreviation fk_violation :: pg_error where "fk_violation \<equiv> PgError ''23503''"

type_synonym 'r stmt = "instant \<Rightarrow> db \<Rightarrow> (pg_error + 'r) \<times> db"

section \<open>\<open>login_tokens.sql.go\<close>\<close>

definition ConsumeLoginToken :: "bytes \<Rightarrow> string stmt" where
  "ConsumeLoginToken tokenHash now d =
     (let live = (\<lambda>t. lt_token_hash t = tokenHash \<and> lt_consumed_at t = None \<and> lt_expires_at t > now)
      in case find live (login_tokens d) of
        None \<Rightarrow> (Inl NoRows, d)
      | Some t \<Rightarrow> (Inr (lt_email t),
          d\<lparr>login_tokens := map (\<lambda>t. if live t then t\<lparr>lt_consumed_at := Some now\<rparr> else t)
              (login_tokens d)\<rparr>))"

definition CountRecentLoginTokens :: "string \<Rightarrow> duration \<Rightarrow> nat stmt" where
  "CountRecentLoginTokens email window now d =
     (Inr (length (filter (\<lambda>t. lt_email t = email \<and> lt_created_at t > now - window)
        (login_tokens d))), d)"

definition CreateLoginToken :: "uuid \<Rightarrow> bytes \<Rightarrow> string \<Rightarrow> duration \<Rightarrow> unit stmt" where
  "CreateLoginToken rid tokenHash email ttl now d =
     (let row = \<lparr>lt_id = rid, lt_token_hash = tokenHash, lt_email = email, lt_created_at = now,
          lt_expires_at = now + ttl, lt_consumed_at = None\<rparr>
      in if rid \<in> set (map lt_id (login_tokens d)) \<or>
            tokenHash \<in> set (map lt_token_hash (login_tokens d))
         then (Inl unique_violation, d)
         else (Inr (), d\<lparr>login_tokens := login_tokens d @ [row]\<rparr>))"

definition DeleteLoginTokensForEmail :: "(string \<Rightarrow> string) \<Rightarrow> string \<Rightarrow> unit stmt" where
  "DeleteLoginTokensForEmail L email now d =
     (Inr (), d\<lparr>login_tokens := filter (\<lambda>t. L (lt_email t) \<noteq> L email) (login_tokens d)\<rparr>)"

definition InvalidateLoginTokensForEmail :: "string \<Rightarrow> unit stmt" where
  "InvalidateLoginTokensForEmail email now d =
     (Inr (), d\<lparr>login_tokens := map (\<lambda>t.
        if lt_email t = email \<and> lt_consumed_at t = None then t\<lparr>lt_consumed_at := Some now\<rparr> else t)
        (login_tokens d)\<rparr>)"

text \<open>
  The advisory lock is held to the end of the transaction; the model runs a transaction as one
  step, which is what the lock gives the requests for one address.
\<close>

definition LockLoginAddress :: "string \<Rightarrow> unit stmt" where
  "LockLoginAddress email now d = (Inr (), d)"

definition PurgeLoginTokens :: "duration \<Rightarrow> nat stmt" where
  "PurgeLoginTokens olderThan now d =
     (let dead = (\<lambda>t. lt_expires_at t < now - olderThan) in
      (Inr (length (filter dead (login_tokens d))),
       d\<lparr>login_tokens := filter (\<lambda>t. \<not> dead t) (login_tokens d)\<rparr>))"

section \<open>\<open>sessions.sql.go\<close>\<close>

definition CreateSession :: "uuid \<Rightarrow> bytes \<Rightarrow> uuid \<Rightarrow> duration \<Rightarrow> unit stmt" where
  "CreateSession rid sessionHash userID ttl now d =
     (let row = \<lparr>s_id = rid, s_session_hash = sessionHash, s_user_id = userID, s_created_at = now,
          s_expires_at = now + ttl, s_revoked_at = None\<rparr>
      in if rid \<in> set (map s_id (sessions d)) \<or>
            sessionHash \<in> set (map s_session_hash (sessions d))
         then (Inl unique_violation, d)
         else if userID \<notin> user_ids d then (Inl fk_violation, d)
         else (Inr (), d\<lparr>sessions := sessions d @ [row]\<rparr>))"

definition LookupSession :: "bytes \<Rightarrow> uuid stmt" where
  "LookupSession sessionHash now d =
     (case find (\<lambda>s. s_session_hash s = sessionHash \<and> s_revoked_at s = None \<and> s_expires_at s > now)
        (sessions d) of
        None \<Rightarrow> (Inl NoRows, d)
      | Some s \<Rightarrow> (Inr (s_user_id s), d))"

definition session_dead_at :: "session_row \<Rightarrow> instant" where
  "session_dead_at s = min (s_expires_at s)
     (case s_revoked_at s of None \<Rightarrow> s_expires_at s | Some t \<Rightarrow> t)"

definition PurgeSessions :: "duration \<Rightarrow> nat stmt" where
  "PurgeSessions olderThan now d =
     (let dead = (\<lambda>s. session_dead_at s < now - olderThan) in
      (Inr (length (filter dead (sessions d))),
       d\<lparr>sessions := filter (\<lambda>s. \<not> dead s) (sessions d)\<rparr>))"

definition RevokeSession :: "bytes \<Rightarrow> unit stmt" where
  "RevokeSession sessionHash now d =
     (let ss = map (\<lambda>s. if s_session_hash s = sessionHash \<and> s_revoked_at s = None
          then s\<lparr>s_revoked_at := Some now\<rparr> else s) (sessions d)
      in if \<not> list_all session_check ss then (Inl check_violation, d)
         else (Inr (), d\<lparr>sessions := ss\<rparr>))"

section \<open>\<open>moods.sql.go\<close>\<close>

definition GetMoodByUserID :: "uuid \<Rightarrow> mood_row stmt" where
  "GetMoodByUserID userID now d =
     (case find (\<lambda>m. m_user_id m = userID) (moods d) of
        None \<Rightarrow> (Inl NoRows, d) | Some m \<Rightarrow> (Inr m, d))"

definition InsertMoodHistory :: "uuid \<Rightarrow> uuid \<Rightarrow> string \<Rightarrow> string option \<Rightarrow> unit stmt" where
  "InsertMoodHistory rid userID moodKey note now d =
     (let row = \<lparr>h_id = rid, h_user_id = userID, h_mood_key = moodKey, h_note = note, h_at = now\<rparr>
      in if moodKey \<notin> set mood_vocabulary then (Inl check_violation, d)
         else if rid \<in> set (map h_id (mood_history d)) then (Inl unique_violation, d)
         else if userID \<notin> user_ids d then (Inl fk_violation, d)
         else (Inr (), d\<lparr>mood_history := mood_history d @ [row]\<rparr>))"

definition UpsertMood :: "uuid \<Rightarrow> string \<Rightarrow> string option \<Rightarrow> mood_row stmt" where
  "UpsertMood userID moodKey note now d =
     (let row = \<lparr>m_user_id = userID, m_mood_key = moodKey, m_note = note, m_updated_at = now\<rparr>
      in if moodKey \<notin> set mood_vocabulary then (Inl check_violation, d)
         else if userID \<in> set (map m_user_id (moods d)) then
           (Inr row, d\<lparr>moods := map (\<lambda>m. if m_user_id m = userID then row else m) (moods d)\<rparr>)
         else if userID \<notin> user_ids d then (Inl fk_violation, d)
         else (Inr row, d\<lparr>moods := moods d @ [row]\<rparr>))"

section \<open>\<open>guestbook.sql.go\<close>\<close>

definition CreateGuestbookEntry :: "uuid \<Rightarrow> uuid \<Rightarrow> uuid \<Rightarrow> string \<Rightarrow> guestbook_row stmt" where
  "CreateGuestbookEntry rid pageUserID authorUserID body now d =
     (let row = \<lparr>g_id = rid, g_page_user_id = pageUserID, g_author_user_id = authorUserID,
          g_body = body, g_state = ''visible'', g_created_at = now\<rparr>
      in if \<not> guestbook_check row then (Inl check_violation, d)
         else if rid \<in> set (map g_id (guestbook_entries d)) then (Inl unique_violation, d)
         else if pageUserID \<notin> user_ids d \<or> authorUserID \<notin> user_ids d then (Inl fk_violation, d)
         else (Inr row, d\<lparr>guestbook_entries := guestbook_entries d @ [row]\<rparr>))"

text \<open>
  The joined row carries the author's handle.  \<open>ORDER BY created_at DESC\<close> leaves the order of
  equal times open; the model keeps them in table order.
\<close>

definition author_handle :: "db \<Rightarrow> guestbook_row \<Rightarrow> string option option" where
  "author_handle d g = map_option u_handle (find (\<lambda>u. u_id u = g_author_user_id g) (users d))"

definition join_authors :: "db \<Rightarrow> guestbook_row list \<Rightarrow> (guestbook_row \<times> string option) list" where
  "join_authors d gs = column (\<lambda>g. map_option (Pair g) (author_handle d g)) gs"

definition newest_first :: "guestbook_row list \<Rightarrow> guestbook_row list" where
  "newest_first gs = sort_key (\<lambda>g. - g_created_at g) gs"

definition ListVisibleGuestbookEntries ::
  "uuid \<Rightarrow> int \<Rightarrow> (guestbook_row \<times> string option) list stmt" where
  "ListVisibleGuestbookEntries pageUserID lim now d =
     (Inr (take (nat lim) (join_authors d (newest_first
        (filter (\<lambda>g. g_page_user_id g = pageUserID \<and> g_state g = ''visible'')
          (guestbook_entries d))))), d)"

definition ListOwnGuestbookEntries ::
  "uuid \<Rightarrow> int \<Rightarrow> (guestbook_row \<times> string option) list stmt" where
  "ListOwnGuestbookEntries pageUserID lim now d =
     (Inr (take (nat lim) (join_authors d (newest_first
        (filter (\<lambda>g. g_page_user_id g = pageUserID) (guestbook_entries d))))), d)"

definition SetGuestbookEntryState :: "string \<Rightarrow> uuid \<Rightarrow> uuid \<Rightarrow> nat stmt" where
  "SetGuestbookEntryState st entryID pageUserID now d =
     (let hit = (\<lambda>g. g_id g = entryID \<and> g_page_user_id g = pageUserID);
          gs = map (\<lambda>g. if hit g then g\<lparr>g_state := st\<rparr> else g) (guestbook_entries d)
      in if \<not> list_all guestbook_check gs then (Inl check_violation, d)
         else (Inr (length (filter hit (guestbook_entries d))), d\<lparr>guestbook_entries := gs\<rparr>))"

section \<open>\<open>page_styles.sql.go\<close>\<close>

definition DeletePageStyle :: "uuid \<Rightarrow> unit stmt" where
  "DeletePageStyle userID now d =
     (Inr (), d\<lparr>page_styles := filter (\<lambda>p. ps_user_id p \<noteq> userID) (page_styles d)\<rparr>)"

definition GetPageStyle :: "uuid \<Rightarrow> page_style_row stmt" where
  "GetPageStyle userID now d =
     (case find (\<lambda>p. ps_user_id p = userID) (page_styles d) of
        None \<Rightarrow> (Inl NoRows, d) | Some p \<Rightarrow> (Inr p, d))"

definition UpsertPageStyle :: "page_style_row \<Rightarrow> unit stmt" where
  "UpsertPageStyle row now d =
     (if \<not> page_style_check row then (Inl check_violation, d)
      else if ps_user_id row \<in> set (map ps_user_id (page_styles d)) then
        (Inr (), d\<lparr>page_styles :=
           map (\<lambda>p. if ps_user_id p = ps_user_id row then row else p) (page_styles d)\<rparr>)
      else if ps_user_id row \<notin> user_ids d then (Inl fk_violation, d)
      else (Inr (), d\<lparr>page_styles := page_styles d @ [row]\<rparr>))"

section \<open>\<open>deleted_handles.sql.go\<close>\<close>

definition PurgeDeletedHandles :: "duration \<Rightarrow> nat stmt" where
  "PurgeDeletedHandles olderThan now d =
     (let old = (\<lambda>r. d_deleted_at r < now - olderThan) in
      (Inr (length (filter old (deleted_handles d))),
       d\<lparr>deleted_handles := filter (\<lambda>r. \<not> old r) (deleted_handles d)\<rparr>))"

definition ReserveDeletedHandle :: "(string \<Rightarrow> string) \<Rightarrow> string \<Rightarrow> instant \<Rightarrow> unit stmt" where
  "ReserveDeletedHandle L handle deletedAt now d =
     (let row = \<lparr>d_handle = L handle, d_deleted_at = deletedAt\<rparr>
      in if L (L handle) \<noteq> L handle then (Inl check_violation, d)
         else if L handle \<in> set (map d_handle (deleted_handles d)) then
           (Inr (), d\<lparr>deleted_handles :=
              map (\<lambda>r. if d_handle r = L handle then row else r) (deleted_handles d)\<rparr>)
         else (Inr (), d\<lparr>deleted_handles := deleted_handles d @ [row]\<rparr>))"

section \<open>\<open>users.sql.go\<close>\<close>

text \<open>An UPDATE of \<open>users\<close>: the rows it leaves, or the constraint they violate.\<close>

definition update_users ::
  "(string \<Rightarrow> string) \<Rightarrow> (user_row \<Rightarrow> bool) \<Rightarrow> (user_row \<Rightarrow> user_row) \<Rightarrow> db \<Rightarrow> pg_error + db" where
  "update_users L P f d =
     (let us = map (\<lambda>u. if P u then f u else u) (users d)
      in if \<not> list_all user_check us then Inl check_violation
         else if \<not> user_keys L us then Inl unique_violation
         else Inr (d\<lparr>users := us\<rparr>))"

definition reserved :: "(string \<Rightarrow> string) \<Rightarrow> string \<Rightarrow> instant \<Rightarrow> db \<Rightarrow> bool" where
  "reserved L handle since d =
     list_ex (\<lambda>r. d_handle r = L handle \<and> d_deleted_at r > since) (deleted_handles d)"

definition ClaimHandle ::
  "(string \<Rightarrow> string) \<Rightarrow> string \<Rightarrow> instant \<Rightarrow> uuid \<Rightarrow> duration \<Rightarrow> user_row stmt" where
  "ClaimHandle L handle acceptedAt uid reserveSeconds now d =
     (let P = (\<lambda>u. u_id u = uid \<and> u_handle u = None \<and> \<not> reserved L handle (acceptedAt - reserveSeconds) d);
          f = (\<lambda>u. u\<lparr>u_handle := Some handle, u_state := ''active'', u_terms_accepted_at := Some acceptedAt\<rparr>)
      in case find P (users d) of
           None \<Rightarrow> (Inl NoRows, d)
         | Some u \<Rightarrow> (case update_users L P f d of Inl e \<Rightarrow> (Inl e, d) | Inr d' \<Rightarrow> (Inr (f u), d')))"

definition DeleteUser :: "uuid \<Rightarrow> nat stmt" where
  "DeleteUser uid now d =
     (Inr (length (filter (\<lambda>u. u_id u = uid) (users d))),
      d\<lparr>users := filter (\<lambda>u. u_id u \<noteq> uid) (users d),
        sessions := filter (\<lambda>s. s_user_id s \<noteq> uid) (sessions d),
        moods := filter (\<lambda>m. m_user_id m \<noteq> uid) (moods d),
        mood_history := filter (\<lambda>h. h_user_id h \<noteq> uid) (mood_history d),
        guestbook_entries := filter (\<lambda>g. g_page_user_id g \<noteq> uid \<and> g_author_user_id g \<noteq> uid)
          (guestbook_entries d),
        page_styles := filter (\<lambda>p. ps_user_id p \<noteq> uid) (page_styles d)\<rparr>)"

definition GetUserByHandle :: "(string \<Rightarrow> string) \<Rightarrow> string \<Rightarrow> user_row stmt" where
  "GetUserByHandle L handle now d =
     (case find (\<lambda>u. map_option L (u_handle u) = Some (L handle)) (users d) of
        None \<Rightarrow> (Inl NoRows, d) | Some u \<Rightarrow> (Inr u, d))"

definition GetUserByID :: "uuid \<Rightarrow> user_row stmt" where
  "GetUserByID uid now d =
     (case find (\<lambda>u. u_id u = uid) (users d) of None \<Rightarrow> (Inl NoRows, d) | Some u \<Rightarrow> (Inr u, d))"

definition GetUserByPhotoKey :: "string \<Rightarrow> user_row stmt" where
  "GetUserByPhotoKey key now d =
     (case find (\<lambda>u. u_photo_key u = Some key) (users d) of
        None \<Rightarrow> (Inl NoRows, d) | Some u \<Rightarrow> (Inr u, d))"

text \<open>\<open>SELECT ... FOR UPDATE\<close>: the row lock lasts to the end of the transaction.\<close>

definition LockUserForDelete :: "uuid \<Rightarrow> user_row stmt" where
  "LockUserForDelete uid now d =
     (case find (\<lambda>u. u_id u = uid) (users d) of None \<Rightarrow> (Inl NoRows, d) | Some u \<Rightarrow> (Inr u, d))"

definition RandomActiveHandle :: "nat \<Rightarrow> uuid option \<Rightarrow> string option stmt" where
  "RandomActiveHandle pick excludeID now d =
     (let eligible = filter (\<lambda>u. u_state u = ''active'' \<and> u_handle u \<noteq> None \<and>
            (excludeID = None \<or> Some (u_id u) \<noteq> excludeID)) (users d)
      in if eligible = [] then (Inl NoRows, d)
         else (Inr (u_handle (eligible ! (pick mod length eligible))), d))"

definition key_or_empty :: "string option \<Rightarrow> string" where
  "key_or_empty k = (case k of None \<Rightarrow> [] | Some s \<Rightarrow> s)"

definition RemovePhoto :: "(string \<Rightarrow> string) \<Rightarrow> uuid \<Rightarrow> string stmt" where
  "RemovePhoto L uid now d =
     (let P = (\<lambda>u. u_id u = uid);
          f = (\<lambda>u. u\<lparr>u_photo_key := None, u_photo_width := None, u_photo_height := None\<rparr>)
      in case find P (users d) of
           None \<Rightarrow> (Inl NoRows, d)
         | Some u \<Rightarrow> (case update_users L P f d of
              Inl e \<Rightarrow> (Inl e, d) | Inr d' \<Rightarrow> (Inr (key_or_empty (u_photo_key u)), d')))"

definition SetDisplayName :: "(string \<Rightarrow> string) \<Rightarrow> uuid \<Rightarrow> string option \<Rightarrow> user_row stmt" where
  "SetDisplayName L uid displayName now d =
     (let P = (\<lambda>u. u_id u = uid); f = (\<lambda>u. u\<lparr>u_display_name := displayName\<rparr>)
      in case find P (users d) of
           None \<Rightarrow> (Inl NoRows, d)
         | Some u \<Rightarrow> (case update_users L P f d of Inl e \<Rightarrow> (Inl e, d) | Inr d' \<Rightarrow> (Inr (f u), d')))"

definition SetPhoto ::
  "(string \<Rightarrow> string) \<Rightarrow> uuid \<Rightarrow> string \<Rightarrow> int \<Rightarrow> int \<Rightarrow> instant \<Rightarrow> instant \<Rightarrow> string stmt" where
  "SetPhoto L uid key w h dayStart uploadedAt now d =
     (let P = (\<lambda>u. u_id u = uid \<and> u_can_upload_photos u \<and>
            null_or (\<lambda>t. t < dayStart) (u_photo_uploaded_at u));
          f = (\<lambda>u. u\<lparr>u_photo_key := Some key, u_photo_width := Some w, u_photo_height := Some h,
                u_photo_uploaded_at := Some uploadedAt\<rparr>)
      in case find P (users d) of
           None \<Rightarrow> (Inl NoRows, d)
         | Some u \<Rightarrow> (case update_users L P f d of
              Inl e \<Rightarrow> (Inl e, d) | Inr d' \<Rightarrow> (Inr (key_or_empty (u_photo_key u)), d')))"

definition new_user :: "uuid \<Rightarrow> string \<Rightarrow> instant \<Rightarrow> user_row" where
  "new_user rid email now =
     \<lparr>u_id = rid, u_email = email, u_handle = None, u_state = ''pending_handle'', u_tier = ''free'',
      u_locale = ''es-AR'', u_created_at = now, u_display_name = None, u_photo_key = None,
      u_photo_width = None, u_photo_height = None, u_photo_uploaded_at = None,
      u_can_upload_photos = False, u_terms_accepted_at = None\<rparr>"

definition UpsertUserByEmail :: "(string \<Rightarrow> string) \<Rightarrow> uuid \<Rightarrow> string \<Rightarrow> user_row stmt" where
  "UpsertUserByEmail L rid email now d =
     (case find (\<lambda>u. L (u_email u) = L email) (users d) of
        Some u \<Rightarrow> (Inr u, d)
      | None \<Rightarrow> if rid \<in> user_ids d then (Inl unique_violation, d)
          else (Inr (new_user rid email now), d\<lparr>users := users d @ [new_user rid email now]\<rparr>))"

section \<open>\<open>stats.sql.go\<close>\<close>

record stats_row =
  st_Accounts :: nat
  st_Pages :: nat
  st_SignedIn7d :: nat
  st_MoodChanges7d :: nat
  st_ChangedMood7d :: nat
  st_WeekTwoEligible :: nat
  st_WeekTwoPassed :: nat
  st_GuestbookTotal :: nat
  st_Guestbook7d :: nat
  st_ReciprocalPairs :: nat
  st_PhotosNow :: nat
  st_PhotoUploads7d :: nat
  st_Allowlisted :: nat

definition count_where :: "('a \<Rightarrow> bool) \<Rightarrow> 'a list \<Rightarrow> nat" where
  "count_where P xs = length (filter P xs)"

definition count_distinct :: "'a list \<Rightarrow> nat" where
  "count_distinct xs = length (remdups xs)"

definition last_week :: "instant \<Rightarrow> instant \<Rightarrow> bool" where
  "last_week at t = (at - 7 * day \<le> t \<and> t \<le> at)"

definition week_two_changes :: "db \<Rightarrow> user_row \<Rightarrow> nat" where
  "week_two_changes d u = count_where (\<lambda>h. h_user_id h = u_id u \<and>
     h_at h \<ge> u_created_at u + 7 * day \<and> h_at h < u_created_at u + 14 * day) (mood_history d)"

definition week_two_eligible :: "instant \<Rightarrow> user_row \<Rightarrow> bool" where
  "week_two_eligible at u = (u_handle u \<noteq> None \<and> u_created_at u \<le> at - 14 * day)"

definition reciprocal_pairs :: "guestbook_row list \<Rightarrow> (uuid \<times> uuid) list" where
  "reciprocal_pairs gs = [(g_page_user_id e1, g_author_user_id e1). e1 \<leftarrow> gs, e2 \<leftarrow> gs,
     g_page_user_id e2 = g_author_user_id e1 \<and> g_author_user_id e2 = g_page_user_id e1 \<and>
     g_page_user_id e1 < g_author_user_id e1]"

definition CollectStats :: "instant \<Rightarrow> stats_row stmt" where
  "CollectStats at now d =
     (Inr \<lparr>st_Accounts = length (users d),
        st_Pages = count_where (\<lambda>u. u_handle u \<noteq> None) (users d),
        st_SignedIn7d = count_distinct (map s_user_id
          (filter (\<lambda>s. last_week at (s_created_at s)) (sessions d))),
        st_MoodChanges7d = count_where (\<lambda>h. last_week at (h_at h)) (mood_history d),
        st_ChangedMood7d = count_distinct (map h_user_id
          (filter (\<lambda>h. last_week at (h_at h)) (mood_history d))),
        st_WeekTwoEligible = count_where (week_two_eligible at) (users d),
        st_WeekTwoPassed = count_where (\<lambda>u. week_two_eligible at u \<and> week_two_changes d u \<ge> 2) (users d),
        st_GuestbookTotal = length (guestbook_entries d),
        st_Guestbook7d = count_where (\<lambda>g. last_week at (g_created_at g)) (guestbook_entries d),
        st_ReciprocalPairs = count_distinct (reciprocal_pairs (guestbook_entries d)),
        st_PhotosNow = count_where (\<lambda>u. u_photo_key u \<noteq> None) (users d),
        st_PhotoUploads7d = count_where (\<lambda>u. case u_photo_uploaded_at u of None \<Rightarrow> False
          | Some t \<Rightarrow> last_week at t) (users d),
        st_Allowlisted = count_where u_can_upload_photos (users d)\<rparr>, d)"

end
