(* ===== verification/QueryFacts.thy ===== *)
theory QueryFacts
  imports Queries
begin

text \<open>
  What every statement of the store promises: a statement that fails changes nothing, and a
  statement that succeeds leaves tables the schema accepts.
\<close>

section \<open>The two promises\<close>

definition all_or_nothing :: "'r stmt \<Rightarrow> bool" where
  "all_or_nothing q = (\<forall>now d e. fst (q now d) = Inl e \<longrightarrow> snd (q now d) = d)"

definition stmt_keeps :: "(db \<Rightarrow> bool) \<Rightarrow> 'r stmt \<Rightarrow> bool" where
  "stmt_keeps I q = (\<forall>now d. I d \<longrightarrow> I (snd (q now d)))"

named_theorems stmt_intros \<open>statements that keep the schema\<close>
named_theorems stmt_atomic \<open>statements that change nothing when they fail\<close>

lemma stmt_keepsI: "(\<And>now d. I d \<Longrightarrow> I (snd (q now d))) \<Longrightarrow> stmt_keeps I q"
  by (simp add: stmt_keeps_def)

lemma stmt_keepsD: "stmt_keeps I q \<Longrightarrow> I d \<Longrightarrow> I (snd (q now d))"
  by (simp add: stmt_keeps_def)

lemma all_or_nothingI: "(\<And>now d e. fst (q now d) = Inl e \<Longrightarrow> snd (q now d) = d) \<Longrightarrow> all_or_nothing q"
  by (simp add: all_or_nothing_def)

text \<open>A statement that only reads.\<close>

definition reads :: "'r stmt \<Rightarrow> bool" where
  "reads q = (\<forall>now d. snd (q now d) = d)"

lemma reads_keeps: "reads q \<Longrightarrow> stmt_keeps I q"
  by (simp add: reads_def stmt_keeps_def)

lemma reads_atomic: "reads q \<Longrightarrow> all_or_nothing q"
  by (simp add: reads_def all_or_nothing_def)

section \<open>Reads\<close>

named_theorems read_stmts \<open>the statements that only read\<close>

lemma reads_CountRecentLoginTokens [read_stmts]: "reads (CountRecentLoginTokens e w)"
  by (simp add: reads_def CountRecentLoginTokens_def)
lemma reads_LockLoginAddress [read_stmts]: "reads (LockLoginAddress e)"
  by (simp add: reads_def LockLoginAddress_def)
lemma reads_LookupSession [read_stmts]: "reads (LookupSession h)"
  by (simp add: reads_def LookupSession_def split: option.splits)
lemma reads_GetMoodByUserID [read_stmts]: "reads (GetMoodByUserID u)"
  by (simp add: reads_def GetMoodByUserID_def split: option.splits)
lemma reads_ListVisible [read_stmts]: "reads (ListVisibleGuestbookEntries u n)"
  by (simp add: reads_def ListVisibleGuestbookEntries_def)
lemma reads_ListOwn [read_stmts]: "reads (ListOwnGuestbookEntries u n)"
  by (simp add: reads_def ListOwnGuestbookEntries_def)
lemma reads_GetPageStyle [read_stmts]: "reads (GetPageStyle u)"
  by (simp add: reads_def GetPageStyle_def split: option.splits)
lemma reads_GetUserByHandle [read_stmts]: "reads (GetUserByHandle L h)"
  by (simp add: reads_def GetUserByHandle_def split: option.splits)
lemma reads_GetUserByID [read_stmts]: "reads (GetUserByID u)"
  by (simp add: reads_def GetUserByID_def split: option.splits)
lemma reads_GetUserByPhotoKey [read_stmts]: "reads (GetUserByPhotoKey k)"
  by (simp add: reads_def GetUserByPhotoKey_def split: option.splits)
lemma reads_LockUserForDelete [read_stmts]: "reads (LockUserForDelete u)"
  by (simp add: reads_def LockUserForDelete_def split: option.splits)
lemma reads_RandomActiveHandle [read_stmts]: "reads (RandomActiveHandle p x)"
  by (simp add: reads_def RandomActiveHandle_def Let_def)
lemma reads_CollectStats [read_stmts]: "reads (CollectStats at)"
  by (simp add: reads_def CollectStats_def)

lemmas read_keeps = read_stmts [THEN reads_keeps]
lemmas read_atomic = read_stmts [THEN reads_atomic]
declare read_keeps [stmt_intros] read_atomic [stmt_atomic]

section \<open>Writes are all or nothing\<close>

lemma ConsumeLoginToken_atomic [stmt_atomic]: "all_or_nothing (ConsumeLoginToken h)"
  by (rule all_or_nothingI) (auto simp: ConsumeLoginToken_def Let_def split: option.splits sum.splits if_splits)
lemma CreateLoginToken_atomic [stmt_atomic]: "all_or_nothing (CreateLoginToken r h e t)"
  by (rule all_or_nothingI) (auto simp: CreateLoginToken_def Let_def split: option.splits sum.splits if_splits)
lemma CreateSession_atomic [stmt_atomic]: "all_or_nothing (CreateSession r h u t)"
  by (rule all_or_nothingI) (auto simp: CreateSession_def Let_def split: option.splits sum.splits if_splits)
lemma RevokeSession_atomic [stmt_atomic]: "all_or_nothing (RevokeSession h)"
  by (rule all_or_nothingI) (auto simp: RevokeSession_def Let_def split: option.splits sum.splits if_splits)
lemma InsertMoodHistory_atomic [stmt_atomic]: "all_or_nothing (InsertMoodHistory r u k n)"
  by (rule all_or_nothingI) (auto simp: InsertMoodHistory_def Let_def split: option.splits sum.splits if_splits)
lemma UpsertMood_atomic [stmt_atomic]: "all_or_nothing (UpsertMood u k n)"
  by (rule all_or_nothingI) (auto simp: UpsertMood_def Let_def split: option.splits sum.splits if_splits)
lemma CreateGuestbookEntry_atomic [stmt_atomic]: "all_or_nothing (CreateGuestbookEntry r p a b)"
  by (rule all_or_nothingI) (auto simp: CreateGuestbookEntry_def Let_def split: option.splits sum.splits if_splits)
lemma SetGuestbookEntryState_atomic [stmt_atomic]: "all_or_nothing (SetGuestbookEntryState s e p)"
  by (rule all_or_nothingI) (auto simp: SetGuestbookEntryState_def Let_def split: option.splits sum.splits if_splits)
lemma UpsertPageStyle_atomic [stmt_atomic]: "all_or_nothing (UpsertPageStyle p)"
  by (rule all_or_nothingI) (auto simp: UpsertPageStyle_def Let_def split: option.splits sum.splits if_splits)
lemma ReserveDeletedHandle_atomic [stmt_atomic]: "all_or_nothing (ReserveDeletedHandle L h t)"
  by (rule all_or_nothingI) (auto simp: ReserveDeletedHandle_def Let_def split: option.splits sum.splits if_splits)
lemma ClaimHandle_atomic [stmt_atomic]: "all_or_nothing (ClaimHandle L h a u r)"
  by (rule all_or_nothingI) (auto simp: ClaimHandle_def Let_def split: option.splits sum.splits if_splits)
lemma RemovePhoto_atomic [stmt_atomic]: "all_or_nothing (RemovePhoto L u)"
  by (rule all_or_nothingI) (auto simp: RemovePhoto_def Let_def split: option.splits sum.splits if_splits)
lemma SetDisplayName_atomic [stmt_atomic]: "all_or_nothing (SetDisplayName L u n)"
  by (rule all_or_nothingI) (auto simp: SetDisplayName_def Let_def split: option.splits sum.splits if_splits)
lemma SetPhoto_atomic [stmt_atomic]: "all_or_nothing (SetPhoto L u k w h s t)"
  by (rule all_or_nothingI) (auto simp: SetPhoto_def Let_def split: option.splits sum.splits if_splits)
lemma UpsertUserByEmail_atomic [stmt_atomic]: "all_or_nothing (UpsertUserByEmail L r e)"
  by (rule all_or_nothingI) (auto simp: UpsertUserByEmail_def split: option.splits sum.splits if_splits)

section \<open>Writes keep the schema\<close>

text \<open>One lemma per table says which change keeps its rows.\<close>

lemma tokens_ok_map [row_simps]:
  "tokens_ok ts \<Longrightarrow> (\<And>t. lt_id (f t) = lt_id t \<and> lt_token_hash (f t) = lt_token_hash t) \<Longrightarrow>
   tokens_ok (map f ts)"
  by (simp add: tokens_ok_def comp_def)

lemma tokens_ok_filter [row_simps]: "tokens_ok ts \<Longrightarrow> tokens_ok (filter P ts)"
  by (simp add: tokens_ok_def distinct_map_filter_sub)

lemma sessions_ok_filter [row_simps]: "sessions_ok ts \<Longrightarrow> sessions_ok (filter P ts)"
  by (auto simp: sessions_ok_def distinct_map_filter_sub list_all_iff)

lemma moods_ok_filter [row_simps]: "moods_ok ts \<Longrightarrow> moods_ok (filter P ts)"
  by (auto simp: moods_ok_def distinct_map_filter_sub list_all_iff)

lemma history_ok_filter [row_simps]: "history_ok ts \<Longrightarrow> history_ok (filter P ts)"
  by (auto simp: history_ok_def distinct_map_filter_sub list_all_iff)

lemma guestbook_ok_filter [row_simps]: "guestbook_ok ts \<Longrightarrow> guestbook_ok (filter P ts)"
  by (auto simp: guestbook_ok_def distinct_map_filter_sub list_all_iff)

lemma styles_ok_filter [row_simps]: "styles_ok ts \<Longrightarrow> styles_ok (filter P ts)"
  by (auto simp: styles_ok_def distinct_map_filter_sub list_all_iff)

lemma reservations_ok_filter [row_simps]: "reservations_ok L ts \<Longrightarrow> reservations_ok L (filter P ts)"
  by (auto simp: reservations_ok_def distinct_map_filter_sub list_all_iff)

lemma users_ok_filter [row_simps]: "users_ok L us \<Longrightarrow> users_ok L (filter P us)"
  by (auto simp: users_ok_def user_keys_def distinct_map_filter_sub distinct_column_filter
      list_all_iff)

text \<open>Replacing the row with a given key keeps the keys.\<close>

lemma image_of_map: "map k (map f xs) = map k xs \<Longrightarrow> k ` set (map f xs) = k ` set xs"
  by (metis list.set_map)

lemma map_replace_keys:
  "k row = v \<Longrightarrow> map k (map (\<lambda>m. if k m = v then row else m) ms) = map k ms"
  by (induction ms) auto

lemma update_usersD:
  assumes "update_users L P f d = Inr d'" and "\<And>u. u_id (f u) = u_id u"
  shows "d' = d\<lparr>users := map (\<lambda>u. if P u then f u else u) (users d)\<rparr>" and
    "users_ok L (users d')" and "user_ids d' = user_ids d"
proof -
  show *: "d' = d\<lparr>users := map (\<lambda>u. if P u then f u else u) (users d)\<rparr>" and "users_ok L (users d')"
    using assms(1) by (auto simp: update_users_def Let_def users_ok_def split: if_splits)
  have "map u_id (map (\<lambda>u. if P u then f u else u) us) = map u_id us" for us
    using assms(2) by simp
  then show "user_ids d' = user_ids d"
    using image_of_map [of u_id "\<lambda>u. if P u then f u else u" "users d"] by (simp add: * user_ids_def)
qed

lemma update_users_ok:
  assumes "update_users L P f d = Inr d'" and "\<And>u. u_id (f u) = u_id u" and "db_ok L d"
  shows "db_ok L d'"
proof -
  have *: "d' = d\<lparr>users := map (\<lambda>u. if P u then f u else u) (users d)\<rparr>" "users_ok L (users d')"
    "user_ids d' = user_ids d"
    using update_usersD [OF assms(1,2)] by auto
  have "references_ok d'"
    using assms(3) *(1,3) by (simp add: db_ok_def references_ok_def)
  then show ?thesis
    using * assms(3) by (simp add: db_ok_def)
qed

lemma references_tokens [simp]: "references_ok (d\<lparr>login_tokens := x\<rparr>) = references_ok d"
  by (simp add: references_ok_def user_ids_def)

lemma references_reserved [simp]: "references_ok (d\<lparr>deleted_handles := x\<rparr>) = references_ok d"
  by (simp add: references_ok_def user_ids_def)

lemma ConsumeLoginToken_ok [stmt_intros]: "stmt_keeps (db_ok L) (ConsumeLoginToken h)"
  by (rule stmt_keepsI)
    (auto simp: ConsumeLoginToken_def Let_def db_ok_def split: option.splits intro!: tokens_ok_map)

lemma CreateLoginToken_ok [stmt_intros]: "stmt_keeps (db_ok L) (CreateLoginToken r h e t)"
  by (rule stmt_keepsI) (auto simp: CreateLoginToken_def Let_def db_ok_def tokens_ok_def)

lemma DeleteLoginTokensForEmail_ok [stmt_intros]: "stmt_keeps (db_ok L) (DeleteLoginTokensForEmail M e)"
  by (rule stmt_keepsI) (auto simp: DeleteLoginTokensForEmail_def db_ok_def row_simps)

lemma InvalidateLoginTokensForEmail_ok [stmt_intros]:
  "stmt_keeps (db_ok L) (InvalidateLoginTokensForEmail e)"
  by (rule stmt_keepsI) (auto simp: InvalidateLoginTokensForEmail_def db_ok_def intro!: tokens_ok_map)

lemma PurgeLoginTokens_ok [stmt_intros]: "stmt_keeps (db_ok L) (PurgeLoginTokens n)"
  by (rule stmt_keepsI) (auto simp: PurgeLoginTokens_def Let_def db_ok_def row_simps)

lemma CreateSession_ok [stmt_intros]: "stmt_keeps (db_ok L) (CreateSession r h u t)"
  by (rule stmt_keepsI)
    (auto simp: CreateSession_def Let_def db_ok_def sessions_ok_def session_check_def
      references_ok_def user_ids_def)

lemma PurgeSessions_ok [stmt_intros]: "stmt_keeps (db_ok L) (PurgeSessions n)"
  by (rule stmt_keepsI)
    (auto simp: PurgeSessions_def Let_def db_ok_def row_simps references_ok_def user_ids_def)

lemma RevokeSession_ok [stmt_intros]: "stmt_keeps (db_ok L) (RevokeSession h)"
proof (rule stmt_keepsI)
  fix now d assume d: "db_ok L d"
  define f :: "session_row \<Rightarrow> session_row" where "f = (\<lambda>s. if s_session_hash s = h \<and> s_revoked_at s = None
    then s\<lparr>s_revoked_at := Some now\<rparr> else s)"
  have keys: "map s_id (map f xs) = map s_id xs" "map s_session_hash (map f xs) = map s_session_hash xs"
    "map s_user_id (map f xs) = map s_user_id xs" for xs
    by (simp_all add: f_def)
  show "db_ok L (snd (RevokeSession h now d))"
    unfolding RevokeSession_def Let_def f_def [symmetric]
    using d keys image_of_map [OF keys(3), of "sessions d"]
    by (simp add: db_ok_def sessions_ok_def references_ok_def user_ids_def
        del: map_map list.set_map set_map)
qed

lemma InsertMoodHistory_ok [stmt_intros]: "stmt_keeps (db_ok L) (InsertMoodHistory r u k n)"
  by (rule stmt_keepsI)
    (auto simp: InsertMoodHistory_def Let_def db_ok_def history_ok_def references_ok_def user_ids_def)

lemma UpsertMood_ok [stmt_intros]: "stmt_keeps (db_ok L) (UpsertMood u k n)"
proof (rule stmt_keepsI)
  fix now d assume d: "db_ok L d"
  define r where "r = \<lparr>m_user_id = u, m_mood_key = k, m_note = n, m_updated_at = now\<rparr>"
  define f where "f = (\<lambda>m. if m_user_id m = u then r else m)"
  have keys: "map m_user_id (map f ms) = map m_user_id ms" for ms
    unfolding f_def by (rule map_replace_keys) (simp add: r_def)
  have "list_all (\<lambda>m. m_mood_key m \<in> set mood_vocabulary) (moods d)"
    using d by (simp add: db_ok_def moods_ok_def)
  then have all: "k \<in> set mood_vocabulary \<Longrightarrow>
      list_all (\<lambda>m. m_mood_key m \<in> set mood_vocabulary) (map f (moods d))"
    by (rule list_all_map_upd) (auto simp: f_def r_def)
  have "m_user_id r = u" "m_mood_key r = k"
    by (simp_all add: r_def)
  then show "db_ok L (snd (UpsertMood u k n now d))"
    unfolding UpsertMood_def Let_def r_def [symmetric] f_def [symmetric]
    using d keys [of "moods d"] image_of_map [OF keys, of "moods d"] all
    by (auto simp: db_ok_def moods_ok_def references_ok_def user_ids_def
        simp del: map_map list.set_map set_map)
qed

lemma CreateGuestbookEntry_ok [stmt_intros]: "stmt_keeps (db_ok L) (CreateGuestbookEntry r p a b)"
  by (rule stmt_keepsI)
    (auto simp: CreateGuestbookEntry_def Let_def db_ok_def guestbook_ok_def references_ok_def
      user_ids_def)

lemma SetGuestbookEntryState_ok [stmt_intros]: "stmt_keeps (db_ok L) (SetGuestbookEntryState s e p)"
proof (rule stmt_keepsI)
  fix now d assume d: "db_ok L d"
  define f :: "guestbook_row \<Rightarrow> guestbook_row" where
    "f = (\<lambda>g. if g_id g = e \<and> g_page_user_id g = p then g\<lparr>g_state := s\<rparr> else g)"
  have keys: "map g_id (map f xs) = map g_id xs"
    "map g_page_user_id (map f xs) = map g_page_user_id xs"
    "map g_author_user_id (map f xs) = map g_author_user_id xs" for xs
    by (simp_all add: f_def)
  show "db_ok L (snd (SetGuestbookEntryState s e p now d))"
    unfolding SetGuestbookEntryState_def Let_def f_def [symmetric]
    using d keys image_of_map [OF keys(2), of "guestbook_entries d"]
      image_of_map [OF keys(3), of "guestbook_entries d"]
    by (simp add: db_ok_def guestbook_ok_def references_ok_def user_ids_def
        del: map_map list.set_map set_map)
qed

lemma DeletePageStyle_ok [stmt_intros]: "stmt_keeps (db_ok L) (DeletePageStyle u)"
  by (rule stmt_keepsI)
    (auto simp: DeletePageStyle_def db_ok_def row_simps references_ok_def user_ids_def)

lemma UpsertPageStyle_ok [stmt_intros]: "stmt_keeps (db_ok L) (UpsertPageStyle row)"
proof (rule stmt_keepsI)
  fix now d assume d: "db_ok L d"
  define f where "f = (\<lambda>p. if ps_user_id p = ps_user_id row then row else p)"
  have keys: "map ps_user_id (map f xs) = map ps_user_id xs" for xs
    unfolding f_def by (rule map_replace_keys) simp
  have "list_all page_style_check (page_styles d)"
    using d by (simp add: db_ok_def styles_ok_def)
  then have all: "page_style_check row \<Longrightarrow> list_all page_style_check (map f (page_styles d))"
    by (rule list_all_map_upd) (auto simp: f_def)
  show "db_ok L (snd (UpsertPageStyle row now d))"
    unfolding UpsertPageStyle_def f_def [symmetric]
    using d keys [of "page_styles d"] image_of_map [OF keys, of "page_styles d"] all
    by (auto simp: db_ok_def styles_ok_def references_ok_def user_ids_def
        simp del: map_map list.set_map set_map)
qed

lemma PurgeDeletedHandles_ok [stmt_intros]: "stmt_keeps (db_ok L) (PurgeDeletedHandles n)"
  by (rule stmt_keepsI) (auto simp: PurgeDeletedHandles_def Let_def db_ok_def row_simps)

lemma ReserveDeletedHandle_ok [stmt_intros]: "stmt_keeps (db_ok L) (ReserveDeletedHandle L h t)"
proof (rule stmt_keepsI)
  fix now d assume d: "db_ok L d"
  define r where "r = \<lparr>d_handle = L h, d_deleted_at = t\<rparr>"
  define f where "f = (\<lambda>x. if d_handle x = L h then r else x)"
  have keys: "map d_handle (map f xs) = map d_handle xs" for xs
    unfolding f_def by (rule map_replace_keys) (simp add: r_def)
  have "list_all (\<lambda>r. d_handle r = L (d_handle r)) (deleted_handles d)"
    using d by (simp add: db_ok_def reservations_ok_def)
  then have all: "L (L h) = L h \<Longrightarrow> list_all (\<lambda>r. d_handle r = L (d_handle r)) (map f (deleted_handles d))"
    by (rule list_all_map_upd) (auto simp: f_def r_def)
  have "d_handle r = L h"
    by (simp add: r_def)
  then show "db_ok L (snd (ReserveDeletedHandle L h t now d))"
    unfolding ReserveDeletedHandle_def Let_def r_def [symmetric] f_def [symmetric]
    using d keys [of "deleted_handles d"] all
    by (auto simp: db_ok_def reservations_ok_def simp del: map_map list.set_map set_map)
qed

lemma ClaimHandle_ok [stmt_intros]: "stmt_keeps (db_ok L) (ClaimHandle L h a u r)"
  by (rule stmt_keepsI)
    (auto simp: ClaimHandle_def Let_def split: option.splits sum.splits elim!: update_users_ok [rotated 2])

lemma RemovePhoto_ok [stmt_intros]: "stmt_keeps (db_ok L) (RemovePhoto L u)"
  by (rule stmt_keepsI)
    (auto simp: RemovePhoto_def Let_def split: option.splits sum.splits elim!: update_users_ok [rotated 2])

lemma SetDisplayName_ok [stmt_intros]: "stmt_keeps (db_ok L) (SetDisplayName L u n)"
  by (rule stmt_keepsI)
    (auto simp: SetDisplayName_def Let_def split: option.splits sum.splits elim!: update_users_ok [rotated 2])

lemma SetPhoto_ok [stmt_intros]: "stmt_keeps (db_ok L) (SetPhoto L u k w h s t)"
  by (rule stmt_keepsI)
    (auto simp: SetPhoto_def Let_def split: option.splits sum.splits elim!: update_users_ok [rotated 2])

lemma DeleteUser_ok [stmt_intros]: "stmt_keeps (db_ok L) (DeleteUser u)"
  by (rule stmt_keepsI)
    (auto simp: DeleteUser_def db_ok_def row_simps references_ok_def user_ids_def image_subset_iff)

lemma UpsertUserByEmail_ok [stmt_intros]: "stmt_keeps (db_ok L) (UpsertUserByEmail L r e)"
  by (rule stmt_keepsI)
    (auto simp: UpsertUserByEmail_def db_ok_def users_ok_def user_keys_def user_check_def
      references_ok_def user_ids_def find_None_all new_user_def split: option.splits)

end
