(* ===== verification/Conn.thy ===== *)
theory Conn
  imports QueryFacts
begin

text \<open>
  The connection to the database: running one statement, running a transaction, and what goes
  wrong.  \<open>c_faults\<close> is the list of what the connection does with the next calls: nothing, or
  fail with an error before the statement takes effect.  Every theorem about a program of this
  library holds for every such list, so it holds whichever of its calls fail.  \<open>c_now\<close> is the
  server's \<open>now()\<close>, fixed while an operation runs.
\<close>

section \<open>Statements and transactions\<close>

record conn =
  c_db :: db
  c_now :: instant
  c_faults :: "pg_error option list"

type_synonym ('z, 'r) prog = "('z conn_scheme, 'r) state"

definition next_fault :: "('z, pg_error option) prog" where
  "next_fault = State (\<lambda>w. case c_faults w of
     [] \<Rightarrow> (None, w) | f # fs \<Rightarrow> (f, w\<lparr>c_faults := fs\<rparr>))"

definition get_db :: "('z, db) prog" where
  "get_db = State (\<lambda>w. (c_db w, w))"

definition put_db :: "db \<Rightarrow> ('z, unit) prog" where
  "put_db d = State (\<lambda>w. ((), w\<lparr>c_db := d\<rparr>))"

definition run_stmt :: "'r stmt \<Rightarrow> ('z, pg_error + 'r) prog" where
  "run_stmt q = State (\<lambda>w. case q (c_now w) (c_db w) of (r, d) \<Rightarrow> (r, w\<lparr>c_db := d\<rparr>))"

definition exec :: "'r stmt \<Rightarrow> ('z, pg_error + 'r) prog" where
  "exec q = do {
     f \<leftarrow> next_fault;
     case f of Some e \<Rightarrow> State_Monad.return (Inl e) | None \<Rightarrow> run_stmt q
   }"

text \<open>\<open>x, err := m; if err != nil { return h(err) }\<close>, then the rest.\<close>

definition attempt ::
  "('s, 'e + 'a) state \<Rightarrow> ('e \<Rightarrow> 'f) \<Rightarrow> ('a \<Rightarrow> ('s, 'f + 'b) state) \<Rightarrow> ('s, 'f + 'b) state" where
  "attempt m h k = do {
     r \<leftarrow> m;
     case r of Inl e \<Rightarrow> State_Monad.return (Inl (h e)) | Inr x \<Rightarrow> k x
   }"

text \<open>
  \<open>Begin\<close>, the body, \<open>Commit\<close>, with the deferred \<open>Rollback\<close> that undoes everything on any
  path that does not commit.  A commit that fails has not committed.
\<close>

definition in_tx ::
  "(pg_error \<Rightarrow> 'e) \<Rightarrow> (pg_error \<Rightarrow> 'e) \<Rightarrow> ('z, 'e + 'a) prog \<Rightarrow> ('z, 'e + 'a) prog" where
  "in_tx begin_err commit_err body = do {
     b \<leftarrow> next_fault;
     case b of
       Some e \<Rightarrow> State_Monad.return (Inl (begin_err e))
     | None \<Rightarrow> do {
         saved \<leftarrow> get_db;
         r \<leftarrow> body;
         case r of
           Inl e \<Rightarrow> do { _ \<leftarrow> put_db saved; State_Monad.return (Inl e) }
         | Inr x \<Rightarrow> do {
             c \<leftarrow> next_fault;
             case c of
               Some e \<Rightarrow> do { _ \<leftarrow> put_db saved; State_Monad.return (Inl (commit_err e)) }
             | None \<Rightarrow> State_Monad.return (Inr x)
           }
       }
   }"

section \<open>What a run returns\<close>

lemma conn_update_order [simp]: "w\<lparr>c_faults := fs, c_db := d\<rparr> = w\<lparr>c_db := d, c_faults := fs\<rparr>"
  by (cases w) simp

lemma conn_same [simp]: "w\<lparr>c_db := c_db w, c_faults := c_faults w\<rparr> = w" "w\<lparr>c_db := c_db w\<rparr> = w"
  "w\<lparr>c_faults := c_faults w\<rparr> = w"
  by (cases w; simp)+

lemma run_next_fault [run_simps]:
  "run_state next_fault w = (case c_faults w of [] \<Rightarrow> (None, w) | f # fs \<Rightarrow> (f, w\<lparr>c_faults := fs\<rparr>))"
  by (simp add: next_fault_def)

lemma run_get_db [run_simps]: "run_state get_db w = (c_db w, w)"
  by (simp add: get_db_def)

lemma run_put_db [run_simps]: "run_state (put_db d) w = ((), w\<lparr>c_db := d\<rparr>)"
  by (simp add: put_db_def)

lemma run_run_stmt [run_simps]:
  "run_state (run_stmt q) w = (fst (q (c_now w) (c_db w)), w\<lparr>c_db := snd (q (c_now w) (c_db w))\<rparr>)"
  by (simp add: run_stmt_def split: prod.splits)

text \<open>A call either fails on the connection, changing nothing, or runs its statement.\<close>

lemma exec_cases:
  obtains (fault) e fs where "run_state (exec q) w = (Inl e, w\<lparr>c_faults := fs\<rparr>)"
  | (ran) fs where "run_state (exec q) w =
      (fst (q (c_now w) (c_db w)), w\<lparr>c_db := snd (q (c_now w) (c_db w)), c_faults := fs\<rparr>)"
proof (cases "c_faults w")
  case Nil
  then have "run_state (exec q) w =
      (fst (q (c_now w) (c_db w)), w\<lparr>c_db := snd (q (c_now w) (c_db w)), c_faults := []\<rparr>)"
    by (simp add: exec_def run_simps)
  then show ?thesis by (rule ran)
next
  case (Cons f fs)
  show ?thesis
  proof (cases f)
    case None
    then have "run_state (exec q) w =
        (fst (q (c_now w) (c_db w)), w\<lparr>c_db := snd (q (c_now w) (c_db w)), c_faults := fs\<rparr>)"
      using Cons by (simp add: exec_def run_simps)
    then show ?thesis by (rule ran)
  next
    case (Some e)
    then have "run_state (exec q) w = (Inl e, w\<lparr>c_faults := fs\<rparr>)"
      using Cons by (simp add: exec_def run_simps)
    then show ?thesis by (rule fault)
  qed
qed

lemma run_exec_quiet [run_simps]:
  "c_faults w = [] \<Longrightarrow> run_state (exec q) w =
     (fst (q (c_now w) (c_db w)), w\<lparr>c_db := snd (q (c_now w) (c_db w))\<rparr>)"
  by (simp add: exec_def run_simps)

lemma run_attempt [run_simps]:
  "run_state (attempt m h k) w =
     (case run_state m w of (r, w') \<Rightarrow>
        case r of Inl e \<Rightarrow> (Inl (h e), w') | Inr x \<Rightarrow> run_state (k x) w')"
  by (simp add: attempt_def split: prod.splits sum.splits)

lemma run_in_tx_quiet:
  assumes "c_faults w = []" and "run_state body w = (r, w')" and "c_faults w' = []"
  shows "run_state (in_tx b c body) w =
    (r, case r of Inl e \<Rightarrow> w'\<lparr>c_db := c_db w\<rparr> | Inr x \<Rightarrow> w')"
  using assms by (simp add: in_tx_def run_simps split: sum.splits)

text \<open>A transaction that returns a value has run its body; one that fails has changed nothing.\<close>

lemma in_tx_Inr:
  assumes "run_state (in_tx b c body) w = (Inr x, w')"
  obtains fs wb fs' where "run_state body (w\<lparr>c_faults := fs\<rparr>) = (Inr x, wb)"
    and "w' = wb\<lparr>c_faults := fs'\<rparr>"
proof -
  obtain f fs where f: "run_state next_fault w = (f, w\<lparr>c_faults := fs\<rparr>)"
    by (cases "c_faults w") (auto simp: run_simps intro: that [of _ "[]"])
  obtain r wb where r: "run_state body (w\<lparr>c_faults := fs\<rparr>) = (r, wb)"
    by fastforce
  obtain g gs where g: "run_state next_fault wb = (g, wb\<lparr>c_faults := gs\<rparr>)"
    by (cases "c_faults wb") (auto simp: run_simps intro: that [of _ "[]"])
  have "r = Inr x \<and> w' = wb\<lparr>c_faults := gs\<rparr>"
    using assms f r g
    by (cases f; cases r; cases g) (auto simp: in_tx_def run_simps simp del: run_next_fault)
  then show ?thesis using that r by blast
qed

lemma in_tx_Inl:
  assumes "run_state (in_tx b c body) w = (Inl e, w')"
  shows "c_db w' = c_db w"
  using assms
  by (auto simp: in_tx_def run_simps split: option.splits sum.splits list.splits prod.splits)

text \<open>A chain of calls that returns a value has run every one of its statements.\<close>

lemma attempt_exec_Inr:
  assumes "run_state (attempt (exec q) h k) w = (Inr x, w')"
  obtains v fs where "fst (q (c_now w) (c_db w)) = Inr v"
    and "run_state (k v) (w\<lparr>c_db := snd (q (c_now w) (c_db w)), c_faults := fs\<rparr>) = (Inr x, w')"
proof (cases rule: exec_cases [of q w])
  case (fault e fs)
  then show ?thesis using assms by (simp add: run_attempt)
next
  case (ran fs)
  then show ?thesis
    using assms that by (cases "fst (q (c_now w) (c_db w))") (auto simp: run_attempt)
qed

section \<open>Programs that keep an invariant of the database\<close>

definition keeps :: "(db \<Rightarrow> bool) \<Rightarrow> ('z, 'r) prog \<Rightarrow> bool" where
  "keeps I m = (\<forall>w. I (c_db w) \<longrightarrow> I (c_db (snd (run_state m w))))"

lemma keepsI: "(\<And>w. I (c_db w) \<Longrightarrow> I (c_db (snd (run_state m w)))) \<Longrightarrow> keeps I m"
  by (simp add: keeps_def)

lemma keepsD: "keeps I m \<Longrightarrow> I (c_db w) \<Longrightarrow> I (c_db (snd (run_state m w)))"
  by (simp add: keeps_def)

lemma keeps_return [keeps_intros]: "keeps I (State_Monad.return x)"
  by (rule keepsI) simp

lemma keeps_next_fault [keeps_intros]: "keeps I next_fault"
  by (rule keepsI) (simp add: run_simps split: list.splits)

lemma keeps_bind [keeps_intros]:
  "keeps I m \<Longrightarrow> (\<And>x. keeps I (k x)) \<Longrightarrow> keeps I (State_Monad.bind m k)"
  by (auto simp: keeps_def split: prod.splits)

lemma keeps_run_stmt [keeps_intros]: "stmt_keeps I q \<Longrightarrow> keeps I (run_stmt q)"
  by (rule keepsI) (simp add: run_simps stmt_keeps_def)

lemma keeps_case_option [keeps_intros]:
  "keeps I a \<Longrightarrow> (\<And>x. keeps I (b x)) \<Longrightarrow> keeps I (case r of None \<Rightarrow> a | Some x \<Rightarrow> b x)"
  by (cases r) auto

lemma keeps_case_sum [keeps_intros]:
  "(\<And>x. keeps I (a x)) \<Longrightarrow> (\<And>x. keeps I (b x)) \<Longrightarrow> keeps I (case r of Inl x \<Rightarrow> a x | Inr x \<Rightarrow> b x)"
  by (cases r) auto

lemma keeps_if [keeps_intros]: "keeps I a \<Longrightarrow> keeps I b \<Longrightarrow> keeps I (if c then a else b)"
  by simp

lemma keeps_exec [keeps_intros]: "stmt_keeps I q \<Longrightarrow> keeps I (exec q)"
  unfolding exec_def by (intro keeps_intros)

lemma keeps_attempt [keeps_intros]:
  "keeps I m \<Longrightarrow> (\<And>x. keeps I (k x)) \<Longrightarrow> keeps I (attempt m h k)"
  unfolding attempt_def by (intro keeps_intros)

lemma keeps_in_tx [keeps_intros]:
  assumes "keeps I body" shows "keeps I (in_tx b c body)"
proof (rule keepsI)
  fix w :: "'a conn_scheme" assume I: "I (c_db w)"
  obtain r w' where run: "run_state (in_tx b c body) w = (r, w')"
    by fastforce
  show "I (c_db (snd (run_state (in_tx b c body) w)))"
  proof (cases r)
    case (Inl e)
    then have "c_db w' = c_db w" using run by (simp add: in_tx_Inl)
    then show ?thesis using run I by simp
  next
    case (Inr x)
    with run have "run_state (in_tx b c body) w = (Inr x, w')" by simp
    then obtain fs wb fs' where body: "run_state body (w\<lparr>c_faults := fs\<rparr>) = (Inr x, wb)"
      and w': "w' = wb\<lparr>c_faults := fs'\<rparr>"
      by (rule in_tx_Inr)
    have "I (c_db (snd (run_state body (w\<lparr>c_faults := fs\<rparr>))))"
      using I by (intro keepsD [OF assms]) simp
    then have "I (c_db w')" unfolding body w' by simp
    then show ?thesis using run by simp
  qed
qed

section \<open>Programs that touch nothing but the connection\<close>

text \<open>Such a program leaves the clock, and whatever else the state holds, as it was.\<close>

definition conn_only :: "('z, 'r) prog \<Rightarrow> bool" where
  "conn_only m = (\<forall>w. \<exists>d fs. snd (run_state m w) = w\<lparr>c_db := d, c_faults := fs\<rparr>)"

lemma conn_onlyI:
  "(\<And>w. \<exists>d fs. snd (run_state m w) = w\<lparr>c_db := d, c_faults := fs\<rparr>) \<Longrightarrow> conn_only m"
  by (simp add: conn_only_def)

lemma conn_onlyE:
  assumes "conn_only m" and "run_state m w = (r, w')"
  obtains fs where "w' = w\<lparr>c_db := c_db w', c_faults := fs\<rparr>"
proof -
  obtain d fs where "snd (run_state m w) = w\<lparr>c_db := d, c_faults := fs\<rparr>"
    using assms(1) unfolding conn_only_def by blast
  then have w': "w' = w\<lparr>c_db := d, c_faults := fs\<rparr>" using assms(2) by simp
  then have "w' = w\<lparr>c_db := c_db w', c_faults := fs\<rparr>" by simp
  then show ?thesis by (rule that)
qed

lemma conn_only_return [conn_only_intros]: "conn_only (State_Monad.return x)"
  by (rule conn_onlyI) (metis conn_same(1) run_state_return snd_conv)

lemma conn_only_next_fault [conn_only_intros]: "conn_only next_fault"
proof (rule conn_onlyI)
  fix w :: "'a conn_scheme"
  have "snd (run_state next_fault w) = w\<lparr>c_db := c_db w, c_faults := tl (c_faults w)\<rparr>"
    by (cases w; cases "c_faults w") (simp_all add: run_simps)
  then show "\<exists>d fs. snd (run_state next_fault w) = w\<lparr>c_db := d, c_faults := fs\<rparr>" by blast
qed

lemma conn_only_put [conn_only_intros]: "conn_only (put_db d)"
proof (rule conn_onlyI)
  fix w :: "'a conn_scheme"
  have "snd (run_state (put_db d) w) = w\<lparr>c_db := d, c_faults := c_faults w\<rparr>"
    by (cases w) (simp add: run_simps)
  then show "\<exists>d' fs. snd (run_state (put_db d) w) = w\<lparr>c_db := d', c_faults := fs\<rparr>" by blast
qed

lemma conn_only_get [conn_only_intros]: "conn_only get_db"
  by (rule conn_onlyI) (metis conn_same(1) run_get_db snd_conv)

lemma conn_only_bind [conn_only_intros]:
  assumes "conn_only m" and "\<And>x. conn_only (k x)" shows "conn_only (State_Monad.bind m k)"
proof (rule conn_onlyI)
  fix w :: "'a conn_scheme"
  obtain x w' where m: "run_state m w = (x, w')" by fastforce
  obtain r w'' where k: "run_state (k x) w' = (r, w'')" by fastforce
  obtain fs where "w' = w\<lparr>c_db := c_db w', c_faults := fs\<rparr>" by (rule conn_onlyE [OF assms(1) m])
  moreover obtain gs where "w'' = w'\<lparr>c_db := c_db w'', c_faults := gs\<rparr>"
    by (rule conn_onlyE [OF assms(2) k])
  ultimately have "w'' = w\<lparr>c_db := c_db w'', c_faults := gs\<rparr>"
    by (cases w, cases w', cases w'') simp
  then show "\<exists>d fs. snd (run_state (State_Monad.bind m k) w) = w\<lparr>c_db := d, c_faults := fs\<rparr>"
    using m k by auto
qed

lemma conn_only_case_option [conn_only_intros]:
  "conn_only a \<Longrightarrow> (\<And>x. conn_only (b x)) \<Longrightarrow> conn_only (case r of None \<Rightarrow> a | Some x \<Rightarrow> b x)"
  by (cases r) auto

lemma conn_only_case_sum [conn_only_intros]:
  "(\<And>x. conn_only (a x)) \<Longrightarrow> (\<And>x. conn_only (b x)) \<Longrightarrow>
   conn_only (case r of Inl x \<Rightarrow> a x | Inr x \<Rightarrow> b x)"
  by (cases r) auto

lemma conn_only_if [conn_only_intros]: "conn_only a \<Longrightarrow> conn_only b \<Longrightarrow> conn_only (if c then a else b)"
  by simp

lemma conn_only_run_stmt [conn_only_intros]: "conn_only (run_stmt q)"
proof (rule conn_onlyI)
  fix w :: "'a conn_scheme"
  have "snd (run_state (run_stmt q) w) =
      w\<lparr>c_db := snd (q (c_now w) (c_db w)), c_faults := c_faults w\<rparr>"
    by (cases w) (simp add: run_simps)
  then show "\<exists>d fs. snd (run_state (run_stmt q) w) = w\<lparr>c_db := d, c_faults := fs\<rparr>" by blast
qed

lemma conn_only_exec [conn_only_intros]: "conn_only (exec q)"
  unfolding exec_def by (intro conn_only_intros)

lemma conn_only_attempt [conn_only_intros]:
  "conn_only m \<Longrightarrow> (\<And>x. conn_only (k x)) \<Longrightarrow> conn_only (attempt m h k)"
  unfolding attempt_def by (intro conn_only_intros)

lemma conn_only_in_tx [conn_only_intros]: "conn_only m \<Longrightarrow> conn_only (in_tx b c m)"
  unfolding in_tx_def by (intro conn_only_intros)

lemma exec_atomic:
  assumes "all_or_nothing q" and "run_state (exec q) w = (Inl e, w')"
  shows "c_db w' = c_db w"
  using assms by (cases rule: exec_cases [of q w]) (auto simp: all_or_nothing_def)

end
