(* ===== verification/Textcheck.thy ===== *)
theory Textcheck
  imports GoStrings
begin

text \<open>
  \<open>internal/textcheck/textcheck.go\<close>: the one check for text a user typed that a page will
  show.  The display name, the mood note and the guestbook body all go through it, each behind
  a \<open>Normalise\<close> function of its own; \<open>user_text\<close> is the contract those three share.
\<close>

section \<open>The character classes\<close>

text \<open>\<open>unicode.IsControl\<close>, and the table \<open>unicode.Cf\<close> of format characters.\<close>

definition is_control :: "nat \<Rightarrow> bool" where
  "is_control r = (r \<le> 0x1F \<or> 0x7F \<le> r \<and> r \<le> 0x9F)"

definition Cf_ranges :: "(nat \<times> nat) list" where
  "Cf_ranges = [(0xAD, 0xAD), (0x600, 0x605), (0x61C, 0x61C), (0x6DD, 0x6DD), (0x70F, 0x70F),
     (0x890, 0x891), (0x8E2, 0x8E2), (0x180E, 0x180E), (0x200B, 0x200F), (0x202A, 0x202E),
     (0x2060, 0x2064), (0x2066, 0x206F), (0xFEFF, 0xFEFF), (0xFFF9, 0xFFFB), (0x110BD, 0x110BD),
     (0x110CD, 0x110CD), (0x13430, 0x1343F), (0x1BCA0, 0x1BCA3), (0x1D173, 0x1D17A),
     (0xE0001, 0xE0001), (0xE0020, 0xE007F)]"

definition is_Cf :: "nat \<Rightarrow> bool" where
  "is_Cf r = list_ex (\<lambda>(lo, hi). lo \<le> r \<and> r \<le> hi) Cf_ranges"

definition disallowedFormat :: "nat \<Rightarrow> bool" where
  "disallowedFormat r =
     (if r = 0x200D \<or> r = 0x200C \<or> (0xE0020 \<le> r \<and> r \<le> 0xE007F) then False
      else if r = 0x2028 \<or> r = 0x2029 then True
      else is_Cf r)"

section \<open>The check\<close>

fun check_runes :: "nat list \<Rightarrow> bool \<Rightarrow> bool" where
  "check_runes [] allowNewline = True"
| "check_runes (r # rs) allowNewline =
     (if r = code LF \<and> allowNewline then check_runes rs allowNewline
      else if is_control r \<or> disallowedFormat r then False
      else check_runes rs allowNewline)"

definition check :: "string \<Rightarrow> bool \<Rightarrow> bool" where
  "check s allowNewline = (if \<not> utf8_valid s then False else check_runes (runes s) allowNewline)"

definition Line :: "string \<Rightarrow> bool" where
  "Line s = check s False"

definition Block :: "string \<Rightarrow> bool" where
  "Block s = check s True"

lemma check_runes_iff:
  "check_runes rs nl \<longleftrightarrow>
     (\<forall>r\<in>set rs. (r = code LF \<and> nl) \<or> \<not> (is_control r \<or> disallowedFormat r))"
  by (induction rs) auto

lemma Line_Nil [simp]: "Line []" and Block_Nil [simp]: "Block []"
  by (simp_all add: Line_def Block_def check_def utf8_valid_def)

lemma Line_imp_Block: "Line s \<Longrightarrow> Block s"
  by (auto simp: Line_def Block_def check_def check_runes_iff split: if_splits)

text \<open>Printable ASCII always passes.\<close>

lemma Line_printable:
  assumes "list_all (\<lambda>c. 32 \<le> code c \<and> code c < 127) s"
  shows "Line s" "rune_count s = length s"
proof -
  have a: "ascii s" using assms by (auto simp: ascii_def list_all_iff)
  then show "rune_count s = length s" by (rule rune_count_ascii)
  have "\<not> (is_control (code c) \<or> disallowedFormat (code c))" if "c \<in> set s" for c
  proof -
    have "32 \<le> code c" "code c < 127" using assms that by (auto simp: list_all_iff)
    then show ?thesis by (simp add: is_control_def disallowedFormat_def is_Cf_def Cf_ranges_def)
  qed
  then show "Line s"
    using a by (auto simp: Line_def check_def utf8_valid_ascii check_runes_iff runes_ascii)
qed

lemma LineD:
  assumes "Line s"
  shows "utf8_valid s" "\<forall>r\<in>set (runes s). \<not> is_control r \<and> \<not> disallowedFormat r"
  using assms by (auto simp: Line_def check_def check_runes_iff split: if_splits)

lemma BlockD:
  assumes "Block s"
  shows "utf8_valid s"
    "\<forall>r\<in>set (runes s). r = code LF \<or> (\<not> is_control r \<and> \<not> disallowedFormat r)"
  using assms by (auto simp: Block_def check_def check_runes_iff split: if_splits)

text \<open>No control byte survives the check, whatever the encoding around it.\<close>

definition control_byte :: "char \<Rightarrow> bool" where
  "control_byte c = (code c < 32 \<or> code c = 127)"

lemma Line_no_control_byte: "Line s \<Longrightarrow> c \<in> set s \<Longrightarrow> \<not> control_byte c"
  using LineD(2) [of s] ascii_byte_in_runes [of c s]
  by (force simp: control_byte_def is_control_def)

lemma Block_control_byte: "Block s \<Longrightarrow> c \<in> set s \<Longrightarrow> control_byte c \<Longrightarrow> c = LF"
proof -
  assume b: "Block s" and c: "c \<in> set s" "control_byte c"
  then have "code c \<in> set (runes s)" by (intro ascii_byte_in_runes) (auto simp: control_byte_def)
  with BlockD(2) [OF b] c have "code c = code LF"
    by (auto simp: control_byte_def is_control_def)
  then show "c = LF" by (simp only: code_eq_iff)
qed

section \<open>The contract of a normalised field\<close>

text \<open>
  What the rest of the program relies on when it stores and renders user text: whatever the
  field's \<open>Normalise\<close> function accepts is trimmed, passes the check and fits the limit, and
  anything of that shape is accepted as it is.
\<close>

locale user_text =
  fixes normalise :: "string \<Rightarrow> 'e + string"
    and shape :: "string \<Rightarrow> bool"
    and min_runes :: nat
    and max_runes :: nat
  assumes sound: "normalise s = Inr t \<Longrightarrow>
      trimmed t \<and> shape t \<and> min_runes \<le> rune_count t \<and> rune_count t \<le> max_runes"
    and complete: "trimmed t \<Longrightarrow> shape t \<Longrightarrow> min_runes \<le> rune_count t \<Longrightarrow>
      rune_count t \<le> max_runes \<Longrightarrow> normalise t = Inr t"
    and shape_Block: "shape t \<Longrightarrow> Block t"
begin

lemma idempotent: "normalise s = Inr t \<Longrightarrow> normalise t = Inr t"
  by (blast intro: complete dest: sound)

lemma image_is_shape:
  "(\<exists>s. normalise s = Inr t) \<longleftrightarrow>
     trimmed t \<and> shape t \<and> min_runes \<le> rune_count t \<and> rune_count t \<le> max_runes"
  by (blast intro: complete dest: sound)

lemma accepted_bytes: "normalise s = Inr t \<Longrightarrow> c \<in> set t \<Longrightarrow> control_byte c \<Longrightarrow> c = LF"
  by (blast intro: Block_control_byte shape_Block dest: sound)

lemma accepted_utf8: "normalise s = Inr t \<Longrightarrow> utf8_valid t"
  by (blast intro: BlockD(1) shape_Block dest: sound)

end

end
