(* ===== verification/Handles.thy ===== *)
theory Handles
  imports GoStrings
begin

text \<open>
  Handles and hostnames: \<open>user.ValidHandle\<close> (\<open>internal/user/handle.go\<close>), the
  hostname parser of the pages surface (\<open>internal/web/handle.go\<close>), \<open>canonicalHost\<close> of
  \<open>internal/web/router.go\<close> and \<open>Config.PageHostFor\<close>.  A handle is one DNS label below
  the pages host; the two directions of that correspondence are inverse to each other.
\<close>

section \<open>Valid handles\<close>

definition maxHandleLen :: nat where "maxHandleLen = 30"

definition reservedHandles :: "string list" where
  "reservedHandles =
    [''admin'', ''api'', ''app'', ''blog'', ''cdn'', ''dev'',
     ''docs'', ''ftp'', ''help'', ''img'', ''mail'', ''me'',
     ''news'', ''root'', ''security'', ''smtp'', ''staging'',
     ''static'', ''status'', ''support'', ''system'', ''www'']"

abbreviation hyphen :: char where "hyphen \<equiv> CHR ''-''"

definition handle_char :: "char \<Rightarrow> bool" where
  "handle_char c = (97 \<le> code c \<and> code c \<le> 122 \<or> 48 \<le> code c \<and> code c \<le> 57)"

text \<open>The loop over the bytes; \<open>prevHyphen\<close> is its one variable.\<close>

fun handle_loop :: "bool \<Rightarrow> string \<Rightarrow> bool" where
  "handle_loop prevHyphen [] = True"
| "handle_loop prevHyphen (c # s) =
     (if handle_char c then handle_loop False s
      else if c = hyphen then (if prevHyphen then False else handle_loop True s)
      else False)"

definition ValidHandle :: "string \<Rightarrow> bool" where
  "ValidHandle s =
     (if length s = 0 \<or> length s > maxHandleLen then False
      else if hd s = hyphen \<or> s ! (length s - 1) = hyphen then False
      else if s \<in> set reservedHandles then False
      else handle_loop False s)"

text \<open>What a handle is, said without the loop.\<close>

definition handle_shape :: "string \<Rightarrow> bool" where
  "handle_shape s \<longleftrightarrow> s \<noteq> [] \<and> length s \<le> 30 \<and>
     (\<forall>c\<in>set s. handle_char c \<or> c = hyphen) \<and>
     hd s \<noteq> hyphen \<and> last s \<noteq> hyphen \<and> \<not> sublist [hyphen, hyphen] s"

lemma handle_loop_iff:
  "handle_loop p s \<longleftrightarrow> (\<forall>c\<in>set s. handle_char c \<or> c = hyphen) \<and>
     \<not> sublist [hyphen, hyphen] s \<and> \<not> (p \<and> s \<noteq> [] \<and> hd s = hyphen)"
proof (induction s arbitrary: p)
  case Nil
  then show ?case by simp
next
  case (Cons c s)
  have h: "\<not> handle_char hyphen" by (simp add: handle_char_def code_def)
  then show ?case
    using Cons.IH by (cases s) (auto simp: sublist_Cons_right)
qed

lemma ValidHandle_shape: "ValidHandle s \<longleftrightarrow> handle_shape s \<and> s \<notin> set reservedHandles"
  by (cases s) (auto simp: ValidHandle_def handle_shape_def handle_loop_iff maxHandleLen_def
      last_conv_nth)

lemma handle_char_not_dot: "handle_char c \<or> c = hyphen \<Longrightarrow> c \<noteq> CHR ''.''"
  by (auto simp: handle_char_def code_def)

lemma ValidHandle_no_dot: "ValidHandle s \<Longrightarrow> CHR ''.'' \<notin> set s"
  using handle_char_not_dot by (auto simp: ValidHandle_shape handle_shape_def)

lemma handle_char_ascii: "handle_char c \<or> c = hyphen \<Longrightarrow> code c < 128"
  by (auto simp: handle_char_def code_def)

lemma ValidHandle_ascii: "ValidHandle s \<Longrightarrow> ascii s"
  using handle_char_ascii by (auto simp: ValidHandle_shape handle_shape_def ascii_def list_all_iff)

lemma handle_char_lower: "handle_char c \<or> c = hyphen \<Longrightarrow> lower_byte c = c"
proof -
  have "code hyphen = 45" by (simp add: code_def)
  then show "handle_char c \<or> c = hyphen \<Longrightarrow> lower_byte c = c"
    by (auto simp: lower_byte_def handle_char_def)
qed

lemma ValidHandle_lower: "ValidHandle s \<Longrightarrow> map lower_byte s = s"
  using handle_char_lower by (intro map_idI) (auto simp: ValidHandle_shape handle_shape_def)

lemma ValidHandle_nonempty: "ValidHandle s \<Longrightarrow> s \<noteq> []"
  by (auto simp: ValidHandle_shape handle_shape_def)

section \<open>Hostnames\<close>

definition handleFromHost :: "string \<Rightarrow> string \<Rightarrow> string option" where
  "handleFromHost host pagesHost =
     (let suff = ''.'' @ pagesHost in
      if \<not> has_suffix host suff then None
      else (let handle = trim_suffix host suff in
        if contains_byte handle (CHR ''.'') then None
        else if \<not> ValidHandle handle then None
        else Some handle))"

definition PageHostFor :: "string \<Rightarrow> string \<Rightarrow> string" where
  "PageHostFor pagesHost handle = handle @ ''.'' @ pagesHost"

definition canonicalHost :: "(string \<Rightarrow> string) \<Rightarrow> string \<Rightarrow> string" where
  "canonicalHost ul hostport =
     (let host = to_lower ul (trim_space hostport);
          host = trim_suffix host '':443'';
          host = trim_suffix host '':80''
      in host)"

lemma trim_suffix_append [simp]: "trim_suffix (s @ p) p = s"
proof -
  have "cut_suffix (s @ p) p = Some s" by (simp add: cut_suffix_Some)
  then show ?thesis by (simp add: trim_suffix_def)
qed

lemma trim_suffix_no: "\<not> has_suffix s p \<Longrightarrow> trim_suffix s p = s"
  by (simp add: trim_suffix_def cut_suffix_def)

lemma handleFromHost_Some:
  "handleFromHost host pagesHost = Some h \<longleftrightarrow>
     host = PageHostFor pagesHost h \<and> ValidHandle h"
proof -
  have at: "handleFromHost (t @ ''.'' @ pagesHost) pagesHost
      = (if ValidHandle t then Some t else None)" for t
    unfolding handleFromHost_def Let_def trim_suffix_append
    by (auto simp: has_suffix_def suffix_def contains_byte_def dest: ValidHandle_no_dot)
  show ?thesis
  proof (cases "\<exists>t. host = t @ ''.'' @ pagesHost")
    case True
    then obtain t where "host = t @ ''.'' @ pagesHost" by blast
    then show ?thesis by (simp only: at PageHostFor_def) auto
  next
    case False
    then have "\<not> has_suffix host (''.'' @ pagesHost)" by (auto simp: has_suffix_def suffix_def)
    with False show ?thesis by (auto simp: handleFromHost_def PageHostFor_def)
  qed
qed

lemma canonicalHost_id:
  assumes "trimmed h" "ascii h" "map lower_byte h = h"
    and "\<not> has_suffix h '':443''" "\<not> has_suffix h '':80''"
  shows "canonicalHost ul h = h"
  using assms by (simp add: canonicalHost_def trim_space_trimmed to_lower_ascii trim_suffix_no)

end
