(* ===== verification/Accounts.thy ===== *)
theory Accounts
  imports Conn Textcheck Handles
begin

text \<open>
  The account and the pure part of \<open>internal/user\<close>: the \<open>User\<close> type and its reading from a
  row, the errors, the login token, and the normal forms of the address and the display name.
  SHA-256 is the parameter \<open>H\<close>, \<open>mail.ParseAddress\<close> the parameter \<open>parse\<close> (display name
  and address), and lower-casing beyond ASCII the parameter \<open>ul\<close>.
\<close>

section \<open>The account\<close>

definition TokenTTL :: duration where "TokenTTL = 15 * minute"
definition LoginBudget :: nat where "LoginBudget = 3"
definition LoginBudgetWindow :: duration where "LoginBudgetWindow = TokenTTL"
definition maxEmailLength :: nat where "maxEmailLength = 254"
definition maxDisplayNameRunes :: nat where "maxDisplayNameRunes = 40"
definition DeletedHandleReservation :: duration where "DeletedHandleReservation = 90 * 24 * hour"

definition StatePendingHandle :: string where "StatePendingHandle = ''pending_handle''"
definition StateActive :: string where "StateActive = ''active''"

text \<open>An empty string stands for an unset field, \<^const>\<open>None\<close> for the zero time.\<close>

record User =
  ID :: uuid
  Email :: string
  Handle :: string
  UState :: string
  Tier :: string
  Locale :: string
  CreatedAt :: instant
  DisplayName :: string
  PhotoKey :: string
  PhotoWidth :: int
  PhotoHeight :: int
  PhotoUploadedAt :: "instant option"
  CanUploadPhotos :: bool

definition fromRow :: "user_row \<Rightarrow> User" where
  "fromRow row =
     (let base = \<lparr>ID = u_id row, Email = u_email row, Handle = [], UState = u_state row,
            Tier = u_tier row, Locale = u_locale row, CreatedAt = u_created_at row,
            DisplayName = [], PhotoKey = [], PhotoWidth = 0, PhotoHeight = 0,
            PhotoUploadedAt = None, CanUploadPhotos = False\<rparr>;
          u1 = (case u_handle row of None \<Rightarrow> base | Some h \<Rightarrow> base\<lparr>Handle := h\<rparr>);
          u2 = (case u_display_name row of None \<Rightarrow> u1 | Some n \<Rightarrow> u1\<lparr>DisplayName := n\<rparr>);
          u3 = (case u_photo_key row of None \<Rightarrow> u2
                | Some k \<Rightarrow> (let v = u2\<lparr>PhotoKey := k\<rparr>;
                      v1 = (case u_photo_width row of None \<Rightarrow> v | Some w \<Rightarrow> v\<lparr>PhotoWidth := w\<rparr>)
                    in case u_photo_height row of None \<Rightarrow> v1 | Some h \<Rightarrow> v1\<lparr>PhotoHeight := h\<rparr>))
      in u3\<lparr>PhotoUploadedAt := u_photo_uploaded_at row,
            CanUploadPhotos := u_can_upload_photos row\<rparr>)"

definition ShownName :: "User \<Rightarrow> string" where
  "ShownName u = (if DisplayName u \<noteq> [] then DisplayName u else Handle u)"

text \<open>
  A location is its offset from UTC at an instant; the calendar date of an instant is the number
  of whole days its local time lies from the epoch, which determines year, month and day.
\<close>

definition local_date :: "(instant \<Rightarrow> duration) \<Rightarrow> instant \<Rightarrow> int" where
  "local_date zone t = (t + zone t) div day"

definition UploadedPhotoOn :: "(instant \<Rightarrow> duration) \<Rightarrow> User \<Rightarrow> instant \<Rightarrow> bool" where
  "UploadedPhotoOn zone u at = (case PhotoUploadedAt u of
     None \<Rightarrow> False | Some t \<Rightarrow> local_date zone t = local_date zone at)"

lemma fromRow_simps [simp]:
  "ID (fromRow r) = u_id r" "Email (fromRow r) = u_email r" "UState (fromRow r) = u_state r"
  "Handle (fromRow r) = (case u_handle r of None \<Rightarrow> [] | Some h \<Rightarrow> h)"
  "DisplayName (fromRow r) = (case u_display_name r of None \<Rightarrow> [] | Some h \<Rightarrow> h)"
  "PhotoKey (fromRow r) = (case u_photo_key r of None \<Rightarrow> [] | Some h \<Rightarrow> h)"
  "PhotoUploadedAt (fromRow r) = u_photo_uploaded_at r"
  "CanUploadPhotos (fromRow r) = u_can_upload_photos r"
  by (auto simp: fromRow_def Let_def split: option.splits)

section \<open>Errors\<close>

text \<open>The sentinels of \<open>errors.go\<close>, and a store error wrapped with the step it stopped.\<close>

datatype user_err =
    ErrInvalidEmail
  | ErrLoginBudgetExceeded
  | ErrInvalidToken
  | ErrUserNotFound
  | ErrInvalidHandle
  | ErrHandleTaken
  | ErrHandleAlreadySet
  | ErrInvalidDisplayName
  | ErrPhotoNotAllowed
  | ErrInvalidStyle
  | UserWrap string pg_error

definition isUniqueViolation :: "pg_error \<Rightarrow> bool" where
  "isUniqueViolation err = (case err of PgError c \<Rightarrow> c = ''23505'' | _ \<Rightarrow> False)"

text \<open>\<open>errors.Is(err, pgx.ErrNoRows)\<close> turned into the sentinel, anything else wrapped.\<close>

definition no_rows_as :: "user_err \<Rightarrow> string \<Rightarrow> pg_error \<Rightarrow> user_err" where
  "no_rows_as sentinel step err = (if err = NoRows then sentinel else UserWrap step err)"

section \<open>Login tokens\<close>

definition maxTokenLength :: nat where "maxTokenLength = 512"

definition hash :: "(string \<Rightarrow> bytes) \<Rightarrow> string \<Rightarrow> bytes" where
  "hash H raw = H raw"

definition newToken :: "(string \<Rightarrow> bytes) \<Rightarrow> string \<Rightarrow> string \<times> bytes" where
  "newToken H tok = (let raw = tok in (raw, hash H raw))"

definition plausibleToken :: "string \<Rightarrow> bool" where
  "plausibleToken raw = (raw \<noteq> [] \<and> length raw \<le> maxTokenLength \<and>
     \<not> contains_any raw [CHR '' '', TAB, CR, LF])"

section \<open>Display names\<close>

definition NormaliseDisplayName :: "string \<Rightarrow> user_err + string" where
  "NormaliseDisplayName raw =
     (let trimmed = trim_space raw in
      if trimmed = [] then Inr []
      else if \<not> Line trimmed \<or> rune_count trimmed > maxDisplayNameRunes then Inl ErrInvalidDisplayName
      else Inr trimmed)"

interpretation display_name: user_text NormaliseDisplayName Line 0 40
  by unfold_locales
    (auto simp: NormaliseDisplayName_def Let_def maxDisplayNameRunes_def trimmed_trim_space
      trim_space_trimmed Line_imp_Block rune_count_def split: if_splits)

section \<open>Addresses\<close>

definition NormaliseEmail ::
  "(string \<Rightarrow> (string \<times> string) option) \<Rightarrow> (string \<Rightarrow> string) \<Rightarrow> string \<Rightarrow> user_err + string" where
  "NormaliseEmail parse ul raw =
     (let trimmed = trim_space raw in
      if trimmed = [] \<or> length trimmed > maxEmailLength then Inl ErrInvalidEmail
      else case parse trimmed of
        None \<Rightarrow> Inl ErrInvalidEmail
      | Some (Name, Address) \<Rightarrow>
          if Name \<noteq> [] then Inl ErrInvalidEmail
          else if contains_byte trimmed (CHR 0x22) then Inl ErrInvalidEmail
          else let address = to_lower ul Address in
            case cut_at (CHR ''@'') address of
              None \<Rightarrow> Inl ErrInvalidEmail
            | Some (_, domain) \<Rightarrow>
                if \<not> contains_byte domain (CHR ''.'') \<or> has_prefix domain ''.'' \<or> has_suffix domain ''.''
                then Inl ErrInvalidEmail else Inr address)"

text \<open>The shape of an accepted address.\<close>

definition email_shape :: "string \<Rightarrow> bool" where
  "email_shape a \<longleftrightarrow> (\<exists>loc dom. a = loc @ ''@'' @ dom \<and> CHR ''@'' \<notin> set loc \<and>
     CHR ''.'' \<in> set dom \<and> \<not> prefix ''.'' dom \<and> \<not> suffix ''.'' dom)"

lemma NormaliseEmail_shape:
  assumes "NormaliseEmail parse ul raw = Inr a"
  shows "email_shape a"
proof -
  obtain loc dom where "cut_at (CHR ''@'') a = Some (loc, dom)" "CHR ''.'' \<in> set dom"
    "\<not> prefix ''.'' dom" "\<not> suffix ''.'' dom"
    using assms
    by (auto simp: NormaliseEmail_def Let_def contains_byte_def has_prefix_def has_suffix_def
        split: if_splits option.splits)
  then show ?thesis by (auto simp: email_shape_def cut_at_Some)
qed

lemma NormaliseEmail_lower:
  assumes "NormaliseEmail parse ul raw = Inr a"
  obtains Address where "parse (trim_space raw) = Some ([], Address)" "a = to_lower ul Address"
    "CHR 0x22 \<notin> set (trim_space raw)" "length (trim_space raw) \<le> 254"
  using assms
  by (auto simp: NormaliseEmail_def Let_def contains_byte_def maxEmailLength_def
      split: if_splits option.splits)

text \<open>
  An accepted plain ASCII address is its own normal form, whatever case it was typed in:
  \<open>ParseAddress\<close> reads a bare address as itself.
\<close>

lemma NormaliseEmail_idem:
  assumes "NormaliseEmail parse ul raw = Inr a" and "ascii a" and "trimmed a" and "length a \<le> 254"
    and "parse a = Some ([], a)" and "CHR 0x22 \<notin> set a" and "map lower_byte a = a"
  shows "NormaliseEmail parse ul a = Inr a"
proof -
  obtain loc dom where a: "a = loc @ ''@'' @ dom" "CHR ''@'' \<notin> set loc"
    and dom: "CHR ''.'' \<in> set dom" "\<not> prefix ''.'' dom" "\<not> suffix ''.'' dom"
    using NormaliseEmail_shape [OF assms(1)] by (auto simp: email_shape_def)
  have cut: "cut_at (CHR ''@'') a = Some (loc, dom)"
    using a by (simp add: cut_at_Some)
  have "a \<noteq> []" using a by simp
  then show ?thesis
    using assms(2-) cut dom
    by (simp add: NormaliseEmail_def trim_space_trimmed maxEmailLength_def contains_byte_def
        to_lower_ascii has_prefix_def has_suffix_def)
qed

end
