(* ===== verification/Http.thy ===== *)
theory Http
  imports Accounts
begin

text \<open>
  An HTTP request as the handlers see it: what \<open>net/http\<close> parsed, and the values the
  middleware attaches to its context (\<open>internal/web/context.go\<close>).  A form or a query is a Go
  \<open>url.Values\<close>, one entry for a key.
\<close>

section \<open>Values and headers\<close>

type_synonym url_values = "(string \<times> string list) list"

definition values_get :: "url_values \<Rightarrow> string \<Rightarrow> string" where
  "values_get q k = (case map_of q k of Some (v # _) \<Rightarrow> v | _ \<Rightarrow> [])"

definition values_has :: "url_values \<Rightarrow> string \<Rightarrow> bool" where
  "values_has q k = (map_of q k \<noteq> None)"

section \<open>The request\<close>

text \<open>
  \<open>PostForm\<close> is what the body and the query parse to, \<^const>\<open>None\<close> when that fails; the body is
  read for it only when it is a form.  \<open>BodyCap\<close> is the limit \<open>http.MaxBytesReader\<close> has put on
  the body.  \<open>Segments\<close> is the path as \<open>ServeMux\<close> sees it: its escaped text split at the slashes,
  each piece unescaped, and \<open>CleanPath\<close> says that its escaped text has no empty, \<open>.\<close> or \<open>..\<close>
  segment to clean away.  \<open>Multipart\<close> holds the parts of a multipart body: the form name, the offset
  in the body at which the content starts, and the content, or \<open>MalformedPart\<close> where the stream breaks.
\<close>

datatype part = FormPart string int string | MalformedPart

record request =
  Method :: string
  Path :: string
  Segments :: "string list"
  CleanPath :: bool
  PathValues :: "(string \<times> string) list"
  Host :: string
  RemoteAddr :: string
  ReqHeaders :: "(string \<times> string) list"
  Cookies :: "(string \<times> string) list"
  RawQuery :: string
  ForceQuery :: bool
  Query :: url_values
  ContentLength :: int
  HasBody :: bool
  BodyLength :: int
  BodyIsForm :: bool
  PostForm :: "url_values option"
  Multipart :: "part list option"
  BodyCap :: "int option"
  CtxRequestID :: string
  CtxUser :: "User option"
  CtxHandle :: "string option"

definition req_header :: "request \<Rightarrow> string \<Rightarrow> string" where
  "req_header r k = (case map_of (ReqHeaders r) k of None \<Rightarrow> [] | Some v \<Rightarrow> v)"

text \<open>\<open>r.Cookie(name)\<close>: the first cookie of that name.\<close>

definition req_cookie :: "request \<Rightarrow> string \<Rightarrow> string option" where
  "req_cookie r name = map_of (Cookies r) name"

definition PathValue :: "request \<Rightarrow> string \<Rightarrow> string" where
  "PathValue r k = (case map_of (PathValues r) k of None \<Rightarrow> [] | Some v \<Rightarrow> v)"

definition body_too_large :: "request \<Rightarrow> bool" where
  "body_too_large r = (case BodyCap r of None \<Rightarrow> False | Some n \<Rightarrow> HasBody r \<and> n < BodyLength r)"

text \<open>\<open>r.ParseForm()\<close>: the posted values, or its error.\<close>

definition ParseForm :: "request \<Rightarrow> url_values option" where
  "ParseForm r = (if BodyIsForm r \<and> body_too_large r then None else PostForm r)"

text \<open>\<open>r.FormValue(k)\<close> after a successful \<open>ParseForm\<close>: posted values come before the query's.\<close>

definition FormValue :: "request \<Rightarrow> url_values \<Rightarrow> string \<Rightarrow> string" where
  "FormValue r post k =
     (case (case map_of post k of None \<Rightarrow> [] | Some vs \<Rightarrow> vs) @ (case map_of (Query r) k of None \<Rightarrow> [] | Some vs \<Rightarrow> vs)
      of [] \<Rightarrow> [] | v # _ \<Rightarrow> v)"

section \<open>The request context\<close>

definition RequestIDFrom :: "request \<Rightarrow> string" where
  "RequestIDFrom r = CtxRequestID r"

definition withHandle :: "request \<Rightarrow> string \<Rightarrow> request" where
  "withHandle r handle = r\<lparr>CtxHandle := Some handle\<rparr>"

definition HandleFrom :: "request \<Rightarrow> string option" where
  "HandleFrom r = CtxHandle r"

definition withUser :: "request \<Rightarrow> User \<Rightarrow> request" where
  "withUser r u = r\<lparr>CtxUser := Some u\<rparr>"

definition UserFrom :: "request \<Rightarrow> User option" where
  "UserFrom r = CtxUser r"

lemma context_simps [simp]:
  "HandleFrom (withHandle r h) = Some h" "HandleFrom (withUser r u) = HandleFrom r"
  "UserFrom (withUser r u) = Some u" "UserFrom (withHandle r h) = UserFrom r"
  by (simp_all add: HandleFrom_def withHandle_def UserFrom_def withUser_def)

text \<open>A request with nothing set, for concrete requests to start from.\<close>

definition blank_request :: request where
  "blank_request = \<lparr>Method = ''GET'', Path = ''/'', Segments = [''''], CleanPath = True, PathValues = [], Host = [], RemoteAddr = [],
     ReqHeaders = [], Cookies = [], RawQuery = [], ForceQuery = False, Query = [],
     ContentLength = 0, HasBody = False, BodyLength = 0, BodyIsForm = False, PostForm = Some [],
     Multipart = None, BodyCap = None, CtxRequestID = [], CtxUser = None, CtxHandle = None\<rparr>"

end
