(* ===== verification/NetAddr.thy ===== *)
theory NetAddr
  imports GoStrings "HOL-Library.Word"
begin

text \<open>
  Network addresses as the program uses them: \<open>net.SplitHostPort\<close> and the part of \<open>net/netip\<close>
  that parses, classifies, truncates and prints an address.  An IPv4 address is 32 bits, an IPv6
  address 128 bits and a zone.
\<close>

section \<open>Host and port\<close>

definition last_index :: "char \<Rightarrow> string \<Rightarrow> nat option" where
  "last_index c s = (if c \<in> set s then Some (length s - Suc (length (takeWhile (\<lambda>x. x \<noteq> c) (rev s)))) else None)"

definition first_index :: "char \<Rightarrow> string \<Rightarrow> nat option" where
  "first_index c s = (if c \<in> set s then Some (length (takeWhile (\<lambda>x. x \<noteq> c) s)) else None)"

definition split_plain :: "string \<Rightarrow> nat \<Rightarrow> (string \<times> string) option" where
  "split_plain hp i =
     (let host = take i hp in
      if CHR '':'' \<in> set host \<or> CHR ''['' \<in> set hp \<or> CHR '']'' \<in> set hp then None
      else Some (host, drop (Suc i) hp))"

definition split_bracket :: "string \<Rightarrow> nat \<Rightarrow> (string \<times> string) option" where
  "split_bracket hp i = (case first_index (CHR '']'') hp of
     None \<Rightarrow> None
   | Some e \<Rightarrow>
       if Suc e \<noteq> i \<or> CHR ''['' \<in> set (drop 1 hp) \<or> CHR '']'' \<in> set (drop (Suc e) hp) then None
       else Some (drop 1 (take e hp), drop (Suc i) hp))"

definition SplitHostPort :: "string \<Rightarrow> (string \<times> string) option" where
  "SplitHostPort hp = (case last_index (CHR '':'') hp of
     None \<Rightarrow> None
   | Some i \<Rightarrow> if take 1 hp = ''['' then split_bracket hp i else split_plain hp i)"

section \<open>Addresses\<close>

datatype netip = V4 "32 word" | V6 "128 word" string

definition is_digit :: "char \<Rightarrow> bool" where
  "is_digit c = (48 \<le> code c \<and> code c \<le> 57)"

definition dec_val :: "string \<Rightarrow> int" where
  "dec_val s = foldl (\<lambda>n c. n * 10 + int (code c - 48)) 0 s"

definition parse_octet :: "string \<Rightarrow> int option" where
  "parse_octet s =
     (if s = [] \<or> \<not> list_all is_digit s \<or> (1 < length s \<and> hd s = CHR ''0'') \<or> 255 < dec_val s
      then None else Some (dec_val s))"

fun split_on :: "char \<Rightarrow> string \<Rightarrow> string \<Rightarrow> string list" where
  "split_on c acc [] = [rev acc]"
| "split_on c acc (x # xs) = (if x = c then rev acc # split_on c [] xs else split_on c (x # acc) xs)"

definition parse_octets :: "string \<Rightarrow> (int \<times> int \<times> int \<times> int) option" where
  "parse_octets s = (case split_on (CHR ''.'') [] s of
     [a, b, c, d] \<Rightarrow> (case (parse_octet a, parse_octet b, parse_octet c, parse_octet d) of
         (Some a, Some b, Some c, Some d) \<Rightarrow> Some (a, b, c, d)
       | _ \<Rightarrow> None)
   | _ \<Rightarrow> None)"

definition parse_v4 :: "string \<Rightarrow> netip option" where
  "parse_v4 s = (case parse_octets s of
     None \<Rightarrow> None
   | Some (a, b, c, d) \<Rightarrow> Some (V4 (of_int (((a * 256 + b) * 256 + c) * 256 + d))))"

definition hex_nibble :: "char \<Rightarrow> int option" where
  "hex_nibble c =
     (if is_digit c then Some (int (code c - 48))
      else if 97 \<le> code c \<and> code c \<le> 102 then Some (int (code c - 87))
      else if 65 \<le> code c \<and> code c \<le> 70 then Some (int (code c - 55)) else None)"

text \<open>The hexadecimal digits at the front, how many there are, and the rest.\<close>

fun hex_run :: "int \<Rightarrow> nat \<Rightarrow> string \<Rightarrow> int \<times> nat \<times> string" where
  "hex_run acc n [] = (acc, n, [])"
| "hex_run acc n (c # s) = (case hex_nibble c of
     None \<Rightarrow> (acc, n, c # s) | Some d \<Rightarrow> hex_run (acc * 16 + d) (Suc n) s)"

text \<open>
  The loop of \<open>parseIPv6\<close>, on groups of sixteen bits: how many more fit, those read so far, and
  where the \<open>::\<close> was.
\<close>

fun v6_loop :: "nat \<Rightarrow> int list \<Rightarrow> nat option \<Rightarrow> string \<Rightarrow> (int list \<times> nat option) option" where
  "v6_loop 0 gs ell s = (if s = [] then Some (gs, ell) else None)"
| "v6_loop (Suc k) gs ell s =
     (case hex_run 0 0 s of (acc, n, rest) \<Rightarrow>
        if n = 0 \<or> 4 < n then None
        else if take 1 rest = ''.'' then
          (if (ell = None \<and> length gs \<noteq> 6) \<or> k = 0 then None
           else (case parse_octets s of None \<Rightarrow> None
             | Some (a, b, c, d) \<Rightarrow> Some (gs @ [a * 256 + b, c * 256 + d], ell)))
        else (let gs1 = gs @ [acc] in
          case rest of
            [] \<Rightarrow> Some (gs1, ell)
          | [_] \<Rightarrow> None
          | c # d # more \<Rightarrow>
              if c \<noteq> CHR '':'' then None
              else if d = CHR '':'' then
                (if ell \<noteq> None then None
                 else if more = [] then Some (gs1, Some (length gs1))
                 else v6_loop k gs1 (Some (length gs1)) more)
              else v6_loop k gs1 ell (d # more)))"

definition v6_expand :: "int list \<times> nat option \<Rightarrow> int list option" where
  "v6_expand r = (case r of (gs, ell) \<Rightarrow>
     if length gs < 8 then
       (case ell of None \<Rightarrow> None
        | Some e \<Rightarrow> Some (take e gs @ replicate (8 - length gs) 0 @ drop e gs))
     else if ell = None then Some gs else None)"

definition groups_word :: "int list \<Rightarrow> 128 word" where
  "groups_word gs = of_int (foldl (\<lambda>n g. n * 65536 + g) 0 gs)"

definition parse_v6 :: "string \<Rightarrow> netip option" where
  "parse_v6 t = (case (case cut_at (CHR 0x25) t of None \<Rightarrow> Some (t, [])
       | Some (s, z) \<Rightarrow> if z = [] then None else Some (s, z)) of
     None \<Rightarrow> None
   | Some (s, zone) \<Rightarrow>
       if s = ''::'' then Some (V6 0 zone)
       else (case (if has_prefix s ''::'' then v6_loop 8 [] (Some 0) (drop 2 s) else v6_loop 8 [] None s) of
           None \<Rightarrow> None
         | Some r \<Rightarrow> (case v6_expand r of None \<Rightarrow> None | Some gs \<Rightarrow> Some (V6 (groups_word gs) zone))))"

fun first_of :: "char list \<Rightarrow> string \<Rightarrow> char option" where
  "first_of cs [] = None"
| "first_of cs (x # xs) = (if x \<in> set cs then Some x else first_of cs xs)"

definition ParseAddr :: "string \<Rightarrow> netip option" where
  "ParseAddr s = (case first_of [CHR ''.'', CHR '':'', CHR 0x25] s of
     None \<Rightarrow> None
   | Some c \<Rightarrow> if c = CHR ''.'' then parse_v4 s else if c = CHR '':'' then parse_v6 s else None)"

section \<open>Classification\<close>

definition Is4In6 :: "netip \<Rightarrow> bool" where
  "Is4In6 a = (case a of V4 _ \<Rightarrow> False | V6 w _ \<Rightarrow> drop_bit 32 w = 0xFFFF)"

definition Unmap :: "netip \<Rightarrow> netip" where
  "Unmap a = (case a of V4 _ \<Rightarrow> a | V6 w _ \<Rightarrow> if Is4In6 a then V4 (ucast w) else a)"

definition IsLoopback :: "netip \<Rightarrow> bool" where
  "IsLoopback a = (case Unmap a of V4 w \<Rightarrow> drop_bit 24 w = 127 | V6 w _ \<Rightarrow> w = 1)"

text \<open>\<open>addr.Prefix(n)\<close> of an IPv6 address: its top bits, without the zone.\<close>

definition v6_prefix :: "nat \<Rightarrow> 128 word \<Rightarrow> 128 word" where
  "v6_prefix n w = push_bit (128 - n) (drop_bit (128 - n) w)"

section \<open>Text\<close>

fun dec_text :: "int \<Rightarrow> string" where
  "dec_text n = (if n < 10 then [byte (48 + nat n)] else dec_text (n div 10) @ [byte (48 + nat (n mod 10))])"

fun hexadecimal :: "int \<Rightarrow> string" where
  "hexadecimal n = (if n < 16 then [byte (nat (if n < 10 then 48 + n else 87 + n))]
     else hexadecimal (n div 16) @ [byte (nat (if n mod 16 < 10 then 48 + n mod 16 else 87 + n mod 16))])"

declare dec_text.simps [simp del] hexadecimal.simps [simp del]

definition v4_text :: "32 word \<Rightarrow> string" where
  "v4_text w = (let n = uint w in
     dec_text (n div 16777216) @ ''.'' @ dec_text (n div 65536 mod 256) @ ''.'' @
     dec_text (n div 256 mod 256) @ ''.'' @ dec_text (n mod 256))"

definition groups_of :: "128 word \<Rightarrow> int list" where
  "groups_of w = map (\<lambda>i. uint w div 65536 ^ (7 - i) mod 65536) [0..<8]"

text \<open>The first longest run of two or more zero groups: where it starts and its length.\<close>

definition zero_run :: "int list \<Rightarrow> nat \<times> nat" where
  "zero_run gs = foldl (\<lambda>(st, n) i.
      let l = length (takeWhile (\<lambda>g. g = 0) (drop i gs)) in if 2 \<le> l \<and> n < l then (i, l) else (st, n))
    (8, 0) [0..<8]"

definition joined :: "string list \<Rightarrow> string" where
  "joined ts = (case ts of [] \<Rightarrow> [] | t # us \<Rightarrow> t @ concat (map (\<lambda>u. '':'' @ u) us))"

definition v6_text :: "128 word \<Rightarrow> string" where
  "v6_text w = (let gs = groups_of w in case zero_run gs of (st, n) \<Rightarrow>
     if n = 0 then joined (map hexadecimal gs)
     else joined (map hexadecimal (take st gs)) @ ''::'' @ joined (map hexadecimal (drop (st + n) gs)))"

definition addr_text :: "netip \<Rightarrow> string" where
  "addr_text a = (case a of V4 w \<Rightarrow> v4_text w
     | V6 w zone \<Rightarrow> (if Is4In6 a then ''::ffff:'' @ v4_text (ucast w) else v6_text w) @
         (if zone = [] then [] else [CHR 0x25] @ zone))"

definition prefix_text :: "nat \<Rightarrow> 128 word \<Rightarrow> string" where
  "prefix_text n w = addr_text (V6 (v6_prefix n w) []) @ ''/'' @ dec_text (int n)"

lemma Unmap_cases:
  obtains (v4) w where "Unmap a = V4 w" | (v6) w z where "Unmap a = V6 w z" "a = V6 w z" "\<not> Is4In6 a"
  by (cases a; cases "Is4In6 a") (auto simp: Unmap_def Is4In6_def)

lemma v6_prefix_cong: "drop_bit (128 - n) v = drop_bit (128 - n) w \<Longrightarrow> v6_prefix n v = v6_prefix n w"
  by (simp add: v6_prefix_def)

end
