(* ===== verification/Users.thy ===== *)
theory Users
  imports Accounts
begin

text \<open>
  The account service, \<open>internal/user/user.go\<close>: one definition per method of \<open>Service\<close>, over
  the connection of \<open>Conn\<close>.  Methods that share their name with the statement they run carry
  the suffix \<open>_service\<close>.  Random values (\<open>rand.Text\<close>, \<open>gen_random_uuid\<close>, \<open>random()\<close>) and
  the application's clock are arguments.
\<close>

section \<open>Signing in\<close>

definition RequestLogin ::
  "(string \<Rightarrow> (string \<times> string) option) \<Rightarrow> (string \<Rightarrow> string) \<Rightarrow> (string \<Rightarrow> bytes) \<Rightarrow>
   uuid \<Rightarrow> string \<Rightarrow> string \<Rightarrow> ('z, user_err + string) prog" where
  "RequestLogin parse ul H rid tok email =
     (case NormaliseEmail parse ul email of
        Inl err \<Rightarrow> State_Monad.return (Inl err)
      | Inr address \<Rightarrow> (case newToken H tok of (raw, digest) \<Rightarrow>
          in_tx (UserWrap ''begin'') (UserWrap ''commit'')
            (attempt (exec (LockLoginAddress address)) (UserWrap ''lock login address'') (\<lambda>_.
             attempt (exec (CountRecentLoginTokens address LoginBudgetWindow))
               (UserWrap ''count recent login tokens'') (\<lambda>recent.
             if recent \<ge> LoginBudget then State_Monad.return (Inl ErrLoginBudgetExceeded)
             else attempt (exec (InvalidateLoginTokensForEmail address))
               (UserWrap ''invalidate outstanding tokens'') (\<lambda>_.
             attempt (exec (CreateLoginToken rid digest address TokenTTL))
               (UserWrap ''create login token'') (\<lambda>_.
             State_Monad.return (Inr raw))))))))"

definition CompleteLogin ::
  "(string \<Rightarrow> string) \<Rightarrow> (string \<Rightarrow> bytes) \<Rightarrow> uuid \<Rightarrow> string \<Rightarrow> ('z, user_err + User) prog" where
  "CompleteLogin L H rid raw =
     (if \<not> plausibleToken raw then State_Monad.return (Inl ErrInvalidToken)
      else in_tx (UserWrap ''begin'') (UserWrap ''commit'')
        (attempt (exec (ConsumeLoginToken (hash H raw)))
           (no_rows_as ErrInvalidToken ''consume login token'') (\<lambda>address.
         attempt (exec (UpsertUserByEmail L rid address)) (UserWrap ''upsert user'') (\<lambda>row.
         State_Monad.return (Inr (fromRow row))))))"

section \<open>Looking accounts up\<close>

definition GetByID :: "uuid \<Rightarrow> ('z, user_err + User) prog" where
  "GetByID uid = attempt (exec (GetUserByID uid)) (no_rows_as ErrUserNotFound ''get user by id'')
     (\<lambda>row. State_Monad.return (Inr (fromRow row)))"

definition GetByHandle :: "(string \<Rightarrow> string) \<Rightarrow> string \<Rightarrow> ('z, user_err + User) prog" where
  "GetByHandle L handle =
     attempt (exec (GetUserByHandle L handle)) (no_rows_as ErrUserNotFound ''get user by handle'')
     (\<lambda>row. State_Monad.return (Inr (fromRow row)))"

definition RandomHandle :: "nat \<Rightarrow> uuid option \<Rightarrow> ('z, user_err + string) prog" where
  "RandomHandle pick exclude =
     attempt (exec (RandomActiveHandle pick exclude))
       (no_rows_as ErrUserNotFound ''random active handle'') (\<lambda>handle. case handle of
         None \<Rightarrow> State_Monad.return (Inl ErrUserNotFound)
       | Some h \<Rightarrow> State_Monad.return (Inr h))"

definition ByPhotoKey :: "string \<Rightarrow> ('z, user_err + User) prog" where
  "ByPhotoKey key =
     attempt (exec (GetUserByPhotoKey key)) (no_rows_as ErrUserNotFound ''get user by photo key'')
     (\<lambda>row. State_Monad.return (Inr (fromRow row)))"

section \<open>Claiming a handle\<close>

definition claimRefusal :: "uuid \<Rightarrow> ('z, user_err) prog" where
  "claimRefusal uid = do {
     r \<leftarrow> GetByID uid;
     State_Monad.return (case r of
       Inl err \<Rightarrow> err
     | Inr u \<Rightarrow> if Handle u \<noteq> [] then ErrHandleAlreadySet else ErrHandleTaken)
   }"

definition ClaimHandle_service ::
  "(string \<Rightarrow> string) \<Rightarrow> uuid \<Rightarrow> string \<Rightarrow> instant \<Rightarrow> ('z, user_err + User) prog" where
  "ClaimHandle_service L uid handle now =
     (if \<not> ValidHandle handle then State_Monad.return (Inl ErrInvalidHandle)
      else do {
        r \<leftarrow> exec (ClaimHandle L handle now uid DeletedHandleReservation);
        case r of
          Inr row \<Rightarrow> State_Monad.return (Inr (fromRow row))
        | Inl err \<Rightarrow>
            if isUniqueViolation err then State_Monad.return (Inl ErrHandleTaken)
            else if err = NoRows then do { e \<leftarrow> claimRefusal uid; State_Monad.return (Inl e) }
            else State_Monad.return (Inl (UserWrap ''claim handle'' err))
      })"

section \<open>Deleting an account\<close>

definition DeleteAccount ::
  "(string \<Rightarrow> string) \<Rightarrow> uuid \<Rightarrow> instant \<Rightarrow> ('z, user_err + string) prog" where
  "DeleteAccount L uid now =
     in_tx (UserWrap ''begin'') (UserWrap ''commit'')
       (attempt (exec (LockUserForDelete uid)) (no_rows_as ErrUserNotFound ''lock user'') (\<lambda>row.
        let u = fromRow row in
        attempt (if Handle u \<noteq> [] then exec (ReserveDeletedHandle L (Handle u) now)
                 else State_Monad.return (Inr ())) (UserWrap ''reserve handle'') (\<lambda>_.
        attempt (exec (DeleteLoginTokensForEmail L (Email u))) (UserWrap ''delete login tokens'') (\<lambda>_.
        attempt (exec (DeleteUser uid)) (UserWrap ''delete user'') (\<lambda>_.
        State_Monad.return (Inr (PhotoKey u)))))))"

section \<open>Profile and photo\<close>

definition SetDisplayName_service ::
  "(string \<Rightarrow> string) \<Rightarrow> uuid \<Rightarrow> string \<Rightarrow> ('z, user_err + User) prog" where
  "SetDisplayName_service L uid raw =
     (case NormaliseDisplayName raw of
        Inl err \<Rightarrow> State_Monad.return (Inl err)
      | Inr name \<Rightarrow>
          (let arg = (if name \<noteq> [] then Some name else None) in
           attempt (exec (SetDisplayName L uid arg)) (no_rows_as ErrUserNotFound ''set display name'')
           (\<lambda>row. State_Monad.return (Inr (fromRow row)))))"

text \<open>\<open>int32(x)\<close>: the low 32 bits, read as a signed number.\<close>

definition int32 :: "int \<Rightarrow> int" where
  "int32 x = (x + 2 ^ 31) mod 2 ^ 32 - 2 ^ 31"

definition SetPhoto_service ::
  "(string \<Rightarrow> string) \<Rightarrow> uuid \<Rightarrow> string \<Rightarrow> int \<Rightarrow> int \<Rightarrow> instant \<Rightarrow> instant \<Rightarrow>
   ('z, user_err + string) prog" where
  "SetPhoto_service L uid key w h dayStart uploadedAt =
     (let w32 = int32 w; h32 = int32 h in
      attempt (exec (SetPhoto L uid key w32 h32 dayStart uploadedAt))
        (no_rows_as ErrPhotoNotAllowed ''set photo'') (\<lambda>old. State_Monad.return (Inr old)))"

definition RemovePhoto_service :: "(string \<Rightarrow> string) \<Rightarrow> uuid \<Rightarrow> ('z, user_err + string) prog" where
  "RemovePhoto_service L uid =
     attempt (exec (RemovePhoto L uid)) (no_rows_as ErrUserNotFound ''remove photo'')
       (\<lambda>old. State_Monad.return (Inr old))"

section \<open>Purges\<close>

definition PurgeExpiredLoginTokens :: "duration \<Rightarrow> ('z, user_err + nat) prog" where
  "PurgeExpiredLoginTokens olderThan =
     attempt (exec (PurgeLoginTokens olderThan)) (UserWrap ''purge login tokens'')
       (\<lambda>n. State_Monad.return (Inr n))"

definition PurgeDeletedHandles_service :: "duration \<Rightarrow> ('z, user_err + nat) prog" where
  "PurgeDeletedHandles_service olderThan =
     attempt (exec (PurgeDeletedHandles olderThan)) (UserWrap ''purge deleted handles'')
       (\<lambda>n. State_Monad.return (Inr n))"

text \<open>Every method touches the connection and nothing else.\<close>

lemma conn_only_user [conn_only_intros]:
  "conn_only (RequestLogin parse ul H rid tok email)" "conn_only (CompleteLogin L H rid raw)"
  "conn_only (GetByID uid)" "conn_only (GetByHandle L handle)" "conn_only (RandomHandle pick x)"
  "conn_only (ByPhotoKey key)" "conn_only (claimRefusal uid)"
  "conn_only (ClaimHandle_service L uid handle now)" "conn_only (DeleteAccount L uid now)"
  "conn_only (SetDisplayName_service L uid raw)"
  "conn_only (SetPhoto_service L uid key w h dayStart uploadedAt)"
  "conn_only (RemovePhoto_service L uid)" "conn_only (PurgeExpiredLoginTokens n)"
  "conn_only (PurgeDeletedHandles_service n)"
  unfolding RequestLogin_def CompleteLogin_def GetByID_def GetByHandle_def RandomHandle_def
    ByPhotoKey_def claimRefusal_def ClaimHandle_service_def DeleteAccount_def
    SetDisplayName_service_def SetPhoto_service_def RemovePhoto_service_def
    PurgeExpiredLoginTokens_def PurgeDeletedHandles_service_def newToken_def Let_def case_prod_conv
  by (intro conn_only_intros)+

section \<open>The schema holds throughout\<close>

lemma int32_id: "- 2147483648 \<le> x \<Longrightarrow> x < 2147483648 \<Longrightarrow> int32 x = x"
  by (simp add: int32_def mod_pos_pos_trivial)

lemmas user_programs = RequestLogin_def CompleteLogin_def GetByID_def GetByHandle_def
  RandomHandle_def ByPhotoKey_def claimRefusal_def ClaimHandle_service_def DeleteAccount_def
  SetDisplayName_service_def SetPhoto_service_def RemovePhoto_service_def
  PurgeExpiredLoginTokens_def PurgeDeletedHandles_service_def

text \<open>Any invariant the statements keep, the methods keep.\<close>

lemma RequestLogin_keeps [keeps_intros]:
  assumes "\<And>e. stmt_keeps I (InvalidateLoginTokensForEmail e)"
    and "\<And>r h e t. stmt_keeps I (CreateLoginToken r h e t)"
  shows "keeps I (RequestLogin parse ul H rid tok email)"
  unfolding RequestLogin_def newToken_def Let_def case_prod_conv
  by (intro keeps_intros stmt_intros assms)

lemma CompleteLogin_keeps [keeps_intros]:
  assumes "\<And>h. stmt_keeps I (ConsumeLoginToken h)" and "\<And>r e. stmt_keeps I (UpsertUserByEmail L r e)"
  shows "keeps I (CompleteLogin L H rid raw)"
  unfolding CompleteLogin_def by (intro keeps_intros stmt_intros assms)

lemma GetByID_keeps [keeps_intros]: "keeps I (GetByID uid)"
  unfolding GetByID_def by (intro keeps_intros stmt_intros)

lemma GetByHandle_keeps [keeps_intros]: "keeps I (GetByHandle L h)"
  unfolding GetByHandle_def by (intro keeps_intros stmt_intros)

lemma RandomHandle_keeps [keeps_intros]: "keeps I (RandomHandle p x)"
  unfolding RandomHandle_def by (intro keeps_intros stmt_intros)

lemma ByPhotoKey_keeps [keeps_intros]: "keeps I (ByPhotoKey k)"
  unfolding ByPhotoKey_def by (intro keeps_intros stmt_intros)

lemma claimRefusal_keeps [keeps_intros]: "keeps I (claimRefusal uid)"
  unfolding claimRefusal_def by (intro keeps_intros)

lemma ClaimHandle_service_keeps [keeps_intros]:
  assumes "ValidHandle h \<Longrightarrow> stmt_keeps I (ClaimHandle L h now uid DeletedHandleReservation)"
  shows "keeps I (ClaimHandle_service L uid h now)"
proof (cases "ValidHandle h")
  case True
  then have "stmt_keeps I (ClaimHandle L h now uid DeletedHandleReservation)"
    by (rule assms)
  then show ?thesis
    unfolding ClaimHandle_service_def by (intro keeps_intros)
qed (simp add: ClaimHandle_service_def keeps_return)

lemma DeleteAccount_keeps [keeps_intros]:
  assumes "\<And>h. stmt_keeps I (ReserveDeletedHandle L h now)"
    and "\<And>e. stmt_keeps I (DeleteLoginTokensForEmail L e)" and "stmt_keeps I (DeleteUser uid)"
  shows "keeps I (DeleteAccount L uid now)"
  unfolding DeleteAccount_def Let_def by (intro keeps_intros stmt_intros assms)

lemma SetDisplayName_service_keeps [keeps_intros]:
  assumes "\<And>n. NormaliseDisplayName raw = Inr n \<Longrightarrow>
    stmt_keeps I (SetDisplayName L uid (if n \<noteq> [] then Some n else None))"
  shows "keeps I (SetDisplayName_service L uid raw)"
proof (cases "NormaliseDisplayName raw")
  case (Inr n)
  then have "stmt_keeps I (SetDisplayName L uid (if n \<noteq> [] then Some n else None))"
    by (rule assms)
  then show ?thesis
    unfolding SetDisplayName_service_def Let_def Inr sum.case by (intro keeps_intros)
qed (simp add: SetDisplayName_service_def keeps_return)

lemma SetPhoto_service_keeps [keeps_intros]:
  assumes "\<And>w h. stmt_keeps I (SetPhoto L uid key w h dayStart uploadedAt)"
  shows "keeps I (SetPhoto_service L uid key w h dayStart uploadedAt)"
  unfolding SetPhoto_service_def Let_def by (intro keeps_intros assms)

lemma RemovePhoto_service_keeps [keeps_intros]:
  assumes "stmt_keeps I (RemovePhoto L uid)" shows "keeps I (RemovePhoto_service L uid)"
  unfolding RemovePhoto_service_def by (intro keeps_intros assms)

lemma PurgeExpiredLoginTokens_keeps [keeps_intros]:
  assumes "stmt_keeps I (PurgeLoginTokens n)" shows "keeps I (PurgeExpiredLoginTokens n)"
  unfolding PurgeExpiredLoginTokens_def by (intro keeps_intros assms)

lemma PurgeDeletedHandles_service_keeps [keeps_intros]:
  assumes "stmt_keeps I (PurgeDeletedHandles n)" shows "keeps I (PurgeDeletedHandles_service n)"
  unfolding PurgeDeletedHandles_service_def by (intro keeps_intros assms)

end
