(* ===== verification/AccountFacts.thy ===== *)
theory AccountFacts
  imports Users
begin

text \<open>
  What the account service keeps true of the accounts, beyond the schema, and what its methods do
  to them: the life cycle of a handle, the deletion of an account, the photo's daily rule.
\<close>

section \<open>The life cycle\<close>

definition account_ok :: "user_row \<Rightarrow> bool" where
  "account_ok u =
     ((case u_handle u of
         None \<Rightarrow> u_state u = StatePendingHandle \<and> u_terms_accepted_at u = None
       | Some h \<Rightarrow> u_state u = StateActive \<and> u_terms_accepted_at u \<noteq> None \<and> ValidHandle h) \<and>
      null_or (\<lambda>n. n \<noteq> [] \<and> NormaliseDisplayName n = Inr n) (u_display_name u) \<and>
      email_shape (u_email u))"

definition accounts_ok :: "db \<Rightarrow> bool" where
  "accounts_ok d = (list_all account_ok (users d) \<and>
     list_all (\<lambda>t. email_shape (lt_email t)) (login_tokens d))"

text \<open>A statement that leaves accounts and login tokens alone keeps it.\<close>

definition leaves_accounts :: "'r stmt \<Rightarrow> bool" where
  "leaves_accounts q = (\<forall>now d. users (snd (q now d)) = users d \<and>
     login_tokens (snd (q now d)) = login_tokens d)"

lemma leaves_accounts_keeps: "leaves_accounts q \<Longrightarrow> stmt_keeps accounts_ok q"
  by (simp add: leaves_accounts_def stmt_keeps_def accounts_ok_def)

lemma accounts_ok_Invalidate: "stmt_keeps accounts_ok (InvalidateLoginTokensForEmail e)"
  by (rule stmt_keepsI) (auto simp: accounts_ok_def InvalidateLoginTokensForEmail_def list_all_iff)

lemma accounts_ok_Create:
  "email_shape e \<Longrightarrow> stmt_keeps accounts_ok (CreateLoginToken r h e t)"
  by (rule stmt_keepsI) (auto simp: accounts_ok_def CreateLoginToken_def Let_def)

lemma accounts_ok_Delete: "stmt_keeps accounts_ok (DeleteLoginTokensForEmail L e)"
  by (rule stmt_keepsI) (auto simp: accounts_ok_def DeleteLoginTokensForEmail_def list_all_iff)

lemma accounts_ok_Purge: "stmt_keeps accounts_ok (PurgeLoginTokens n)"
  by (rule stmt_keepsI) (auto simp: accounts_ok_def PurgeLoginTokens_def Let_def list_all_iff)

lemma accounts_ok_DeleteUser: "stmt_keeps accounts_ok (DeleteUser u)"
  by (rule stmt_keepsI) (auto simp: accounts_ok_def DeleteUser_def list_all_iff)

lemma accounts_ok_Reserve: "stmt_keeps accounts_ok (ReserveDeletedHandle L h t)"
  by (rule leaves_accounts_keeps) (simp add: leaves_accounts_def ReserveDeletedHandle_def Let_def)

lemma accounts_ok_update:
  assumes "update_users L P f d = Inr d'" and "accounts_ok d"
    and "\<And>u. account_ok u \<Longrightarrow> P u \<Longrightarrow> account_ok (f u)"
  shows "accounts_ok d'"
proof -
  have "list_all account_ok (map (\<lambda>u. if P u then f u else u) (users d))"
    using assms(2,3) by (intro list_all_map_upd) (auto simp: accounts_ok_def)
  then show ?thesis
    using assms(1,2) by (auto simp: update_users_def Let_def accounts_ok_def split: if_splits)
qed

lemma accounts_ok_Claim: "ValidHandle h \<Longrightarrow> stmt_keeps accounts_ok (ClaimHandle L h at u r)"
  by (rule stmt_keepsI)
    (auto simp: ClaimHandle_def Let_def account_ok_def StateActive_def split: option.splits sum.splits
      elim!: accounts_ok_update)

lemma accounts_ok_SetDisplayName:
  "null_or (\<lambda>n. n \<noteq> [] \<and> NormaliseDisplayName n = Inr n) n \<Longrightarrow>
   stmt_keeps accounts_ok (SetDisplayName L u n)"
  by (rule stmt_keepsI)
    (auto simp: SetDisplayName_def Let_def account_ok_def split: option.splits sum.splits
      elim!: accounts_ok_update)

lemma accounts_ok_SetPhoto: "stmt_keeps accounts_ok (SetPhoto L u k w h s t)"
  by (rule stmt_keepsI)
    (auto simp: SetPhoto_def Let_def account_ok_def split: option.splits sum.splits
      elim!: accounts_ok_update)

lemma accounts_ok_RemovePhoto: "stmt_keeps accounts_ok (RemovePhoto L u)"
  by (rule stmt_keepsI)
    (auto simp: RemovePhoto_def Let_def account_ok_def split: option.splits sum.splits
      elim!: accounts_ok_update)

lemma account_ok_new: "email_shape e \<Longrightarrow> account_ok (new_user r e now)"
  by (simp add: account_ok_def new_user_def StatePendingHandle_def)

lemma ConsumeLoginToken_email:
  assumes "accounts_ok d" and "fst (ConsumeLoginToken h now d) = Inr e"
  shows "email_shape e" and "accounts_ok (snd (ConsumeLoginToken h now d))"
  using assms
  by (auto simp: ConsumeLoginToken_def Let_def accounts_ok_def list_all_iff find_Some_iff
      split: option.splits)

lemma accounts_ok_Consume: "stmt_keeps accounts_ok (ConsumeLoginToken h)"
  by (rule stmt_keepsI)
    (auto simp: ConsumeLoginToken_def Let_def accounts_ok_def list_all_iff split: option.splits)

lemma accounts_ok_Upsert: "email_shape e \<Longrightarrow> stmt_keeps accounts_ok (UpsertUserByEmail L r e)"
  by (rule stmt_keepsI)
    (auto simp: UpsertUserByEmail_def accounts_ok_def account_ok_new split: option.splits)

lemmas accounts_stmts = accounts_ok_Invalidate accounts_ok_Delete accounts_ok_Purge
  accounts_ok_DeleteUser accounts_ok_Reserve accounts_ok_SetPhoto accounts_ok_RemovePhoto
  accounts_ok_Consume

section \<open>The methods keep it\<close>

lemma RequestLogin_accounts_ok: "keeps accounts_ok (RequestLogin parse ul H rid tok email)"
proof (cases "NormaliseEmail parse ul email")
  case (Inr a)
  then have "stmt_keeps accounts_ok (CreateLoginToken rid h a t)" for h t
    by (intro accounts_ok_Create NormaliseEmail_shape)
  then show ?thesis
    unfolding RequestLogin_def Inr sum.case newToken_def Let_def case_prod_conv
    by (intro keeps_intros stmt_intros accounts_stmts)
qed (simp add: RequestLogin_def keeps_return)

text \<open>The second half of \<open>CompleteLogin\<close> runs only with an address a token was issued to.\<close>

lemma keeps_consume:
  assumes "\<And>e. email_shape e \<Longrightarrow> keeps accounts_ok (k e)"
  shows "keeps accounts_ok (attempt (exec (ConsumeLoginToken h)) g k)"
proof (rule keepsI)
  fix w :: "'a conn_scheme" assume I: "accounts_ok (c_db w)"
  show "accounts_ok (c_db (snd (run_state (attempt (exec (ConsumeLoginToken h)) g k) w)))"
  proof (cases rule: exec_cases [of "ConsumeLoginToken h" w])
    case (fault e fs)
    then show ?thesis using I by (simp add: run_attempt)
  next
    case (ran fs)
    have I': "accounts_ok (snd (ConsumeLoginToken h (c_now w) (c_db w)))"
      using I by (intro stmt_keepsD [OF accounts_ok_Consume])
    show ?thesis
    proof (cases "fst (ConsumeLoginToken h (c_now w) (c_db w))")
      case (Inr e)
      then have "keeps accounts_ok (k e)"
        using ConsumeLoginToken_email(1) [OF I] by (intro assms)
      then show ?thesis
        using I' keepsD [of accounts_ok "k e"
          "w\<lparr>c_faults := fs, c_db := snd (ConsumeLoginToken h (c_now w) (c_db w))\<rparr>"]
        by (simp add: run_attempt ran Inr)
    qed (use I' in \<open>simp add: run_attempt ran\<close>)
  qed
qed

lemma CompleteLogin_accounts_ok: "keeps accounts_ok (CompleteLogin L H rid raw)"
  unfolding CompleteLogin_def by (intro keeps_consume keeps_intros accounts_ok_Upsert)

lemma ClaimHandle_accounts_ok: "keeps accounts_ok (ClaimHandle_service L uid h now)"
  by (intro keeps_intros accounts_ok_Claim)

lemma DeleteAccount_accounts_ok: "keeps accounts_ok (DeleteAccount L uid now)"
  by (intro keeps_intros accounts_stmts)

lemma SetDisplayName_accounts_ok: "keeps accounts_ok (SetDisplayName_service L uid raw)"
  by (intro keeps_intros accounts_ok_SetDisplayName) (auto dest: display_name.idempotent)

lemma SetPhoto_accounts_ok: "keeps accounts_ok (SetPhoto_service L uid k w h s t)"
  by (intro keeps_intros accounts_stmts)

lemma RemovePhoto_accounts_ok: "keeps accounts_ok (RemovePhoto_service L uid)"
  by (intro keeps_intros accounts_stmts)

lemma PurgeExpiredLoginTokens_accounts_ok: "keeps accounts_ok (PurgeExpiredLoginTokens n)"
  by (intro keeps_intros accounts_stmts)

lemma PurgeDeletedHandles_accounts_ok: "keeps accounts_ok (PurgeDeletedHandles_service n)"
  by (intro keeps_intros leaves_accounts_keeps)
    (simp add: leaves_accounts_def PurgeDeletedHandles_def Let_def)

lemmas account_methods = RequestLogin_accounts_ok CompleteLogin_accounts_ok
  ClaimHandle_accounts_ok DeleteAccount_accounts_ok SetDisplayName_accounts_ok
  SetPhoto_accounts_ok RemovePhoto_accounts_ok PurgeExpiredLoginTokens_accounts_ok
  PurgeDeletedHandles_accounts_ok GetByID_keeps GetByHandle_keeps RandomHandle_keeps ByPhotoKey_keeps

end
