(* ===== verification/Mood.thy ===== *)
theory Mood
  imports AccountFacts
begin

text \<open>
  \<open>internal/mood\<close>: the closed vocabulary, the note's normal form, and the service that sets the
  current mood and appends it to the history in one transaction.
\<close>

section \<open>Vocabulary and note\<close>

datatype mood_err = ErrInvalidMood | ErrInvalidNote | ErrNoMood | MoodWrap string pg_error

definition labels :: "(string \<times> string) list" where
  "labels = [(''feliz'', ''feliz''), (''triste'', ''triste''), (''tranquilo'', ''tranquilo''),
     (''ansioso'', ''ansioso''), (''enamorado'', ''enamorado''), (''cansado'', ''cansado''),
     (''enojado'', ''enojado''), (''aburrido'', ''aburrido''), (''inspirado'', ''inspirado''),
     (''nostalgico'', ''nost'' @ [CHR 0xC3, CHR 0xA1] @ ''lgico''), (''fiesta'', ''de fiesta''),
     (''perdido'', ''perdido'')]"

definition AllKeys :: "string list" where
  "AllKeys = [''feliz'', ''triste'', ''tranquilo'', ''ansioso'', ''enamorado'', ''cansado'',
     ''enojado'', ''aburrido'', ''inspirado'', ''nostalgico'', ''fiesta'', ''perdido'']"

definition Valid :: "string \<Rightarrow> bool" where
  "Valid k = (map_of labels k \<noteq> None)"

definition Label :: "string \<Rightarrow> string" where
  "Label k = (case map_of labels k of None \<Rightarrow> [] | Some l \<Rightarrow> l)"

definition maxNoteRunes :: nat where "maxNoteRunes = 60"

definition NormaliseNote :: "string \<Rightarrow> mood_err + string" where
  "NormaliseNote raw =
     (let trimmed = trim_space raw in
      if trimmed = [] then Inr []
      else if rune_count trimmed > maxNoteRunes then Inl ErrInvalidNote
      else if \<not> Line trimmed then Inl ErrInvalidNote
      else Inr trimmed)"

interpretation note_text: user_text NormaliseNote Line 0 60
  by unfold_locales
    (auto simp: NormaliseNote_def Let_def maxNoteRunes_def trimmed_trim_space
      trim_space_trimmed Line_imp_Block rune_count_def split: if_splits)

lemma Valid_iff: "Valid k \<longleftrightarrow> k \<in> set AllKeys"
  by (auto simp: Valid_def labels_def AllKeys_def)

lemma AllKeys_vocabulary: "AllKeys = mood_vocabulary"
  by (simp add: AllKeys_def mood_vocabulary_def)

section \<open>The service\<close>

record Mood =
  md_UserID :: uuid
  md_Key :: string
  md_Note :: string
  md_UpdatedAt :: instant

definition mood_fromRow :: "mood_row \<Rightarrow> Mood" where
  "mood_fromRow row =
     (let m = \<lparr>md_UserID = m_user_id row, md_Key = m_mood_key row, md_Note = [],
            md_UpdatedAt = m_updated_at row\<rparr>
      in case m_note row of None \<Rightarrow> m | Some n \<Rightarrow> m\<lparr>md_Note := n\<rparr>)"

text \<open>A nil pointer is NULL: an empty note is stored as no note.\<close>

definition note_ptr :: "string \<Rightarrow> string option" where
  "note_ptr note = (if note \<noteq> [] then Some note else None)"

definition SetMood :: "uuid \<Rightarrow> uuid \<Rightarrow> string \<Rightarrow> string \<Rightarrow> ('z, mood_err + Mood) prog" where
  "SetMood rid userID key rawNote =
     (if \<not> Valid key then State_Monad.return (Inl ErrInvalidMood)
      else case NormaliseNote rawNote of
        Inl err \<Rightarrow> State_Monad.return (Inl err)
      | Inr note \<Rightarrow> in_tx (MoodWrap ''begin'') (MoodWrap ''commit'')
          (let notePtr = note_ptr note in
           attempt (exec (UpsertMood userID key notePtr)) (MoodWrap ''upsert mood'') (\<lambda>row.
           attempt (exec (InsertMoodHistory rid userID key notePtr)) (MoodWrap ''insert mood history'') (\<lambda>_.
           State_Monad.return (Inr (mood_fromRow row))))))"

definition CurrentMood :: "uuid \<Rightarrow> ('z, mood_err + Mood) prog" where
  "CurrentMood userID =
     attempt (exec (GetMoodByUserID userID))
       (\<lambda>err. if err = NoRows then ErrNoMood else MoodWrap ''get mood'' err)
       (\<lambda>row. State_Monad.return (Inr (mood_fromRow row)))"

lemma conn_only_mood [conn_only_intros]:
  "conn_only (SetMood rid u k n)" "conn_only (CurrentMood u)"
  unfolding SetMood_def CurrentMood_def Let_def by (intro conn_only_intros)+

lemma SetMood_keeps [keeps_intros]:
  "(\<And>k n. stmt_keeps I (UpsertMood u k n)) \<Longrightarrow> (\<And>k n. stmt_keeps I (InsertMoodHistory rid u k n)) \<Longrightarrow>
   keeps I (SetMood rid u k n)"
  unfolding SetMood_def Let_def by (intro keeps_intros)

lemma CurrentMood_keeps [keeps_intros]: "keeps I (CurrentMood u)"
  unfolding CurrentMood_def by (intro keeps_intros stmt_intros)

section \<open>The mood and its history agree\<close>

definition mood_of_history :: "mood_history_row \<Rightarrow> mood_row" where
  "mood_of_history h = \<lparr>m_user_id = h_user_id h, m_mood_key = h_mood_key h, m_note = h_note h,
     m_updated_at = h_at h\<rparr>"

definition history_of :: "uuid \<Rightarrow> mood_history_row list \<Rightarrow> mood_history_row list" where
  "history_of u hs = filter (\<lambda>h. h_user_id h = u) hs"

text \<open>
  Every current mood is the last entry of its user's history, nobody has a history and no mood,
  and every stored note is in normal form.
\<close>

definition stored_note :: "string option \<Rightarrow> bool" where
  "stored_note n = null_or (\<lambda>s. s \<noteq> [] \<and> NormaliseNote s = Inr s) n"

definition mood_log :: "db \<Rightarrow> bool" where
  "mood_log d = ((\<forall>m\<in>set (moods d). history_of (m_user_id m) (mood_history d) \<noteq> [] \<and>
       m = mood_of_history (last (history_of (m_user_id m) (mood_history d)))) \<and>
     (\<forall>h\<in>set (mood_history d). h_user_id h \<in> m_user_id ` set (moods d) \<and> stored_note (h_note h)))"

lemma mood_log_same:
  "moods d' = moods d \<Longrightarrow> mood_history d' = mood_history d \<Longrightarrow> mood_log d' = mood_log d"
  by (simp add: mood_log_def)

definition new_mood :: "uuid \<Rightarrow> string \<Rightarrow> string option \<Rightarrow> instant \<Rightarrow> mood_row" where
  "new_mood u k n now = \<lparr>m_user_id = u, m_mood_key = k, m_note = n, m_updated_at = now\<rparr>"

lemma UpsertMood_Inr:
  assumes "fst (UpsertMood u k n now d) = Inr row"
  shows "row = new_mood u k n now"
    and "set (moods (snd (UpsertMood u k n now d))) =
      insert (new_mood u k n now) {m \<in> set (moods d). m_user_id m \<noteq> u}"
    and "mood_history (snd (UpsertMood u k n now d)) = mood_history d"
  using assms by (auto simp: UpsertMood_def Let_def new_mood_def image_iff split: if_splits)

lemma find_replaced:
  "u \<in> k ` set xs \<Longrightarrow> k r = u \<Longrightarrow> find (\<lambda>x. k x = u) (map (\<lambda>x. if k x = u then r else x) xs) = Some r"
  by (induction xs) auto

lemma UpsertMood_found:
  assumes "k \<in> set mood_vocabulary" "u \<in> user_ids d"
  obtains ms where "UpsertMood u k p now d = (Inr (new_mood u k p now), d\<lparr>moods := ms\<rparr>)"
    and "find (\<lambda>m. m_user_id m = u) ms = Some (new_mood u k p now)"
proof (cases "u \<in> m_user_id ` set (moods d)")
  case True
  have "m_user_id (new_mood u k p now) = u" by (simp add: new_mood_def)
  with True have "find (\<lambda>m. m_user_id m = u)
      (map (\<lambda>m. if m_user_id m = u then new_mood u k p now else m) (moods d)) = Some (new_mood u k p now)"
    by (rule find_replaced)
  then show ?thesis
    using True assms by (intro that) (auto simp: UpsertMood_def Let_def new_mood_def)
next
  case False
  then have none: "find (\<lambda>m. m_user_id m = u) (moods d) = None"
    by (auto simp: find_None_all)
  show ?thesis
    using False assms none
    by (intro that [of "moods d @ [new_mood u k p now]"])
      (auto simp: UpsertMood_def Let_def new_mood_def find_append)
qed

lemma InsertMoodHistory_Inr:
  assumes "fst (InsertMoodHistory rid u k n now d) = Inr x"
  shows "snd (InsertMoodHistory rid u k n now d) = d\<lparr>mood_history := mood_history d @
     [\<lparr>h_id = rid, h_user_id = u, h_mood_key = k, h_note = n, h_at = now\<rparr>]\<rparr>"
  using assms by (auto simp: InsertMoodHistory_def Let_def split: if_splits)

lemma SetMood_Inr:
  assumes "run_state (SetMood rid u k raw) w = (Inr m, w')"
  obtains n where "Valid k" and "NormaliseNote raw = Inr n"
    and "m = mood_fromRow (new_mood u k (note_ptr n) (c_now w))"
    and "set (moods (c_db w')) = insert (new_mood u k (note_ptr n) (c_now w))
      {m \<in> set (moods (c_db w)). m_user_id m \<noteq> u}"
    and "mood_history (c_db w') = mood_history (c_db w) @ [\<lparr>h_id = rid, h_user_id = u, h_mood_key = k,
      h_note = (note_ptr n), h_at = c_now w\<rparr>]"
proof -
  from assms obtain n where n: "Valid k" "NormaliseNote raw = Inr n"
    by (cases "NormaliseNote raw") (auto simp: SetMood_def split: if_splits)
  let ?n = "note_ptr n"
  from assms show ?thesis
    unfolding SetMood_def n(2) Let_def using n(1)
  proof (simp only: not_True_eq_False if_False sum.case, elim in_tx_Inr attempt_exec_Inr)
    fix fs wb fs' row gs x hs
    let ?w1 = "w\<lparr>c_faults := fs\<rparr>"
    let ?d1 = "snd (UpsertMood u k ?n (c_now ?w1) (c_db ?w1))"
    let ?w2 = "?w1\<lparr>c_db := ?d1, c_faults := gs\<rparr>"
    assume up: "fst (UpsertMood u k ?n (c_now ?w1) (c_db ?w1)) = Inr row"
      and ins: "fst (InsertMoodHistory rid u k ?n (c_now ?w2) (c_db ?w2)) = Inr x"
      and ret: "run_state (State_Monad.return (Inr (mood_fromRow row))) (?w2\<lparr>c_db :=
        snd (InsertMoodHistory rid u k ?n (c_now ?w2) (c_db ?w2)), c_faults := hs\<rparr>) = (Inr m, wb)"
      and w': "w' = wb\<lparr>c_faults := fs'\<rparr>"
    have m: "m = mood_fromRow row" and db: "c_db w' = ?d1\<lparr>mood_history := mood_history ?d1 @
        [\<lparr>h_id = rid, h_user_id = u, h_mood_key = k, h_note = ?n, h_at = c_now w\<rparr>]\<rparr>"
      using ret w' InsertMoodHistory_Inr [OF ins] by auto
    show thesis
      by (rule that [OF n]) (use UpsertMood_Inr [OF up] in \<open>simp_all add: m db\<close>)
  qed
qed

lemma SetMood_Inl:
  assumes "run_state (SetMood rid u k raw) w = (Inl e, w')"
  shows "c_db w' = c_db w"
  using assms by (auto simp: SetMood_def in_tx_Inl split: if_splits sum.splits)

lemma stored_note_normalised:
  "NormaliseNote raw = Inr n \<Longrightarrow> stored_note (note_ptr n)"
  by (auto simp: stored_note_def note_ptr_def dest: note_text.idempotent)

lemma history_of_append [simp]:
  "history_of u (hs @ [h]) = history_of u hs @ (if h_user_id h = u then [h] else [])"
  by (simp add: history_of_def)

lemma SetMood_mood_log: "keeps mood_log (SetMood rid u k raw)"
proof (rule keepsI)
  fix w :: "'a conn_scheme" assume log: "mood_log (c_db w)"
  obtain r w' where run: "run_state (SetMood rid u k raw) w = (r, w')" by fastforce
  show "mood_log (c_db (snd (run_state (SetMood rid u k raw) w)))"
  proof (cases r)
    case (Inl e)
    with run SetMood_Inl log show ?thesis by (metis snd_conv)
  next
    case (Inr m)
    from run [unfolded Inr] show ?thesis
    proof (rule SetMood_Inr)
      fix n
      assume n: "NormaliseNote raw = Inr n"
        and moods: "set (moods (c_db w')) = insert (new_mood u k (note_ptr n) (c_now w))
          {m \<in> set (moods (c_db w)). m_user_id m \<noteq> u}"
        and hist: "mood_history (c_db w') = mood_history (c_db w) @ [\<lparr>h_id = rid, h_user_id = u,
          h_mood_key = k, h_note = (note_ptr n), h_at = c_now w\<rparr>]"
      have "mood_log (c_db w')"
        using log stored_note_normalised [OF n]
        unfolding mood_log_def moods hist
        by (auto simp: new_mood_def mood_of_history_def image_iff)
      then show ?thesis using run by simp
    qed
  qed
qed

text \<open>The mood a page shows and the mood history never disagree: setting a mood, whatever it
  is given and whichever of its calls fails, keeps every current mood equal to the last entry of
  its user's history, with the note in its normal form.\<close>

theorem mood_is_last_of_history:
  assumes "mood_log (c_db w)"
  shows "mood_log (c_db (snd (run_state (SetMood rid u k raw) w)))"
  by (rule keepsD [OF SetMood_mood_log assms])

lemma mood_is_last_of_history_witness:
  "mood_log (c_db (snd (run_state (SetMood 9 3 ''feliz'' ''hola'')
     \<lparr>c_db = empty_db\<lparr>users := [new_user 3 ''ana@example.com'' 0]\<rparr>, c_now = 5, c_faults = []\<rparr>)))"
  by (rule mood_is_last_of_history) (simp add: mood_log_def empty_db_def)

text \<open>Setting a mood, with nothing failing, on an account that exists: the returned mood is the one
  the page shows next, and the history grows by exactly one entry; an unknown key or a note that
  has no normal form changes nothing.\<close>

theorem SetMood_outcome:
  assumes "c_faults w = []" and "u \<in> user_ids (c_db w)" and "rid \<notin> h_id ` set (mood_history (c_db w))"
  shows "case run_state (SetMood rid u k raw) w of (r, w') \<Rightarrow>
    if \<not> Valid k then r = Inl ErrInvalidMood \<and> w' = w
    else case NormaliseNote raw of
      Inl e \<Rightarrow> r = Inl e \<and> w' = w
    | Inr n \<Rightarrow> r = Inr \<lparr>md_UserID = u, md_Key = k, md_Note = n, md_UpdatedAt = c_now w\<rparr> \<and>
        length (mood_history (c_db w')) = Suc (length (mood_history (c_db w))) \<and>
        run_state (CurrentMood u) w' = (r, w')"
proof (cases "Valid k")
  case False
  then show ?thesis by (simp add: SetMood_def)
next
  case True
  then have key: "k \<in> set mood_vocabulary" by (simp add: Valid_iff AllKeys_vocabulary)
  show ?thesis
  proof (cases "NormaliseNote raw")
    case (Inl e)
    then show ?thesis using True by (simp add: SetMood_def)
  next
    case (Inr n)
    let ?n = "note_ptr n"
    obtain ms where up: "UpsertMood u k ?n (c_now w) (c_db w) =
        (Inr (new_mood u k ?n (c_now w)), (c_db w)\<lparr>moods := ms\<rparr>)"
      and found: "find (\<lambda>m. m_user_id m = u) ms = Some (new_mood u k ?n (c_now w))"
      using UpsertMood_found [OF key assms(2)] by blast
    have ins: "InsertMoodHistory rid u k ?n (c_now w) ((c_db w)\<lparr>moods := ms\<rparr>) =
        (Inr (), (c_db w)\<lparr>moods := ms, mood_history := mood_history (c_db w) @
          [\<lparr>h_id = rid, h_user_id = u, h_mood_key = k, h_note = ?n, h_at = c_now w\<rparr>]\<rparr>)"
      using key assms(2,3) by (simp add: InsertMoodHistory_def Let_def user_ids_def)
    have row: "mood_fromRow (new_mood u k ?n (c_now w)) =
        \<lparr>md_UserID = u, md_Key = k, md_Note = n, md_UpdatedAt = c_now w\<rparr>"
      by (simp add: mood_fromRow_def new_mood_def note_ptr_def)
    show ?thesis
      using True Inr assms(1) up ins found row
      by (simp add: Let_def SetMood_def in_tx_def run_simps CurrentMood_def GetMoodByUserID_def)
  qed
qed

lemma SetMood_outcome_witness:
  "fst (run_state (SetMood 9 3 ''feliz'' '' hola '')
     \<lparr>c_db = empty_db\<lparr>users := [new_user 3 ''ana@example.com'' 0]\<rparr>, c_now = 5, c_faults = []\<rparr>) =
   Inr \<lparr>md_UserID = 3, md_Key = ''feliz'', md_Note = ''hola'', md_UpdatedAt = 5\<rparr>"
proof -
  have "trim_space '' hola '' = ''hola''" by code_simp
  moreover have "Line ''hola''" "rune_count ''hola'' = 4"
    using Line_printable [of "''hola''"] by (simp_all add: code_def)
  ultimately have "NormaliseNote '' hola '' = Inr ''hola''"
    by (simp add: NormaliseNote_def maxNoteRunes_def)
  then show ?thesis
    using SetMood_outcome [of "\<lparr>c_db = empty_db\<lparr>users := [new_user 3 ''ana@example.com'' 0]\<rparr>,
      c_now = 5, c_faults = []\<rparr>" 3 9 "''feliz''" "'' hola ''"]
    by (simp add: empty_db_def new_user_def user_ids_def Valid_iff AllKeys_def split: prod.splits)
qed

end
