(* ===== verification/Guestbook.thy ===== *)
theory Guestbook
  imports AccountFacts
begin

text \<open>
  \<open>internal/guestbook\<close>: the normal form of an entry, signing a page, listing it for visitors and
  for its owner, and hiding and showing entries.
\<close>

section \<open>Entries\<close>

datatype guestbook_err = ErrInvalidBody | ErrOwnPage | ErrEntryNotFound | GuestbookWrap string pg_error

definition PageLimit :: int where "PageLimit = 20"
definition OwnerLimit :: int where "OwnerLimit = 50"
definition maxBodyRunes :: nat where "maxBodyRunes = 280"

definition NormaliseBody :: "string \<Rightarrow> guestbook_err + string" where
  "NormaliseBody raw =
     (let body = trim_space (crlf_to_lf raw) in
      if \<not> utf8_valid body then Inl ErrInvalidBody
      else let n = rune_count body in
        if n = 0 \<or> n > maxBodyRunes then Inl ErrInvalidBody
        else if \<not> Block body then Inl ErrInvalidBody
        else Inr body)"

lemma crlf_free: "CR \<notin> set s \<Longrightarrow> crlf_to_lf s = s"
  by (induction s rule: crlf_to_lf.induct) auto

lemma Block_no_CR: "Block s \<Longrightarrow> CR \<notin> set s"
  using Block_control_byte [of s CR] by (auto simp: control_byte_def)

interpretation body_text: user_text NormaliseBody Block 1 280
  by unfold_locales
    (auto simp: NormaliseBody_def Let_def maxBodyRunes_def trimmed_trim_space trim_space_trimmed
      crlf_free Block_no_CR BlockD(1) split: if_splits)

record Entry =
  e_ID :: uuid
  e_AuthorHandle :: string
  e_Body :: string
  e_CreatedAt :: instant
  e_Hidden :: bool

definition stateVisible :: string where "stateVisible = ''visible''"
definition stateHidden :: string where "stateHidden = ''hidden''"

section \<open>The service\<close>

definition Sign :: "uuid \<Rightarrow> uuid \<Rightarrow> uuid \<Rightarrow> string \<Rightarrow> ('z, guestbook_err + Entry) prog" where
  "Sign rid pageUserID authorUserID rawBody =
     (if pageUserID = authorUserID then State_Monad.return (Inl ErrOwnPage)
      else case NormaliseBody rawBody of
        Inl err \<Rightarrow> State_Monad.return (Inl err)
      | Inr body \<Rightarrow>
          attempt (exec (CreateGuestbookEntry rid pageUserID authorUserID body))
            (GuestbookWrap ''create guestbook entry'') (\<lambda>row.
          State_Monad.return (Inr \<lparr>e_ID = g_id row, e_AuthorHandle = [], e_Body = g_body row,
            e_CreatedAt = g_created_at row, e_Hidden = False\<rparr>)))"

definition entry_of :: "(guestbook_row \<Rightarrow> bool) \<Rightarrow> guestbook_row \<times> string option \<Rightarrow> Entry" where
  "entry_of hidden r = (case r of (row, author) \<Rightarrow>
     let e = \<lparr>e_ID = g_id row, e_AuthorHandle = [], e_Body = g_body row,
           e_CreatedAt = g_created_at row, e_Hidden = hidden row\<rparr>
     in case author of None \<Rightarrow> e | Some h \<Rightarrow> e\<lparr>e_AuthorHandle := h\<rparr>)"

definition Visible :: "uuid \<Rightarrow> int \<Rightarrow> ('z, guestbook_err + Entry list) prog" where
  "Visible pageUserID limit =
     attempt (exec (ListVisibleGuestbookEntries pageUserID (int32 limit)))
       (GuestbookWrap ''list guestbook entries'')
       (\<lambda>rows. State_Monad.return (Inr (map (entry_of (\<lambda>_. False)) rows)))"

definition Own :: "uuid \<Rightarrow> int \<Rightarrow> ('z, guestbook_err + Entry list) prog" where
  "Own pageUserID limit =
     attempt (exec (ListOwnGuestbookEntries pageUserID (int32 limit)))
       (GuestbookWrap ''list own guestbook entries'')
       (\<lambda>rows. State_Monad.return (Inr (map (entry_of (\<lambda>row. g_state row = stateHidden)) rows)))"

definition setState :: "uuid \<Rightarrow> uuid \<Rightarrow> string \<Rightarrow> ('z, guestbook_err + unit) prog" where
  "setState pageUserID entryID st =
     attempt (exec (SetGuestbookEntryState st entryID pageUserID))
       (GuestbookWrap ''set guestbook entry state'')
       (\<lambda>n. if n = 0 then State_Monad.return (Inl ErrEntryNotFound) else State_Monad.return (Inr ()))"

definition Hide :: "uuid \<Rightarrow> uuid \<Rightarrow> ('z, guestbook_err + unit) prog" where
  "Hide pageUserID entryID = setState pageUserID entryID stateHidden"

definition Show :: "uuid \<Rightarrow> uuid \<Rightarrow> ('z, guestbook_err + unit) prog" where
  "Show pageUserID entryID = setState pageUserID entryID stateVisible"

lemma conn_only_guestbook [conn_only_intros]:
  "conn_only (Sign rid p a b)" "conn_only (Visible p n)" "conn_only (Own p n)" "conn_only (Hide p e)"
  "conn_only (Show p e)"
  unfolding Sign_def Visible_def Own_def Hide_def Show_def setState_def by (intro conn_only_intros)+

lemma Visible_keeps [keeps_intros]: "keeps I (Visible p n)"
  unfolding Visible_def by (intro keeps_intros stmt_intros)

lemma Own_keeps [keeps_intros]: "keeps I (Own p n)"
  unfolding Own_def by (intro keeps_intros stmt_intros)

lemma Hide_keeps [keeps_intros]:
  "stmt_keeps I (SetGuestbookEntryState stateHidden e p) \<Longrightarrow> keeps I (Hide p e)"
  unfolding Hide_def setState_def by (intro keeps_intros)

lemma Show_keeps [keeps_intros]:
  "stmt_keeps I (SetGuestbookEntryState stateVisible e p) \<Longrightarrow> keeps I (Show p e)"
  unfolding Show_def setState_def by (intro keeps_intros)

lemma Sign_keeps [keeps_intros]:
  assumes "\<And>b. NormaliseBody raw = Inr b \<Longrightarrow> stmt_keeps I (CreateGuestbookEntry rid p a b)"
  shows "keeps I (Sign rid p a raw)"
proof (cases "NormaliseBody raw")
  case (Inr b)
  show ?thesis unfolding Sign_def Inr sum.case by (intro keeps_intros assms [OF Inr])
qed (auto simp: Sign_def keeps_return)

section \<open>What is stored\<close>

text \<open>Every stored entry is in normal form and not by the page's own owner.\<close>

definition entries_ok :: "db \<Rightarrow> bool" where
  "entries_ok d = list_all (\<lambda>g. NormaliseBody (g_body g) = Inr (g_body g) \<and>
     g_page_user_id g \<noteq> g_author_user_id g) (guestbook_entries d)"

lemma entries_ok_same: "guestbook_entries d' = guestbook_entries d \<Longrightarrow> entries_ok d' = entries_ok d"
  by (simp add: entries_ok_def)

lemma entries_ok_Create:
  "NormaliseBody raw = Inr b \<Longrightarrow> stmt_keeps entries_ok (CreateGuestbookEntry rid p a b)"
  by (rule stmt_keepsI)
    (auto simp: CreateGuestbookEntry_def Let_def entries_ok_def guestbook_check_def
      dest: body_text.idempotent)

lemma entries_ok_SetState: "stmt_keeps entries_ok (SetGuestbookEntryState st e p)"
  by (rule stmt_keepsI)
    (auto simp: SetGuestbookEntryState_def Let_def entries_ok_def list_all_iff)

lemma Sign_entries_ok: "keeps entries_ok (Sign rid p a raw)"
  by (intro keeps_intros entries_ok_Create)

lemma Hide_entries_ok: "keeps entries_ok (Hide p e)" and Show_entries_ok: "keeps entries_ok (Show p e)"
  by (intro keeps_intros entries_ok_SetState)+

section \<open>What is listed\<close>

lemma join_authors_complete:
  assumes "references_ok d" and "set gs \<subseteq> set (guestbook_entries d)"
  shows "map fst (join_authors d gs) = gs"
  using assms(2)
proof (induction gs)
  case (Cons g gs)
  have "g_author_user_id g \<in> u_id ` set (users d)"
    using assms(1) Cons.prems by (auto simp: references_ok_def user_ids_def)
  then have "find (\<lambda>u. u_id u = g_author_user_id g) (users d) \<noteq> None"
    by (auto simp: find_None_all)
  then show ?case
    using Cons by (auto simp: join_authors_def author_handle_def)
qed (simp add: join_authors_def)

lemma set_newest_first [simp]: "set (newest_first gs) = set gs"
  and length_newest_first [simp]: "length (newest_first gs) = length gs"
  by (simp_all add: newest_first_def)

lemma newest_first_sorted: "sorted (map (\<lambda>g. - g_created_at g) (newest_first gs))"
  by (simp add: newest_first_def)

text \<open>What a page shows is a prefix of its visible entries, newest first.\<close>

lemma Visible_rows:
  assumes "references_ok (c_db w)" and "c_faults w = []" and "0 \<le> limit" "limit < 2 ^ 31"
  shows "\<exists>es. run_state (Visible p limit) w = (Inr es, w) \<and>
    map e_ID es = map g_id (take (nat limit) (newest_first
      (filter (\<lambda>g. g_page_user_id g = p \<and> g_state g = ''visible'') (guestbook_entries (c_db w)))))"
proof -
  let ?gs = "newest_first (filter (\<lambda>g. g_page_user_id g = p \<and> g_state g = ''visible'')
    (guestbook_entries (c_db w)))"
  have "e_ID (entry_of f r) = g_id (fst r)" for f r
    by (cases r) (auto simp: entry_of_def Let_def split: option.splits)
  then have "map e_ID (map (entry_of f) rs) = map g_id (map fst rs)" for f rs
    by simp
  moreover have "map fst (take n (join_authors (c_db w) ?gs)) = take n ?gs" for n
    using join_authors_complete [OF assms(1), of ?gs] by (auto simp: take_map [symmetric])
  ultimately show ?thesis
    using assms(2-4)
    by (simp add: Visible_def run_simps ListVisibleGuestbookEntries_def int32_id del: map_map)
qed

text \<open>C24: A page shows exactly its newest visible entries: at most \<open>limit\<close> of them, as many as there
  are when there are fewer, newest first, and no visible entry left out is newer than one shown.\<close>

theorem Visible_newest:
  assumes "db_ok L (c_db w)" and "c_faults w = []" and "0 \<le> limit" "limit < 2 ^ 31"
  shows "\<exists>es gs. run_state (Visible p limit) w = (Inr es, w) \<and> map e_ID es = map g_id gs \<and>
    length gs = min (nat limit) (length (filter (\<lambda>g. g_page_user_id g = p \<and> g_state g = ''visible'')
      (guestbook_entries (c_db w)))) \<and>
    sorted (map (\<lambda>g. - g_created_at g) gs) \<and>
    (\<forall>g\<in>set gs. g \<in> set (guestbook_entries (c_db w)) \<and> g_page_user_id g = p \<and> g_state g = ''visible'') \<and>
    (\<forall>g\<in>set (guestbook_entries (c_db w)). g_page_user_id g = p \<longrightarrow> g_state g = ''visible'' \<longrightarrow>
       g \<notin> set gs \<longrightarrow> (\<forall>h\<in>set gs. g_created_at g \<le> g_created_at h))"
proof -
  let ?vs = "filter (\<lambda>g. g_page_user_id g = p \<and> g_state g = ''visible'') (guestbook_entries (c_db w))"
  let ?all = "newest_first ?vs"
  let ?gs = "take (nat limit) ?all"
  have "references_ok (c_db w)" using assms(1) by (simp add: db_ok_def)
  then obtain es where es: "run_state (Visible p limit) w = (Inr es, w)" "map e_ID es = map g_id ?gs"
    using Visible_rows [OF _ assms(2-4), of p] by blast
  have wrt: "sorted_wrt (\<lambda>x y. - g_created_at x \<le> - g_created_at y) ?all"
    using newest_first_sorted [of ?vs] by (simp add: sorted_map)
  then have "sorted (map (\<lambda>g. - g_created_at g) ?gs)"
    unfolding sorted_map by (rule sorted_wrt_take)
  moreover have "g_created_at g \<le> g_created_at h" if "g \<in> set ?all" "g \<notin> set ?gs" "h \<in> set ?gs" for g h
    using sorted_take_rest [OF wrt that] by simp
  moreover have "set ?gs \<subseteq> set ?vs"
    using set_take_subset [of "nat limit" ?all] by simp
  ultimately show ?thesis
    using es by (intro exI [of _ es] exI [of _ ?gs]) auto
qed

definition demo_entry :: "uuid \<Rightarrow> string \<Rightarrow> instant \<Rightarrow> guestbook_row" where
  "demo_entry i st t = \<lparr>g_id = i, g_page_user_id = 3, g_author_user_id = 4, g_body = ''hola'',
     g_state = st, g_created_at = t\<rparr>"

definition demo_book :: conn where
  "demo_book = \<lparr>c_db = empty_db\<lparr>users := [new_user 3 ''ana@example.com'' 0, new_user 4 ''beto@example.com'' 0],
     guestbook_entries := [demo_entry 1 ''visible'' 10, demo_entry 2 ''hidden'' 20, demo_entry 5 ''visible'' 30]\<rparr>,
     c_now = 40, c_faults = []\<rparr>"

lemma demo_book_ok: "db_ok id (c_db demo_book)"
proof -
  have "rune_count ''hola'' = 4" using Line_printable [of "''hola''"] by (simp add: code_def)
  then show ?thesis
    by (simp add: demo_book_def demo_entry_def db_ok_def table_defs empty_db_def new_user_def
        user_check_def guestbook_check_def)
qed

lemma Visible_newest_witness:
  "\<exists>es. run_state (Visible 3 20) demo_book = (Inr es, demo_book) \<and> length es = 2"
proof -
  obtain es and gs :: "guestbook_row list" where "run_state (Visible 3 20) demo_book = (Inr es, demo_book)" "map e_ID es = map g_id gs"
    "length gs = min (nat 20) (length (filter (\<lambda>g. g_page_user_id g = 3 \<and> g_state g = ''visible'')
      (guestbook_entries (c_db demo_book))))"
  proof -
    have "c_faults demo_book = []" "(0::int) \<le> 20" "(20::int) < 2 ^ 31" by (simp_all add: demo_book_def)
    from Visible_newest [OF demo_book_ok this, of 3] show thesis by (elim exE conjE) (rule that; assumption)
  qed
  moreover from this(2) have "length es = length gs" by (metis length_map)
  ultimately show ?thesis
    by (simp add: demo_book_def demo_entry_def)
qed

section \<open>Moderation\<close>

definition moderated :: "uuid \<Rightarrow> uuid \<Rightarrow> string \<Rightarrow> guestbook_row \<Rightarrow> guestbook_row" where
  "moderated p e st g = (if g_id g = e \<and> g_page_user_id g = p then g\<lparr>g_state := st\<rparr> else g)"

lemma SetState_eq:
  assumes "list_all guestbook_check (guestbook_entries d)" and "st = ''visible'' \<or> st = ''hidden''"
  shows "SetGuestbookEntryState st e p now d =
    (Inr (length (filter (\<lambda>g. g_id g = e \<and> g_page_user_id g = p) (guestbook_entries d))),
     d\<lparr>guestbook_entries := map (moderated p e st) (guestbook_entries d)\<rparr>)"
proof -
  have "list_all guestbook_check (map (moderated p e st) (guestbook_entries d))"
    using assms by (intro list_all_map_upd) (auto simp: moderated_def guestbook_check_def)
  moreover have "(\<lambda>g. if g_id g = e \<and> g_page_user_id g = p then g\<lparr>g_state := st\<rparr> else g) = moderated p e st"
    by (simp add: fun_eq_iff moderated_def)
  ultimately show ?thesis by (simp add: SetGuestbookEntryState_def Let_def)
qed

text \<open>C25: Only the owner of the page an entry is on can hide it: hiding an entry that is not on the
  given page is \<open>ErrEntryNotFound\<close> and changes nothing; hiding one that is takes exactly that entry
  out of what the page shows.\<close>

theorem Hide_outcome:
  assumes "db_ok L (c_db w)" and "c_faults w = []"
  shows "case run_state (Hide p e) w of (r, w') \<Rightarrow>
    if list_ex (\<lambda>g. g_id g = e \<and> g_page_user_id g = p) (guestbook_entries (c_db w))
    then r = Inr () \<and>
      filter (\<lambda>g. g_state g = ''visible'') (guestbook_entries (c_db w')) =
      filter (\<lambda>g. g_state g = ''visible'' \<and> \<not> (g_id g = e \<and> g_page_user_id g = p)) (guestbook_entries (c_db w))
    else r = Inl ErrEntryNotFound \<and> w' = w"
proof -
  let ?gs = "guestbook_entries (c_db w)"
  have chk: "list_all guestbook_check ?gs"
    using assms(1) by (simp add: db_ok_def guestbook_ok_def)
  note set = SetState_eq [OF chk, of "''hidden''" e p "c_now w", simplified]
  have vis: "filter (\<lambda>g. g_state g = ''visible'') (map (moderated p e ''hidden'') gs) =
      filter (\<lambda>g. g_state g = ''visible'' \<and> \<not> (g_id g = e \<and> g_page_user_id g = p)) gs" for gs
    by (induction gs) (auto simp: moderated_def)
  have none: "map (moderated p e ''hidden'') ?gs = ?gs"
    "filter (\<lambda>g. g_id g = e \<and> g_page_user_id g = p) ?gs = []"
    if "\<not> list_ex (\<lambda>g. g_id g = e \<and> g_page_user_id g = p) ?gs"
    using that by (auto simp: list_ex_iff moderated_def filter_empty_conv intro!: map_idI)
  show ?thesis
  proof (cases "list_ex (\<lambda>g. g_id g = e \<and> g_page_user_id g = p) ?gs")
    case True
    then have "filter (\<lambda>g. g_id g = e \<and> g_page_user_id g = p) ?gs \<noteq> []"
      by (auto simp: list_ex_iff filter_empty_conv)
    then show ?thesis
      using True assms(2) set vis [of ?gs]
      by (simp add: Hide_def setState_def run_simps stateHidden_def)
  next
    case False
    then show ?thesis
      using assms(2) set none [OF False]
      by (simp add: Hide_def setState_def run_simps stateHidden_def)
  qed
qed

lemma Hide_outcome_witness:
  "fst (run_state (Hide 4 1) demo_book) = Inl ErrEntryNotFound \<and> fst (run_state (Hide 3 1) demo_book) = Inr ()"
proof -
  have q: "c_faults demo_book = []" by (simp add: demo_book_def)
  have "list_ex (\<lambda>g. g_id g = 1 \<and> g_page_user_id g = 3) (guestbook_entries (c_db demo_book))"
    "\<not> list_ex (\<lambda>g. g_id g = 1 \<and> g_page_user_id g = 4) (guestbook_entries (c_db demo_book))"
    by (simp_all add: demo_book_def demo_entry_def)
  then show ?thesis
    using Hide_outcome [OF demo_book_ok q, where p = 4 and e = 1]
      Hide_outcome [OF demo_book_ok q, where p = 3 and e = 1]
    by (simp split: prod.splits)
qed

text \<open>Signing a page: one's own page is refused, an entry without a normal form is refused, and
  otherwise exactly one visible entry with the normal form of the text is added to the page.\<close>

theorem Sign_outcome:
  assumes "c_faults w = []" and "p \<in> user_ids (c_db w)" "a \<in> user_ids (c_db w)"
    and "rid \<notin> g_id ` set (guestbook_entries (c_db w))"
  shows "run_state (Sign rid p a raw) w =
    (if p = a then (Inl ErrOwnPage, w)
     else case NormaliseBody raw of Inl e \<Rightarrow> (Inl e, w)
     | Inr b \<Rightarrow> (Inr \<lparr>e_ID = rid, e_AuthorHandle = [], e_Body = b, e_CreatedAt = c_now w, e_Hidden = False\<rparr>,
         w\<lparr>c_db := (c_db w)\<lparr>guestbook_entries := guestbook_entries (c_db w) @
           [\<lparr>g_id = rid, g_page_user_id = p, g_author_user_id = a, g_body = b, g_state = ''visible'',
             g_created_at = c_now w\<rparr>]\<rparr>\<rparr>))"
proof (cases "NormaliseBody raw")
  case (Inr b)
  then have "1 \<le> rune_count b" "rune_count b \<le> 280"
    using body_text.sound [OF Inr] by auto
  then show ?thesis
    using Inr assms
    by (simp add: Sign_def run_simps CreateGuestbookEntry_def Let_def guestbook_check_def)
qed (simp add: Sign_def)

lemma Sign_outcome_witness: "fst (run_state (Sign 9 3 3 ''hola'') demo_book) = Inl ErrOwnPage"
  using Sign_outcome [of demo_book 3 3 9 "''hola''"]
  by (simp add: demo_book_def demo_entry_def empty_db_def user_ids_def new_user_def)

end
