(* ===== verification/Style.thy ===== *)
theory Style
  imports Schema
begin

text \<open>
  \<open>internal/style\<close>: the colour slots and their defaults, the font registry, the parser every
  colour goes through, and the stylesheet built from an owner's choices.
\<close>

section \<open>Colours\<close>

definition hex_any :: "char \<Rightarrow> bool" where
  "hex_any c = (48 \<le> code c \<and> code c \<le> 57 \<or> 97 \<le> code c \<and> code c \<le> 102 \<or>
     65 \<le> code c \<and> code c \<le> 70)"

text \<open>The regular expression \<open>^#[0-9a-fA-F]{6}$\<close>.\<close>

definition hexRE :: "string \<Rightarrow> bool" where
  "hexRE s = (case s of [] \<Rightarrow> False | c # ds \<Rightarrow> c = CHR ''#'' \<and> length ds = 6 \<and> list_all hex_any ds)"

text \<open>\<open>strconv.ParseUint(ds, 16, 32)\<close> and \<open>fmt.Sprintf("%06x", n)\<close>.\<close>

definition hex_val :: "char \<Rightarrow> nat" where
  "hex_val c = (if code c \<le> 57 then code c - 48 else if code c \<le> 70 then code c - 55 else code c - 87)"

definition ParseUint16 :: "string \<Rightarrow> nat option" where
  "ParseUint16 ds = (if ds = [] \<or> \<not> list_all hex_any ds then None
     else let n = foldl (\<lambda>n c. n * 16 + hex_val c) 0 ds in if n < 2 ^ 32 then Some n else None)"

definition hex_digit :: "nat \<Rightarrow> char" where
  "hex_digit n = byte (if n < 10 then 48 + n else 87 + n)"

fun hex_text :: "nat \<Rightarrow> string" where
  "hex_text n = (if n < 16 then [hex_digit n] else hex_text (n div 16) @ [hex_digit (n mod 16)])"

definition pad_zero :: "nat \<Rightarrow> string \<Rightarrow> string" where
  "pad_zero k s = replicate (k - length s) (CHR ''0'') @ s"

definition ParseHex :: "string \<Rightarrow> string option" where
  "ParseHex s = (if \<not> hexRE s then None
     else case ParseUint16 (drop 1 s) of None \<Rightarrow> None | Some n \<Rightarrow> Some (''#'' @ pad_zero 6 (hex_text n)))"

definition ValidHex :: "string \<Rightarrow> bool" where
  "ValidHex s = (ParseHex s \<noteq> None)"

declare hex_text.simps [simp del]

lemma hex_val_less: "hex_any c \<Longrightarrow> hex_val c < 16"
  by (auto simp: hex_any_def hex_val_def)

lemma byte_eq_iff: "m < 256 \<Longrightarrow> n < 256 \<Longrightarrow> byte m = byte n \<longleftrightarrow> m = n"
  by (metis code_byte)

lemma hex_digit_val: "hex_any c \<Longrightarrow> hex_digit (hex_val c) = lower_byte c"
proof -
  assume "hex_any c"
  then have "code (hex_digit (hex_val c)) = code (lower_byte c)"
    by (auto simp: hex_any_def hex_digit_def hex_val_def code_lower_byte)
  then show ?thesis by simp
qed

lemma hex_digit_0 [simp]: "hex_digit 0 = CHR ''0''"
proof -
  have "code (hex_digit 0) = code (CHR ''0'')" by (simp add: hex_digit_def) (simp add: code_def)
  then show ?thesis by (simp only: code_eq_iff)
qed

lemma hex_text_small [simp]: "n < 16 \<Longrightarrow> hex_text n = [hex_digit n]"
  by (simp add: hex_text.simps)

lemma hex_text_step: "0 < m \<Longrightarrow> v < 16 \<Longrightarrow> hex_text (m * 16 + v) = hex_text m @ [hex_digit v]"
  by (subst hex_text.simps) simp

lemma pad_zero_snoc: "0 < k \<Longrightarrow> pad_zero (Suc k) (s @ [c]) = pad_zero k s @ [c]"
  by (simp add: pad_zero_def)

lemma hex_text_parse:
  "ds \<noteq> [] \<Longrightarrow> list_all hex_any ds \<Longrightarrow>
   pad_zero (length ds) (hex_text (foldl (\<lambda>n c. n * 16 + hex_val c) 0 ds)) = map lower_byte ds"
proof (induction ds rule: rev_induct)
  case (snoc c ds)
  let ?m = "foldl (\<lambda>n c. n * 16 + hex_val c) 0 ds"
  have c: "hex_val c < 16" "hex_digit (hex_val c) = lower_byte c"
    using snoc.prems(2) hex_val_less hex_digit_val by auto
  show ?case
  proof (cases "ds = []")
    case True
    then show ?thesis using c by (simp add: pad_zero_def)
  next
    case False
    then have IH: "pad_zero (length ds) (hex_text ?m) = map lower_byte ds"
      using snoc by simp
    show ?thesis
    proof (cases "?m = 0")
      case True
      have "hex_text (?m * 16 + hex_val c) = [lower_byte c]" using True c by simp
      moreover have "map lower_byte ds = replicate (length ds) (CHR ''0'')"
        using IH True False by (simp add: pad_zero_def replicate_append_same [symmetric] del: replicate_append_same)
          (metis Suc_pred length_greater_0_conv replicate_Suc replicate_append_same)
      ultimately show ?thesis by (simp add: pad_zero_def)
    next
      case nz: False
      then show ?thesis
        using c IH False by (simp add: hex_text_step pad_zero_snoc)
    qed
  qed
qed simp

lemma foldl_hex_bound:
  "list_all hex_any ds \<Longrightarrow> foldl (\<lambda>n c. n * 16 + hex_val c) 0 ds < 16 ^ length ds"
proof (induction ds rule: rev_induct)
  case (snoc c ds)
  then have "foldl (\<lambda>n c. n * 16 + hex_val c) 0 ds + 1 \<le> 16 ^ length ds" "hex_val c < 16"
    using hex_val_less by auto
  then have "(foldl (\<lambda>n c. n * 16 + hex_val c) 0 ds + 1) * 16 \<le> 16 ^ length ds * 16"
    by (intro mult_right_mono) auto
  then show ?case using \<open>hex_val c < 16\<close> by simp
qed simp

text \<open>What the parser builds from the number is the input in lower case.\<close>

lemma ParseHex_eq [code]: "ParseHex s = (if hexRE s then Some (map lower_byte s) else None)"
proof (cases "hexRE s")
  case True
  then obtain ds where s: "s = CHR ''#'' # ds" "length ds = 6" "list_all hex_any ds"
    by (auto simp: hexRE_def split: list.splits)
  have "foldl (\<lambda>n c. n * 16 + hex_val c) 0 ds < 16 ^ 6"
    using foldl_hex_bound [OF s(3)] s(2) by simp
  also have "(16::nat) ^ 6 < 2 ^ 32" by simp
  finally have "foldl (\<lambda>n c. n * 16 + hex_val c) 0 ds < 2 ^ 32" .
  moreover have "lower_byte (CHR ''#'') = CHR ''#''"
    by (simp add: lower_byte_def code_def)
  moreover have "ds \<noteq> []" using s(2) by auto
  ultimately show ?thesis
    using True s hex_text_parse [of ds] by (simp add: ParseHex_def ParseUint16_def Let_def)
qed (simp add: ParseHex_def)

lemma hex_any_lower: "hex_any c \<Longrightarrow> hex_char (lower_byte c)"
  by (auto simp: hex_any_def hex_char_def code_lower_byte)

lemma ParseHex_format: "ParseHex s = Some c \<Longrightarrow> hex_color c"
proof -
  assume "ParseHex s = Some c"
  then have "hexRE s" "c = map lower_byte s" by (auto simp: ParseHex_eq split: if_splits)
  moreover have "lower_byte (CHR ''#'') = CHR ''#''" by (simp add: lower_byte_def code_def)
  ultimately show ?thesis
    using hex_any_lower by (auto simp: hexRE_def hex_color_def list_all_iff split: list.splits)
qed

lemma hex_char_any: "hex_char c \<Longrightarrow> hex_any c \<and> lower_byte c = c"
  by (auto simp: hex_char_def hex_any_def lower_byte_def)

lemma ParseHex_id: "hex_color c \<Longrightarrow> ParseHex c = Some c"
proof -
  assume "hex_color c"
  then obtain ds where c: "c = CHR ''#'' # ds" "length ds = 6" "\<forall>x\<in>set ds. hex_char x"
    by (auto simp: hex_color_def list_all_iff split: list.splits)
  have "map lower_byte ds = ds" using c(3) hex_char_any by (intro map_idI) blast
  moreover have "lower_byte (CHR ''#'') = CHR ''#''" by (simp add: lower_byte_def code_def)
  moreover have "list_all hex_any ds" using c(3) hex_char_any by (auto simp: list_all_iff)
  ultimately show ?thesis using c by (simp add: ParseHex_eq hexRE_def)
qed

lemma ParseHex_idem: "ParseHex s = Some c \<Longrightarrow> ParseHex c = Some c"
  by (rule ParseHex_id [OF ParseHex_format])

section \<open>Slots and defaults\<close>

record Slot =
  sl_Key :: string
  sl_Property :: string
  sl_Label :: string

definition slots :: "Slot list" where
  "slots = [
     \<lparr>sl_Key = ''bg'', sl_Property = ''--s-bg'', sl_Label = ''Fondo''\<rparr>,
     \<lparr>sl_Key = ''sheet'', sl_Property = ''--s-sheet'', sl_Label = ''Hoja''\<rparr>,
     \<lparr>sl_Key = ''text'', sl_Property = ''--s-text'', sl_Label = ''Texto''\<rparr>,
     \<lparr>sl_Key = ''link'', sl_Property = ''--s-link'', sl_Label = ''Links''\<rparr>,
     \<lparr>sl_Key = ''name'', sl_Property = ''--s-name'', sl_Label = ''Nombre''\<rparr>,
     \<lparr>sl_Key = ''barbg'', sl_Property = ''--s-bar-bg'', sl_Label = ''Barras de t'' @ [CHR 0xC3] @ [CHR 0xAD] @ ''tulo''\<rparr>,
     \<lparr>sl_Key = ''barfg'', sl_Property = ''--s-bar-fg'', sl_Label = ''Texto de las barras''\<rparr>]"

definition Slots :: "Slot list" where
  "Slots = slots"

definition style_moods :: "(string \<times> (string \<times> string)) list" where
  "style_moods = [
     (''feliz'', (''#fff4cc'', ''#5c4a00'')),
     (''triste'', (''#dbe6f2'', ''#22344a'')),
     (''tranquilo'', (''#dff2ea'', ''#1f4a3a'')),
     (''ansioso'', (''#fde3d0'', ''#5c2e00'')),
     (''enamorado'', (''#fbdce6'', ''#5c1f34'')),
     (''cansado'', (''#e6e2f2'', ''#382f5c'')),
     (''enojado'', (''#f6d3d3'', ''#5c1a1a'')),
     (''aburrido'', (''#ececec'', ''#3a3a3a'')),
     (''inspirado'', (''#d9f2d0'', ''#23491a'')),
     (''nostalgico'', (''#f0e0cc'', ''#4a3620'')),
     (''fiesta'', (''#f2d0f2'', ''#4a1a4a'')),
     (''perdido'', (''#d6d6d6'', ''#2b2b2b'')),
     (''none'', (''#f4f4f4'', ''#222222''))]"

definition paper :: string where "paper = ''#fefdfa''"
definition ink :: string where "ink = ''#292620''"

definition Default :: "string \<Rightarrow> string \<Rightarrow> string" where
  "Default slot moodKey =
     (case map_of style_moods moodKey of None \<Rightarrow> []
      | Some (bg, fg) \<Rightarrow>
          if slot = ''bg'' then bg
          else if slot = ''sheet'' \<or> slot = ''barfg'' then paper
          else if slot = ''text'' then ink
          else if slot = ''link'' \<or> slot = ''name'' \<or> slot = ''barbg'' then fg
          else [])"

section \<open>Fonts\<close>

record FontFile =
  ff_Weight :: nat
  ff_Name :: string

record Font =
  f_Key :: string
  f_Label :: string
  f_Stack :: string
  f_Files :: "FontFile list"

definition quoted :: "string \<Rightarrow> string" where
  "quoted s = [CHR 0x22] @ s @ [CHR 0x22]"

definition fonts :: "Font list" where
  "fonts = [
     \<lparr>f_Key = ''verdana'', f_Label = ''Verdana'',
       f_Stack = ''Verdana, Geneva, '' @ quoted ''DejaVu Sans'' @ '', '' @ quoted ''r-verdana'' @
         '', sans-serif'',
       f_Files = [\<lparr>ff_Weight = 400, ff_Name = ''verdana-regular.2b93f3.woff2''\<rparr>,
         \<lparr>ff_Weight = 700, ff_Name = ''verdana-bold.c39cf9.woff2''\<rparr>]\<rparr>,
     \<lparr>f_Key = ''trebuchet'', f_Label = ''Trebuchet'',
       f_Stack = quoted ''Trebuchet MS'' @ '', '' @ quoted ''Lucida Grande'' @ '', '' @
         quoted ''r-trebuchet'' @ '', sans-serif'',
       f_Files = [\<lparr>ff_Weight = 400, ff_Name = ''trebuchet-regular.92117c.woff2''\<rparr>,
         \<lparr>ff_Weight = 700, ff_Name = ''trebuchet-bold.8e483a.woff2''\<rparr>]\<rparr>,
     \<lparr>f_Key = ''arial'', f_Label = ''Arial'',
       f_Stack = ''Arial, Helvetica, '' @ quoted ''r-arial'' @ '', sans-serif'',
       f_Files = [\<lparr>ff_Weight = 400, ff_Name = ''arial-regular.5e8744.woff2''\<rparr>,
         \<lparr>ff_Weight = 700, ff_Name = ''arial-bold.6c49ee.woff2''\<rparr>]\<rparr>,
     \<lparr>f_Key = ''georgia'', f_Label = ''Georgia'',
       f_Stack = ''Georgia, '' @ quoted ''r-georgia'' @ '', serif'',
       f_Files = [\<lparr>ff_Weight = 400, ff_Name = ''georgia-regular.147d0c.woff2''\<rparr>,
         \<lparr>ff_Weight = 700, ff_Name = ''georgia-bold.98cb1f.woff2''\<rparr>]\<rparr>,
     \<lparr>f_Key = ''times'', f_Label = ''Times'',
       f_Stack = quoted ''Times New Roman'' @ '', Times, '' @ quoted ''r-times'' @ '', serif'',
       f_Files = [\<lparr>ff_Weight = 400, ff_Name = ''times-regular.a27fa8.woff2''\<rparr>,
         \<lparr>ff_Weight = 700, ff_Name = ''times-bold.bdfa09.woff2''\<rparr>]\<rparr>,
     \<lparr>f_Key = ''tahoma'', f_Label = ''Tahoma'',
       f_Stack = ''Tahoma, Geneva, '' @ quoted ''r-tahoma'' @ '', sans-serif'',
       f_Files = [\<lparr>ff_Weight = 400, ff_Name = ''tahoma-regular.5106a8.woff2''\<rparr>,
         \<lparr>ff_Weight = 700, ff_Name = ''tahoma-bold.b3b1bc.woff2''\<rparr>]\<rparr>,
     \<lparr>f_Key = ''courier'', f_Label = ''Courier'',
       f_Stack = quoted ''Courier New'' @ '', Courier, '' @ quoted ''r-courier'' @ '', monospace'',
       f_Files = [\<lparr>ff_Weight = 400, ff_Name = ''courier-regular.54ed37.woff2''\<rparr>,
         \<lparr>ff_Weight = 700, ff_Name = ''courier-bold.8e218f.woff2''\<rparr>]\<rparr>,
     \<lparr>f_Key = ''comic'', f_Label = ''Comic'',
       f_Stack = quoted ''Comic Sans MS'' @ '', '' @ quoted ''r-comic'' @ '', cursive'',
       f_Files = [\<lparr>ff_Weight = 400, ff_Name = ''comic-regular.28eec8.woff2''\<rparr>,
         \<lparr>ff_Weight = 700, ff_Name = ''comic-bold.fb07f2.woff2''\<rparr>]\<rparr>,
     \<lparr>f_Key = ''impact'', f_Label = ''Impact'',
       f_Stack = ''Impact, '' @ quoted ''r-impact'' @ '', sans-serif'',
       f_Files = [\<lparr>ff_Weight = 400, ff_Name = ''impact-regular.20ba96.woff2''\<rparr>]\<rparr>,
     \<lparr>f_Key = ''pixel'', f_Label = ''Pixel 8 bits'',
       f_Stack = quoted ''r-pixel'' @ '', monospace'',
       f_Files = [\<lparr>ff_Weight = 400, ff_Name = ''pixel-regular.48d76f.woff2''\<rparr>]\<rparr>,
     \<lparr>f_Key = ''terminal'', f_Label = ''Terminal'',
       f_Stack = quoted ''r-terminal'' @ '', monospace'',
       f_Files = [\<lparr>ff_Weight = 400, ff_Name = ''terminal-regular.cd3869.woff2''\<rparr>]\<rparr>,
     \<lparr>f_Key = ''script'', f_Label = ''Cursiva'',
       f_Stack = quoted ''r-script'' @ '', cursive'',
       f_Files = [\<lparr>ff_Weight = 400, ff_Name = ''script-regular.90d292.woff2''\<rparr>]\<rparr>,
     \<lparr>f_Key = ''marker'', f_Label = ''Marcador'',
       f_Stack = quoted ''r-marker'' @ '', cursive'',
       f_Files = [\<lparr>ff_Weight = 400, ff_Name = ''marker-regular.d8228f.woff2''\<rparr>]\<rparr>,
     \<lparr>f_Key = ''typewriter'', f_Label = ''M'' @ [CHR 0xC3] @ [CHR 0xA1] @ ''quina de escribir'',
       f_Stack = quoted ''r-typewriter'' @ '', '' @ quoted ''Courier New'' @ '', monospace'',
       f_Files = [\<lparr>ff_Weight = 400, ff_Name = ''typewriter-regular.317376.woff2''\<rparr>]\<rparr>,
     \<lparr>f_Key = ''gothic'', f_Label = ''G'' @ [CHR 0xC3] @ [CHR 0xB3] @ ''tica'',
       f_Stack = quoted ''r-gothic'' @ '', serif'',
       f_Files = [\<lparr>ff_Weight = 400, ff_Name = ''gothic-regular.6d4789.woff2''\<rparr>]\<rparr>,
     \<lparr>f_Key = ''round'', f_Label = ''Redonda'',
       f_Stack = quoted ''r-round'' @ '', sans-serif'',
       f_Files = [\<lparr>ff_Weight = 400, ff_Name = ''round-regular.5d7960.woff2''\<rparr>,
         \<lparr>ff_Weight = 700, ff_Name = ''round-bold.39e40b.woff2''\<rparr>]\<rparr>]"

definition Fonts :: "Font list" where
  "Fonts = fonts"

definition Family :: "Font \<Rightarrow> string" where
  "Family f = ''r-'' @ f_Key f"

definition FontByKey :: "string \<Rightarrow> Font option" where
  "FontByKey key = find (\<lambda>f. f_Key f = key) fonts"

section \<open>Styles\<close>

text \<open>\<open>Colors\<close> is Go's map as its list of entries; a nil time is \<^const>\<open>None\<close>.\<close>

record Style =
  Colors :: "(string \<times> string) list"
  HeadFont :: string
  BodyFont :: string
  OwnMoodBox :: bool
  UpdatedAt :: "instant option"

definition zero_style :: Style where
  "zero_style = \<lparr>Colors = [], HeadFont = [], BodyFont = [], OwnMoodBox = False, UpdatedAt = None\<rparr>"

definition IsDefault :: "Style \<Rightarrow> bool" where
  "IsDefault s = (length (Colors s) = 0 \<and> HeadFont s = [] \<and> BodyFont s = [] \<and> \<not> OwnMoodBox s)"

text \<open>\<open>maps.Equal\<close>: the same entries, whatever their order.\<close>

definition maps_equal :: "(string \<times> string) list \<Rightarrow> (string \<times> string) list \<Rightarrow> bool" where
  "maps_equal a b = (length a = length b \<and> list_all (\<lambda>(k, v). map_of b k = Some v) a)"

definition Equal :: "Style \<Rightarrow> Style \<Rightarrow> bool" where
  "Equal s t = (maps_equal (Colors s) (Colors t) \<and> HeadFont s = HeadFont t \<and>
     BodyFont s = BodyFont t \<and> OwnMoodBox s = OwnMoodBox t)"

definition parsed :: "(string \<times> string) list \<Rightarrow> string \<Rightarrow> string option" where
  "parsed colors key = (case map_of colors key of None \<Rightarrow> None | Some c \<Rightarrow> ParseHex c)"

definition HeadFontProperty :: string where "HeadFontProperty = ''--s-font-head''"
definition BodyFontProperty :: string where "BodyFontProperty = ''--s-font-body''"
definition TextSoftProperty :: string where "TextSoftProperty = ''--s-text-soft''"
definition textSoft :: string where
  "textSoft = ''color-mix(in oklab, var(--s-text) 79%, var(--s-sheet))''"

definition css_decl :: "string \<Rightarrow> string \<Rightarrow> string" where
  "css_decl property v = property @ '': '' @ v @ '';''"

definition css_decls :: "Style \<Rightarrow> string list" where
  "css_decls s =
     column (\<lambda>slot. map_option (css_decl (sl_Property slot)) (parsed (Colors s) (sl_Key slot))) slots @
     (case FontByKey (HeadFont s) of None \<Rightarrow> [] | Some f \<Rightarrow> [css_decl HeadFontProperty (f_Stack f)]) @
     (case FontByKey (BodyFont s) of None \<Rightarrow> [] | Some f \<Rightarrow> [css_decl BodyFontProperty (f_Stack f)])"

definition CSS :: "Style \<Rightarrow> string" where
  "CSS s =
     (let decls = css_decls s in
      if decls = [] then []
      else let hasText = parsed (Colors s) ''text'' \<noteq> None; hasSheet = parsed (Colors s) ''sheet'' \<noteq> None;
               all = (if hasText \<or> hasSheet then decls @ [css_decl TextSoftProperty textSoft] else decls)
        in ''body {'' @ [LF] @ concat (map (\<lambda>d. [TAB] @ d @ [LF]) all) @ ''}'' @ [LF])"

section \<open>What the stylesheet can contain\<close>

definition theme_properties :: "string list" where
  "theme_properties = map sl_Property slots @ [HeadFontProperty, BodyFontProperty, TextSoftProperty]"

definition theme_value :: "string \<Rightarrow> bool" where
  "theme_value v = (hex_color v \<or> v \<in> f_Stack ` set fonts \<or> v = textSoft)"

lemma parsed_format: "parsed m k = Some c \<Longrightarrow> hex_color c"
  by (auto simp: parsed_def ParseHex_format split: option.splits)

lemma FontByKey_stack: "FontByKey k = Some f \<Longrightarrow> f_Stack f \<in> f_Stack ` set fonts"
  by (auto simp: FontByKey_def dest!: find_Some_in)

lemma css_decls_shape:
  "d \<in> set (css_decls s) \<Longrightarrow> \<exists>p v. d = css_decl p v \<and> p \<in> set theme_properties \<and> theme_value v"
  by (auto simp: css_decls_def set_column theme_properties_def theme_value_def
      dest!: parsed_format split: option.splits) (metis FontByKey_stack)+

text \<open>C26: No text of a user reaches a page's stylesheet: whatever the style holds, the stylesheet is
  empty or a block of declarations, each giving one of the theme's properties a six-digit colour, a
  font stack of the registry or the fixed secondary-text expression.\<close>

theorem CSS_only_theme_values:
  "CSS s = [] \<or> (\<exists>ds. ds \<noteq> [] \<and>
     CSS s = ''body {'' @ [LF] @ concat (map (\<lambda>(p, v). [TAB] @ css_decl p v @ [LF]) ds) @ ''}'' @ [LF] \<and>
     list_all (\<lambda>(p, v). p \<in> set theme_properties \<and> theme_value v) ds)"
proof (cases "css_decls s = []")
  case False
  let ?all = "if parsed (Colors s) ''text'' \<noteq> None \<or> parsed (Colors s) ''sheet'' \<noteq> None
    then css_decls s @ [css_decl TextSoftProperty textSoft] else css_decls s"
  have "\<exists>ds. ?all = map (\<lambda>(p, v). css_decl p v) ds \<and>
      list_all (\<lambda>(p, v). p \<in> set theme_properties \<and> theme_value v) ds"
  proof -
    have "\<exists>ds. xs = map (\<lambda>(p, v). css_decl p v) ds \<and>
        list_all (\<lambda>(p, v). p \<in> set theme_properties \<and> theme_value v) ds"
      if "\<forall>d\<in>set xs. \<exists>p v. d = css_decl p v \<and> p \<in> set theme_properties \<and> theme_value v" for xs
      using that
    proof (induction xs)
      case (Cons x xs)
      then obtain p v ds where "x = css_decl p v" "p \<in> set theme_properties" "theme_value v"
        "xs = map (\<lambda>(p, v). css_decl p v) ds"
        "list_all (\<lambda>(p, v). p \<in> set theme_properties \<and> theme_value v) ds"
        by auto
      then show ?case by (intro exI [of _ "(p, v) # ds"]) simp
    qed simp
    moreover have "\<forall>d\<in>set ?all. \<exists>p v. d = css_decl p v \<and> p \<in> set theme_properties \<and> theme_value v"
      using css_decls_shape [of _ s] by (auto simp: theme_properties_def theme_value_def)
    ultimately show ?thesis by blast
  qed
  then obtain ds where ds: "?all = map (\<lambda>(p, v). css_decl p v) ds"
    "list_all (\<lambda>(p, v). p \<in> set theme_properties \<and> theme_value v) ds" by blast
  have "CSS s = ''body {'' @ [LF] @ concat (map (\<lambda>d. [TAB] @ d @ [LF]) ?all) @ ''}'' @ [LF]"
    using False by (simp add: CSS_def Let_def)
  also have "concat (map (\<lambda>d. [TAB] @ d @ [LF]) ?all) =
      concat (map (\<lambda>(p, v). [TAB] @ css_decl p v @ [LF]) ds)"
    unfolding ds(1) by (simp add: comp_def case_prod_unfold)
  finally have css: "CSS s = ''body {'' @ [LF] @
      concat (map (\<lambda>(p, v). [TAB] @ css_decl p v @ [LF]) ds) @ ''}'' @ [LF]" .
  have "ds \<noteq> []" using ds(1) False by (auto split: if_splits)
  with css ds(2) show ?thesis by blast
qed (simp add: CSS_def)

end
