(* ===== verification/UserStyle.thy ===== *)
theory UserStyle
  imports Style Users
begin

text \<open>
  \<open>internal/user/style.go\<close>: reading and publishing an account's page style.  A Go pointer into
  the row is its pair of reading and writing the column.
\<close>

section \<open>Columns\<close>

definition colorColumn :: "page_style_row \<Rightarrow> string \<Rightarrow> string option option" where
  "colorColumn row key =
     (if key = ''bg'' then Some (ps_bg row)
      else if key = ''sheet'' then Some (ps_sheet row)
      else if key = ''text'' then Some (ps_text_color row)
      else if key = ''link'' then Some (ps_link row)
      else if key = ''name'' then Some (ps_name row)
      else if key = ''barbg'' then Some (ps_bar_bg row)
      else if key = ''barfg'' then Some (ps_bar_fg row)
      else None)"

definition set_colorColumn :: "string \<Rightarrow> string \<Rightarrow> page_style_row \<Rightarrow> page_style_row" where
  "set_colorColumn key v row =
     (if key = ''bg'' then row\<lparr>ps_bg := Some v\<rparr>
      else if key = ''sheet'' then row\<lparr>ps_sheet := Some v\<rparr>
      else if key = ''text'' then row\<lparr>ps_text_color := Some v\<rparr>
      else if key = ''link'' then row\<lparr>ps_link := Some v\<rparr>
      else if key = ''name'' then row\<lparr>ps_name := Some v\<rparr>
      else if key = ''barbg'' then row\<lparr>ps_bar_bg := Some v\<rparr>
      else if key = ''barfg'' then row\<lparr>ps_bar_fg := Some v\<rparr>
      else row)"

definition knownFont :: "string option \<Rightarrow> string" where
  "knownFont stored = (case stored of None \<Rightarrow> []
     | Some k \<Rightarrow> (case FontByKey k of None \<Rightarrow> [] | Some _ \<Rightarrow> k))"

section \<open>The service\<close>

definition style_of_row :: "page_style_row \<Rightarrow> Style" where
  "style_of_row row =
     \<lparr>Colors = column (\<lambda>slot. case colorColumn row (sl_Key slot) of None \<Rightarrow> None
         | Some None \<Rightarrow> None
         | Some (Some c) \<Rightarrow> map_option (Pair (sl_Key slot)) (ParseHex c)) Slots,
      HeadFont = knownFont (ps_font_head row), BodyFont = knownFont (ps_font_body row),
      OwnMoodBox = ps_own_mood_box row, UpdatedAt = Some (ps_updated_at row)\<rparr>"

definition GetStyle :: "uuid \<Rightarrow> ('z, user_err + Style) prog" where
  "GetStyle uid = do {
     r \<leftarrow> exec (GetPageStyle uid);
     case r of
       Inl err \<Rightarrow> if err = NoRows then State_Monad.return (Inr zero_style)
         else State_Monad.return (Inl (UserWrap ''get page style'' err))
     | Inr row \<Rightarrow> State_Monad.return (Inr (style_of_row row))
   }"

fun set_colors :: "(string \<times> string) list \<Rightarrow> page_style_row \<Rightarrow> user_err + page_style_row" where
  "set_colors [] row = Inr row"
| "set_colors ((key, hex) # cs) row =
     (case ParseHex hex of
        None \<Rightarrow> Inl ErrInvalidStyle
      | Some p \<Rightarrow> if colorColumn row key = None then Inl ErrInvalidStyle
          else set_colors cs (set_colorColumn key p row))"

definition font_column :: "string \<Rightarrow> user_err + string option" where
  "font_column key = (if key = [] then Inr None
     else case FontByKey key of None \<Rightarrow> Inl ErrInvalidStyle | Some _ \<Rightarrow> Inr (Some key))"

definition style_row :: "uuid \<Rightarrow> Style \<Rightarrow> instant \<Rightarrow> user_err + page_style_row" where
  "style_row uid st now =
     (let row = \<lparr>ps_user_id = uid, ps_bg = None, ps_sheet = None, ps_text_color = None,
            ps_link = None, ps_name = None, ps_bar_bg = None, ps_bar_fg = None,
            ps_font_head = None, ps_font_body = None, ps_own_mood_box = OwnMoodBox st,
            ps_updated_at = now\<rparr>
      in case set_colors (Colors st) row of
        Inl e \<Rightarrow> Inl e
      | Inr row1 \<Rightarrow> (case font_column (HeadFont st) of
          Inl e \<Rightarrow> Inl e
        | Inr hf \<Rightarrow> (case font_column (BodyFont st) of
            Inl e \<Rightarrow> Inl e
          | Inr bf \<Rightarrow> Inr (row1\<lparr>ps_font_head := hf, ps_font_body := bf\<rparr>))))"

definition SetStyle :: "uuid \<Rightarrow> Style \<Rightarrow> instant \<Rightarrow> ('z, user_err + unit) prog" where
  "SetStyle uid st now =
     (case style_row uid st now of
        Inl e \<Rightarrow> State_Monad.return (Inl e)
      | Inr row \<Rightarrow>
          if IsDefault st then attempt (exec (DeletePageStyle uid)) (UserWrap ''delete page style'')
            (\<lambda>_. State_Monad.return (Inr ()))
          else attempt (exec (UpsertPageStyle row)) (UserWrap ''upsert page style'')
            (\<lambda>_. State_Monad.return (Inr ())))"

lemma conn_only_style [conn_only_intros]: "conn_only (GetStyle u)" "conn_only (SetStyle u st now)"
  unfolding GetStyle_def SetStyle_def by (intro conn_only_intros)+

lemma GetStyle_keeps [keeps_intros]: "keeps I (GetStyle u)"
  unfolding GetStyle_def by (intro keeps_intros stmt_intros)

lemma SetStyle_keeps [keeps_intros]:
  assumes "stmt_keeps I (DeletePageStyle u)"
    and "\<And>row. style_row u st now = Inr row \<Longrightarrow> \<not> IsDefault st \<Longrightarrow> stmt_keeps I (UpsertPageStyle row)"
  shows "keeps I (SetStyle u st now)"
proof (cases "style_row u st now")
  case (Inr row)
  show ?thesis
  proof (cases "IsDefault st")
    case True
    then show ?thesis unfolding SetStyle_def Inr sum.case by (auto intro!: keeps_intros assms(1))
  next
    case False
    then have "stmt_keeps I (UpsertPageStyle row)" by (rule assms(2) [OF Inr])
    then show ?thesis using False unfolding SetStyle_def Inr sum.case by (auto intro!: keeps_intros)
  qed
qed (simp add: SetStyle_def keeps_return)

section \<open>Columns and slots\<close>

definition slot_keys :: "string list" where
  "slot_keys = [''bg'', ''sheet'', ''text'', ''link'', ''name'', ''barbg'', ''barfg'']"

lemma slot_keys_slots: "map sl_Key Slots = slot_keys"
  by (simp add: Slots_def slots_def slot_keys_def)

lemma colorColumn_slots: "colorColumn row k \<noteq> None \<longleftrightarrow> k \<in> set slot_keys"
  by (simp add: colorColumn_def slot_keys_def)

lemma colorColumn_set:
  "k \<in> set slot_keys \<Longrightarrow> colorColumn (set_colorColumn k v row) k' =
     (if k' = k then Some (Some v) else colorColumn row k')"
  by (auto simp: slot_keys_def colorColumn_def set_colorColumn_def)

definition other_columns :: "page_style_row \<Rightarrow> uuid \<times> string option \<times> string option \<times> bool \<times> instant" where
  "other_columns row = (ps_user_id row, ps_font_head row, ps_font_body row, ps_own_mood_box row, ps_updated_at row)"

lemma set_colorColumn_other [simp]: "other_columns (set_colorColumn k v row) = other_columns row"
  by (simp add: other_columns_def set_colorColumn_def)

lemma set_colors_Inr:
  assumes "set_colors cs row = Inr row'" and "distinct (map fst cs)"
  shows "colorColumn row' k = (case map_of cs k of None \<Rightarrow> colorColumn row k | Some h \<Rightarrow> Some (ParseHex h))"
    and "other_columns row' = other_columns row"
    and "\<forall>(k, h)\<in>set cs. k \<in> set slot_keys \<and> ParseHex h \<noteq> None"
proof -
  have "colorColumn row' k = (case map_of cs k of None \<Rightarrow> colorColumn row k | Some h \<Rightarrow> Some (ParseHex h)) \<and>
    other_columns row' = other_columns row \<and> (\<forall>(k, h)\<in>set cs. k \<in> set slot_keys \<and> ParseHex h \<noteq> None)"
    using assms
  proof (induction cs row rule: set_colors.induct)
    case (2 key hex cs row)
    then obtain p where p: "ParseHex hex = Some p" "key \<in> set slot_keys"
      "set_colors cs (set_colorColumn key p row) = Inr row'"
      using colorColumn_slots [of row key] by (auto split: option.splits if_splits)
    have nk: "key \<notin> fst ` set cs" and d: "distinct (map fst cs)" using "2.prems"(2) by auto
    have IH: "colorColumn row' k = (case map_of cs k of None \<Rightarrow> colorColumn (set_colorColumn key p row) k
        | Some h \<Rightarrow> Some (ParseHex h)) \<and> other_columns row' = other_columns (set_colorColumn key p row) \<and>
        (\<forall>(k, h)\<in>set cs. k \<in> set slot_keys \<and> ParseHex h \<noteq> None)"
      using 2 p d colorColumn_slots [of row key] by auto
    have "map_of cs key = None" using nk by (simp add: map_of_eq_None_iff)
    then show ?case using IH p by (auto simp: colorColumn_set split: option.splits)
  qed simp
  then show "colorColumn row' k = (case map_of cs k of None \<Rightarrow> colorColumn row k | Some h \<Rightarrow> Some (ParseHex h))"
    and "other_columns row' = other_columns row"
    and "\<forall>(k, h)\<in>set cs. k \<in> set slot_keys \<and> ParseHex h \<noteq> None" by auto
qed

text \<open>The row a style is stored as.\<close>

definition known_or_none :: "string \<Rightarrow> bool" where
  "known_or_none k = (k = [] \<or> FontByKey k \<noteq> None)"

lemma font_column_Inr:
  "font_column k = Inr c \<Longrightarrow> c = (if k = [] then None else Some k) \<and> known_or_none k"
  by (auto simp: font_column_def known_or_none_def split: if_splits option.splits)

lemma knownFont_column: "known_or_none k \<Longrightarrow> knownFont (if k = [] then None else Some k) = k"
  by (auto simp: knownFont_def known_or_none_def split: option.splits)

lemma style_row_Inr:
  assumes "style_row uid st now = Inr row" and "distinct (map fst (Colors st))"
  shows "\<And>k. k \<in> set slot_keys \<Longrightarrow>
      colorColumn row k = Some (case map_of (Colors st) k of None \<Rightarrow> None | Some h \<Rightarrow> ParseHex h)"
    and "ps_user_id row = uid" "ps_updated_at row = now" "ps_own_mood_box row = OwnMoodBox st"
    and "knownFont (ps_font_head row) = HeadFont st" "knownFont (ps_font_body row) = BodyFont st"
    and "ps_font_head row = (if HeadFont st = [] then None else Some (HeadFont st))"
    and "ps_font_body row = (if BodyFont st = [] then None else Some (BodyFont st))"
    and "known_or_none (HeadFont st)" "known_or_none (BodyFont st)"
    and "\<forall>(k, h)\<in>set (Colors st). k \<in> set slot_keys \<and> ParseHex h \<noteq> None"
proof -
  define row0 where "row0 = \<lparr>ps_user_id = uid, ps_bg = None, ps_sheet = None, ps_text_color = None,
    ps_link = None, ps_name = None, ps_bar_bg = None, ps_bar_fg = None, ps_font_head = None,
    ps_font_body = None, ps_own_mood_box = OwnMoodBox st, ps_updated_at = now\<rparr>"
  obtain row1 hf bf where r1: "set_colors (Colors st) row0 = Inr row1"
    and f: "font_column (HeadFont st) = Inr hf" "font_column (BodyFont st) = Inr bf"
    and row: "row = row1\<lparr>ps_font_head := hf, ps_font_body := bf\<rparr>"
    using assms(1) unfolding style_row_def Let_def row0_def [symmetric]
    by (auto split: sum.splits)
  note c = set_colors_Inr [OF r1 assms(2)]
  show "colorColumn row k = Some (case map_of (Colors st) k of None \<Rightarrow> None | Some h \<Rightarrow> ParseHex h)"
    if "k \<in> set slot_keys" for k
  proof -
    have "colorColumn row k = colorColumn row1 k" by (simp add: row colorColumn_def)
    moreover have "colorColumn row0 k = Some None"
      using that by (auto simp: row0_def colorColumn_def slot_keys_def)
    ultimately show ?thesis using c(1) by (simp split: option.splits)
  qed
  have o: "other_columns row1 = other_columns row0" by (rule c(2))
  show "ps_user_id row = uid" "ps_updated_at row = now" "ps_own_mood_box row = OwnMoodBox st"
    using o by (simp_all add: row row0_def other_columns_def)
  show "knownFont (ps_font_head row) = HeadFont st" "knownFont (ps_font_body row) = BodyFont st"
    "ps_font_head row = (if HeadFont st = [] then None else Some (HeadFont st))"
    "ps_font_body row = (if BodyFont st = [] then None else Some (BodyFont st))"
    "known_or_none (HeadFont st)" "known_or_none (BodyFont st)"
    using font_column_Inr [OF f(1)] font_column_Inr [OF f(2)] knownFont_column by (simp_all add: row)
  show "\<forall>(k, h)\<in>set (Colors st). k \<in> set slot_keys \<and> ParseHex h \<noteq> None"
    by (rule c(3))
qed

lemma map_of_column:
  assumes "distinct (map key xs)"
  shows "map_of (column (\<lambda>x. map_option (Pair (key x)) (g (key x))) xs) k =
    (if k \<in> key ` set xs then g k else None)"
  using assms by (induction xs) (auto split: option.splits)

lemma style_of_row_colors:
  assumes "\<And>k. k \<in> set slot_keys \<Longrightarrow> colorColumn row k = Some (g k)"
  shows "map_of (Colors (style_of_row row)) k =
    (if k \<in> set slot_keys then Option.bind (g k) ParseHex else None)"
proof -
  have eq: "(case colorColumn row (sl_Key s) of None \<Rightarrow> None | Some None \<Rightarrow> None
      | Some (Some c) \<Rightarrow> map_option (Pair (sl_Key s)) (ParseHex c)) =
      map_option (Pair (sl_Key s)) (Option.bind (g (sl_Key s)) ParseHex)" if "s \<in> set Slots" for s
  proof -
    have "sl_Key s \<in> set slot_keys" using that slot_keys_slots by (metis image_eqI list.set_map)
    then show ?thesis using assms by (auto split: option.splits)
  qed
  have "column (\<lambda>s. case colorColumn row (sl_Key s) of None \<Rightarrow> None | Some None \<Rightarrow> None
      | Some (Some c) \<Rightarrow> map_option (Pair (sl_Key s)) (ParseHex c)) Slots =
    column (\<lambda>s. map_option (Pair (sl_Key s)) (Option.bind (g (sl_Key s)) ParseHex)) Slots"
    by (rule column_cong [OF eq])
  moreover have "distinct (map sl_Key Slots)" "sl_Key ` set Slots = set slot_keys"
    using slot_keys_slots by (simp_all add: slot_keys_def) (metis list.set_map list.simps(15) set_empty2 slot_keys_def)
  ultimately show ?thesis
    using map_of_column [of sl_Key Slots "\<lambda>k. Option.bind (g k) ParseHex" k]
    by (simp add: style_of_row_def)
qed

lemma fonts_key_format: "FontByKey k \<noteq> None \<Longrightarrow> font_key_format k"
proof -
  assume "FontByKey k \<noteq> None"
  then obtain f where "f \<in> set fonts" "f_Key f = k"
    by (auto simp: FontByKey_def dest!: find_Some_in)
  moreover have "list_all (\<lambda>f. font_key_format (f_Key f)) fonts"
    by code_simp
  ultimately show ?thesis by (auto simp: list_all_iff)
qed

text \<open>What the service stores always passes the table's checks.\<close>

lemma style_row_check:
  assumes "style_row uid st now = Inr row" and "distinct (map fst (Colors st))"
  shows "page_style_check row"
proof -
  note r = style_row_Inr [OF assms]
  have col: "null_or hex_color c" if "k \<in> set slot_keys" "colorColumn row k = Some c" for k c
    using r(1) [OF that(1)] that(2) ParseHex_format by (auto simp: null_or_def split: option.splits)
  have "null_or hex_color (ps_bg row)" "null_or hex_color (ps_sheet row)"
    "null_or hex_color (ps_text_color row)" "null_or hex_color (ps_link row)"
    "null_or hex_color (ps_name row)" "null_or hex_color (ps_bar_bg row)" "null_or hex_color (ps_bar_fg row)"
    using col [of "''bg''"] col [of "''sheet''"] col [of "''text''"] col [of "''link''"]
      col [of "''name''"] col [of "''barbg''"] col [of "''barfg''"]
    by (simp_all add: colorColumn_def slot_keys_def)
  moreover have "null_or font_key_format (ps_font_head row)" "null_or font_key_format (ps_font_body row)"
    using r(7-10) fonts_key_format by (auto simp: known_or_none_def)
  ultimately show ?thesis by (simp add: page_style_check_def)
qed

section \<open>Publishing and reading back\<close>

lemma style_of_row_Inr:
  assumes "style_row uid st now = Inr row" and "distinct (map fst (Colors st))"
  shows "map_of (Colors (style_of_row row)) k = Option.bind (map_of (Colors st) k) ParseHex"
    and "HeadFont (style_of_row row) = HeadFont st" "BodyFont (style_of_row row) = BodyFont st"
    and "OwnMoodBox (style_of_row row) = OwnMoodBox st" "UpdatedAt (style_of_row row) = Some now"
proof -
  note r = style_row_Inr [OF assms]
  have bind: "Option.bind (case map_of (Colors st) k of None \<Rightarrow> None | Some h \<Rightarrow> ParseHex h) ParseHex =
      Option.bind (map_of (Colors st) k) ParseHex" for k
    using ParseHex_idem by (cases "map_of (Colors st) k") (auto split: option.splits, metis bind.bind_lunit option.exhaust bind.bind_lzero)
  have "map_of (Colors st) k = None" if "k \<notin> set slot_keys"
    using that r(11) by (auto simp: map_of_eq_None_iff)
  then show "map_of (Colors (style_of_row row)) k = Option.bind (map_of (Colors st) k) ParseHex"
    using style_of_row_colors [OF r(1)] bind by (cases "k \<in> set slot_keys") auto
  show "HeadFont (style_of_row row) = HeadFont st" "BodyFont (style_of_row row) = BodyFont st"
    "OwnMoodBox (style_of_row row) = OwnMoodBox st" "UpdatedAt (style_of_row row) = Some now"
    using r by (simp_all add: style_of_row_def)
qed

lemma Upsert_Get:
  assumes "page_style_check row" "ps_user_id row = uid" "uid \<in> user_ids d"
  obtains ps where "UpsertPageStyle row now d = (Inr (), d\<lparr>page_styles := ps\<rparr>)"
    and "find (\<lambda>p. ps_user_id p = uid) ps = Some row"
proof (cases "uid \<in> ps_user_id ` set (page_styles d)")
  case True
  then have "find (\<lambda>p. ps_user_id p = uid)
      (map (\<lambda>p. if ps_user_id p = uid then row else p) (page_styles d)) = Some row"
  proof (induction "page_styles d" arbitrary: d)
    case Nil
    then show ?case by (metis empty_iff image_empty list.set(1))
  next
    case (Cons p ps)
    have "uid \<in> ps_user_id ` set qs \<Longrightarrow> find (\<lambda>p. ps_user_id p = uid)
      (map (\<lambda>p. if ps_user_id p = uid then row else p) qs) = Some row" for qs
      using assms(2) by (induction qs) auto
    then show ?case using Cons.prems by blast
  qed
  then show ?thesis
    using True assms by (intro that) (auto simp: UpsertPageStyle_def)
next
  case False
  then have "find (\<lambda>p. ps_user_id p = uid) (page_styles d) = None"
    by (auto simp: find_None_all)
  then show ?thesis
    using False assms
    by (intro that [of "page_styles d @ [row]"]) (auto simp: UpsertPageStyle_def find_append)
qed

text \<open>C27: A style that is published reads back as the same choices: every colour in lower case, the
  fonts, the mood-box switch and the time; a style that changes nothing reads back as the zero
  style, and one the service rejects leaves the tables as they were.\<close>

theorem style_roundtrip:
  assumes "c_faults w = []" and "uid \<in> user_ids (c_db w)" and "distinct (map fst (Colors st))"
  shows "case run_state (SetStyle uid st now) w of (r, w') \<Rightarrow>
    (case r of
      Inl e \<Rightarrow> e = ErrInvalidStyle \<and> w' = w
    | Inr _ \<Rightarrow> \<exists>st'. run_state (GetStyle uid) w' = (Inr st', w') \<and>
        (if IsDefault st then st' = zero_style
         else (\<forall>k. map_of (Colors st') k = Option.bind (map_of (Colors st) k) ParseHex) \<and>
           HeadFont st' = HeadFont st \<and> BodyFont st' = BodyFont st \<and>
           OwnMoodBox st' = OwnMoodBox st \<and> UpdatedAt st' = Some now))"
proof (cases "style_row uid st now")
  case (Inl e)
  have "set_colors cs r = Inl e \<Longrightarrow> e = ErrInvalidStyle" for cs r
    by (induction cs r rule: set_colors.induct) (auto split: option.splits if_splits)
  then have "e = ErrInvalidStyle"
    using Inl by (auto simp: style_row_def Let_def font_column_def split: sum.splits if_splits option.splits)
  then show ?thesis using Inl by (simp add: SetStyle_def)
next
  case (Inr row)
  show ?thesis
  proof (cases "IsDefault st")
    case True
    have gone: "find (\<lambda>p. ps_user_id p = uid) (filter (\<lambda>p. ps_user_id p \<noteq> uid) (page_styles (c_db w))) = None"
      by (auto simp: find_None_all)
    show ?thesis
      using True Inr assms(1)
      by (simp add: SetStyle_def run_simps DeletePageStyle_def GetStyle_def GetPageStyle_def gone)
  next
    case False
    obtain ps where "UpsertPageStyle row (c_now w) (c_db w) = (Inr (), (c_db w)\<lparr>page_styles := ps\<rparr>)"
      "find (\<lambda>p. ps_user_id p = uid) ps = Some row"
      by (rule Upsert_Get [OF style_row_check [OF Inr assms(3)] style_row_Inr(2) [OF Inr assms(3)] assms(2)])
    then show ?thesis
      using False Inr assms(1) style_of_row_Inr [OF Inr assms(3)]
      by (simp add: SetStyle_def run_simps GetStyle_def GetPageStyle_def)
  qed
qed

definition demo_style :: Style where
  "demo_style = \<lparr>Colors = [(''bg'', ''#FFcc00'')], HeadFont = ''comic'', BodyFont = [], OwnMoodBox = True,
     UpdatedAt = None\<rparr>"

definition demo_stylist :: conn where
  "demo_stylist = \<lparr>c_db = empty_db\<lparr>users := [new_user 3 ''ana@example.com'' 0]\<rparr>, c_now = 5, c_faults = []\<rparr>"

lemma demo_style_stored: "fst (run_state (SetStyle 3 demo_style 7) demo_stylist) = Inr ()"
  by code_simp

lemma style_roundtrip_witness:
  "\<exists>st. fst (run_state (GetStyle 3) (snd (run_state (SetStyle 3 demo_style 7) demo_stylist))) = Inr st \<and>
     map_of (Colors st) ''bg'' = Some ''#ffcc00'' \<and> HeadFont st = ''comic''"
proof -
  have "ParseHex ''#FFcc00'' = Some ''#ffcc00''" by code_simp
  then show ?thesis
    using style_roundtrip [of demo_stylist 3 demo_style 7] demo_style_stored
    by (auto simp: demo_stylist_def demo_style_def user_ids_def new_user_def empty_db_def IsDefault_def
        split: prod.splits sum.splits)
qed

section \<open>No row for the default\<close>

text \<open>A stored row always changes something, and only in ways the editor knows.\<close>

definition style_row_ok :: "page_style_row \<Rightarrow> bool" where
  "style_row_ok row = (\<not> IsDefault (style_of_row row) \<and> page_style_check row)"

definition page_styles_ok :: "db \<Rightarrow> bool" where
  "page_styles_ok d = list_all style_row_ok (page_styles d)"

lemma style_row_stored:
  assumes "style_row uid st now = Inr row" "distinct (map fst (Colors st))" "\<not> IsDefault st"
  shows "style_row_ok row"
proof -
  note r = style_of_row_Inr [OF assms(1,2)]
  have "Colors (style_of_row row) \<noteq> []" if "Colors st \<noteq> []"
  proof -
    obtain k h where "(k, h) \<in> set (Colors st)" using \<open>Colors st \<noteq> []\<close> by (cases "Colors st") auto
    then have "map_of (Colors st) k = Some h" "ParseHex h \<noteq> None"
      using style_row_Inr(11) [OF assms(1,2)] assms(2) by auto
    then have "map_of (Colors (style_of_row row)) k \<noteq> None" using r(1) by simp
    then show ?thesis by auto
  qed
  then show ?thesis
    using assms(3) r style_row_check [OF assms(1,2)] by (auto simp: style_row_ok_def IsDefault_def)
qed

lemma SetStyle_page_styles_ok:
  assumes "distinct (map fst (Colors st))"
  shows "keeps page_styles_ok (SetStyle uid st now)"
proof (rule SetStyle_keeps)
  show "stmt_keeps page_styles_ok (DeletePageStyle uid)"
    by (rule stmt_keepsI) (auto simp: page_styles_ok_def DeletePageStyle_def list_all_iff)
  show "stmt_keeps page_styles_ok (UpsertPageStyle row)"
    if "style_row uid st now = Inr row" "\<not> IsDefault st" for row
    using style_row_stored [OF that(1) assms that(2)]
    by (intro stmt_keepsI) (auto simp: page_styles_ok_def UpsertPageStyle_def list_all_iff)
qed

end
