(* ===== verification/Views.thy ===== *)
theory Views
  imports Http Config Mood Guestbook UserStyle
begin

text \<open>
  What the templates of \<open>internal/web\<close> are given: the data types its handlers fill in.  The
  templates themselves are HTML and not part of the model; a page is the name of its template and
  its data.
\<close>

section \<open>Dates\<close>

text \<open>
  \<open>t.In(argentina).Format("02/01/2006")\<close>.  The calendar date of a day number is computed by eras
  of 400 years that start on the first of March.
\<close>

definition argentina :: duration where "argentina = - 3 * hour"

definition civil :: "int \<Rightarrow> int \<times> int \<times> int" where
  "civil z0 =
     (let z = z0 + 719468; era = z div 146097; doe = z mod 146097;
          yoe = (doe - doe div 1460 + doe div 36524 - doe div 146096) div 365;
          doy = doe - (365 * yoe + yoe div 4 - yoe div 100);
          mp = (5 * doy + 2) div 153;
          d = doy - (153 * mp + 2) div 5 + 1;
          m = (if mp < 10 then mp + 3 else mp - 9);
          y = yoe + era * 400 + (if m \<le> 2 then 1 else 0)
      in (y, m, d))"

definition padded :: "nat \<Rightarrow> int \<Rightarrow> string" where
  "padded n x = (let s = dec_text x in replicate (n - length s) (CHR ''0'') @ s)"

definition guestbook_date :: "instant \<Rightarrow> string" where
  "guestbook_date t = (case civil ((t + argentina) div day) of
     (y, m, d) \<Rightarrow> padded 2 d @ ''/'' @ padded 2 m @ ''/'' @ padded 4 y)"

section \<open>Signing in, claiming, deleting\<close>

record loginFormData =
  lf_Error :: string

record loginConfirmData =
  lc_Token :: string
  lc_Nonce :: string

record claimHandleData =
  ch_Error :: string
  ch_Handle :: string

record accountDeleteData =
  ad_Handle :: string
  ad_Error :: string

record legalData =
  lg_OperatorName :: string
  lg_ContactEmail :: string

section \<open>The dashboard\<close>

record moodOption =
  mo_Key :: string
  mo_Label :: string
  mo_Selected :: bool

record styleColorRow =
  sc_Key :: string
  sc_Label :: string
  sc_Hex :: string
  sc_Custom :: bool

record fontOption =
  fo_Key :: string
  fo_Label :: string
  fo_Selected :: bool

record styleFontRow =
  sf_Field :: string
  sf_Reset :: string
  sf_Label :: string
  sf_Custom :: bool
  sf_Options :: "fontOption list"

record styleBox =
  sb_Colors :: "styleColorRow list"
  sb_Fonts :: "styleFontRow list"
  sb_KeepsMoodBox :: bool
  sb_Unsaved :: bool
  sb_Error :: string

record ownEntryView =
  oe_ID :: string
  oe_AuthorHandle :: string
  oe_AuthorURL :: string
  oe_Date :: string
  oe_Body :: string
  oe_Hidden :: bool

record appHomeData =
  ah_MoodClass :: string
  ah_Handle :: string
  ah_DisplayName :: string
  ah_NameError :: string
  ah_PageURL :: string
  ah_PageAddress :: string
  ah_HasMood :: bool
  ah_MoodLabel :: string
  ah_MoodNote :: string
  ah_MoodOptions :: "moodOption list"
  ah_Error :: string
  ah_CanUploadPhoto :: bool
  ah_PhotoURL :: string
  ah_PhotoWidth :: int
  ah_PhotoHeight :: int
  ah_PhotoChangedToday :: bool
  ah_PhotoError :: string
  ah_Guestbook :: "ownEntryView list"
  ah_Style :: "styleBox option"

record homeMessages =
  hm_Mood :: string
  hm_Name :: string
  hm_Photo :: string
  hm_Style :: string
  hm_Draft :: "Style option"

definition no_messages :: homeMessages where
  "no_messages = \<lparr>hm_Mood = [], hm_Name = [], hm_Photo = [], hm_Style = [], hm_Draft = None\<rparr>"

section \<open>Guestbooks and public pages\<close>

record guestbookSignData =
  gs_Handle :: string
  gs_PageURL :: string
  gs_MoodClass :: string
  gs_CanSign :: bool
  gs_Message :: string
  gs_MessageURL :: string
  gs_MessageLink :: string
  gs_Body :: string
  gs_Error :: string

record guestbookEntryView =
  ge_AuthorHandle :: string
  ge_AuthorURL :: string
  ge_Date :: string
  ge_Body :: string

type_synonym hiddenField = "string \<times> string"

record pageData =
  pd_Handle :: string
  pd_Name :: string
  pd_Initial :: string
  pd_Address :: string
  pd_HasMood :: bool
  pd_MoodClass :: string
  pd_MoodLabel :: string
  pd_MoodNote :: string
  pd_OGURL :: string
  pd_OGImageURL :: string
  pd_OGDescription :: string
  pd_Guestbook :: "guestbookEntryView list"
  pd_SignURL :: string
  pd_RandomURL :: string
  pd_AppURL :: string
  pd_PrivacyURL :: string
  pd_TermsURL :: string
  pd_PhotoURL :: string
  pd_PhotoWidth :: int
  pd_PhotoHeight :: int
  pd_OwnMoodBox :: bool
  pd_StyleVersion :: int
  pd_Preview :: bool
  pd_PreviewCSSURL :: string
  pd_PreviewFields :: "hiddenField list"

datatype page =
    LoginForm loginFormData
  | LoginConfirm loginConfirmData
  | LoginCheckEmail
  | LoginInvalid
  | ClaimHandlePage claimHandleData
  | AccountDelete accountDeleteData
  | AccountDeleted
  | Privacy legalData
  | Terms legalData
  | AppHome appHomeData
  | GuestbookSign guestbookSignData
  | PublicPage pageData

end
