(* ===== verification/StyleEdit.thy ===== *)
theory StyleEdit
  imports Views
begin

text \<open>
  \<open>internal/web/style.go\<close>: the style form, the draft it travels as, and the address of the
  draft's stylesheet.  A draft goes through the form, the hidden fields of the preview bar and the
  preview's query without changing.
\<close>

section \<open>Field names\<close>

definition fieldColorPrefix :: string where "fieldColorPrefix = ''c_''"
definition fieldHeadFont :: string where "fieldHeadFont = ''f_head''"
definition fieldBodyFont :: string where "fieldBodyFont = ''f_body''"
definition fieldOwnMoodBox :: string where "fieldOwnMoodBox = ''own_mood_box''"
definition previewOwn :: string where "previewOwn = ''own''"
definition resetHead :: string where "resetHead = ''head''"
definition resetBody :: string where "resetBody = ''body''"
definition DefaultHeadFont :: string where "DefaultHeadFont = ''trebuchet''"
definition DefaultBodyFont :: string where "DefaultBodyFont = ''verdana''"

lemmas field_names = fieldColorPrefix_def fieldHeadFont_def fieldBodyFont_def fieldOwnMoodBox_def
  previewOwn_def resetHead_def resetBody_def

section \<open>The form\<close>

fun draft_colors :: "url_values \<Rightarrow> string \<Rightarrow> string \<Rightarrow> Slot list \<Rightarrow> (string \<times> string) list option" where
  "draft_colors form moodKey reset [] = Some []"
| "draft_colors form moodKey reset (slot # ss) =
     (if reset = sl_Key slot then draft_colors form moodKey reset ss
      else (case map_of form (fieldColorPrefix @ sl_Key slot) of
        Some [raw] \<Rightarrow> (case ParseHex raw of
            None \<Rightarrow> None
          | Some hex \<Rightarrow>
              if hex = Default (sl_Key slot) moodKey then draft_colors form moodKey reset ss
              else map_option (Cons (sl_Key slot, hex)) (draft_colors form moodKey reset ss))
      | _ \<Rightarrow> None))"

definition parseFont :: "url_values \<Rightarrow> string \<Rightarrow> string \<Rightarrow> bool \<Rightarrow> string option" where
  "parseFont form field defaultKey reset =
     (if reset then Some []
      else (case map_of form field of
        Some [raw] \<Rightarrow>
          if FontByKey raw = None then None else if raw = defaultKey then Some [] else Some raw
      | _ \<Rightarrow> None))"

definition parseDraft :: "url_values \<Rightarrow> string \<Rightarrow> string \<Rightarrow> Style option" where
  "parseDraft form moodKey reset =
     (case draft_colors form moodKey reset Slots of
        None \<Rightarrow> None
      | Some cs \<Rightarrow> (case parseFont form fieldHeadFont DefaultHeadFont (reset = resetHead) of
          None \<Rightarrow> None
        | Some hf \<Rightarrow> (case parseFont form fieldBodyFont DefaultBodyFont (reset = resetBody) of
            None \<Rightarrow> None
          | Some bf \<Rightarrow> Some \<lparr>Colors = cs, HeadFont = hf, BodyFont = bf,
              OwnMoodBox = (map_of form fieldOwnMoodBox = None), UpdatedAt = None\<rparr>)))"

definition validReset :: "string \<Rightarrow> bool" where
  "validReset v = (if v = resetHead \<or> v = resetBody then True
     else list_ex (\<lambda>slot. v = sl_Key slot) Slots)"

section \<open>The preview\<close>

definition fontOrDefault :: "string \<Rightarrow> string \<Rightarrow> string" where
  "fontOrDefault key dflt = (if key = [] then dflt else key)"

definition previewQuery :: "Style \<Rightarrow> url_values" where
  "previewQuery st =
     column (\<lambda>slot. map_option (\<lambda>c. (fieldColorPrefix @ sl_Key slot, [c])) (map_of (Colors st) (sl_Key slot))) Slots @
     (if HeadFont st \<noteq> [] then [(fieldHeadFont, [HeadFont st])] else []) @
     (if BodyFont st \<noteq> [] then [(fieldBodyFont, [BodyFont st])] else []) @
     (if OwnMoodBox st then [(previewOwn, [''1''])] else [])"

definition previewFields :: "Style \<Rightarrow> string \<Rightarrow> hiddenField list" where
  "previewFields st moodKey =
     map (\<lambda>slot. (fieldColorPrefix @ sl_Key slot,
        case map_of (Colors st) (sl_Key slot) of Some v \<Rightarrow> v | None \<Rightarrow> Default (sl_Key slot) moodKey)) Slots @
     [(fieldHeadFont, fontOrDefault (HeadFont st) DefaultHeadFont),
      (fieldBodyFont, fontOrDefault (BodyFont st) DefaultBodyFont)] @
     (if \<not> OwnMoodBox st then [(fieldOwnMoodBox, ''no'')] else [])"

fun query_colors :: "url_values \<Rightarrow> Slot list \<Rightarrow> (string \<times> string) list option" where
  "query_colors q [] = Some []"
| "query_colors q (slot # ss) =
     (case map_of q (fieldColorPrefix @ sl_Key slot) of
        None \<Rightarrow> query_colors q ss
      | Some [v] \<Rightarrow> (case ParseHex v of
            None \<Rightarrow> None
          | Some hex \<Rightarrow> map_option (Cons (sl_Key slot, hex)) (query_colors q ss))
      | Some _ \<Rightarrow> None)"

definition query_font :: "url_values \<Rightarrow> string \<Rightarrow> string option" where
  "query_font q field = (case map_of q field of
     None \<Rightarrow> Some []
   | Some [v] \<Rightarrow> if FontByKey v = None then None else Some v
   | Some _ \<Rightarrow> None)"

definition styleFromQuery :: "url_values \<Rightarrow> Style option" where
  "styleFromQuery q =
     (case query_colors q Slots of
        None \<Rightarrow> None
      | Some cs \<Rightarrow> (case query_font q fieldHeadFont of
          None \<Rightarrow> None
        | Some hf \<Rightarrow> (case query_font q fieldBodyFont of
            None \<Rightarrow> None
          | Some bf \<Rightarrow> (case map_of q previewOwn of
              None \<Rightarrow> Some \<lparr>Colors = cs, HeadFont = hf, BodyFont = bf, OwnMoodBox = False, UpdatedAt = None\<rparr>
            | Some vs \<Rightarrow> if vs = [''1'']
                then Some \<lparr>Colors = cs, HeadFont = hf, BodyFont = bf, OwnMoodBox = True, UpdatedAt = None\<rparr>
                else None))))"

section \<open>What the form accepts\<close>

text \<open>
  A draft in the form's own shape: the customised slots in the editor's order, canonical colours
  that differ from the mood's defaults, and fonts of the registry other than the default.
\<close>

definition slot_order :: "(string \<times> string) list \<Rightarrow> Slot list \<Rightarrow> (string \<times> string) list" where
  "slot_order cs ss = column (\<lambda>slot. map_option (Pair (sl_Key slot)) (map_of cs (sl_Key slot))) ss"

definition draft_ok :: "string \<Rightarrow> Style \<Rightarrow> bool" where
  "draft_ok moodKey st =
     (Colors st = slot_order (Colors st) Slots \<and>
      (\<forall>(k, c)\<in>set (Colors st). ParseHex c = Some c \<and> c \<noteq> Default k moodKey) \<and>
      known_or_none (HeadFont st) \<and> HeadFont st \<noteq> DefaultHeadFont \<and>
      known_or_none (BodyFont st) \<and> BodyFont st \<noteq> DefaultBodyFont \<and> UpdatedAt st = None)"

lemma slot_order_skip: "k \<notin> sl_Key ` set ss \<Longrightarrow> slot_order ((k, v) # cs) ss = slot_order cs ss"
  unfolding slot_order_def by (rule column_cong) auto

lemma draft_colors_Some:
  assumes "draft_colors form moodKey reset ss = Some cs" and "distinct (map sl_Key ss)"
  shows "cs = slot_order cs ss \<and> fst ` set cs \<subseteq> sl_Key ` set ss \<and> reset \<notin> fst ` set cs \<and>
    (\<forall>(k, c)\<in>set cs. ParseHex c = Some c \<and> c \<noteq> Default k moodKey)"
  using assms
proof (induction ss arbitrary: cs)
  case Nil
  then show ?case by (simp add: slot_order_def)
next
  case (Cons s ss)
  have fresh: "map_of cs' (sl_Key s) = None" if "fst ` set cs' \<subseteq> sl_Key ` set ss" for cs' :: "(string \<times> string) list"
    using that Cons.prems(2) by (auto simp: map_of_eq_None_iff)
  consider (skip) "draft_colors form moodKey reset ss = Some cs"
    | (put) raw hex cs' where "ParseHex raw = Some hex" "hex \<noteq> Default (sl_Key s) moodKey" "reset \<noteq> sl_Key s"
        "draft_colors form moodKey reset ss = Some cs'" "cs = (sl_Key s, hex) # cs'"
    using Cons.prems(1) by (auto split: if_splits option.splits list.splits)
  then show ?case
  proof cases
    case skip
    then have IH: "cs = slot_order cs ss \<and> fst ` set cs \<subseteq> sl_Key ` set ss \<and> reset \<notin> fst ` set cs \<and>
        (\<forall>(k, c)\<in>set cs. ParseHex c = Some c \<and> c \<noteq> Default k moodKey)"
      using Cons.IH Cons.prems(2) by simp
    then show ?thesis using fresh [of cs] by (auto simp: slot_order_def)
  next
    case put
    then have IH: "cs' = slot_order cs' ss \<and> fst ` set cs' \<subseteq> sl_Key ` set ss \<and> reset \<notin> fst ` set cs' \<and>
        (\<forall>(k, c)\<in>set cs'. ParseHex c = Some c \<and> c \<noteq> Default k moodKey)"
      using Cons.IH [OF put(4)] Cons.prems(2) by simp
    have "slot_order cs ss = slot_order cs' ss"
      unfolding put(5) using Cons.prems(2) by (intro slot_order_skip) auto
    then have "slot_order cs (s # ss) = (sl_Key s, hex) # slot_order cs' ss"
      by (simp add: slot_order_def put(5))
    then show ?thesis
      using IH put ParseHex_idem [OF put(1)] by auto
  qed
qed

lemma distinct_slots: "distinct (map sl_Key Slots)"
  by code_simp

lemma parseFont_Some:
  "parseFont form field dflt reset = Some f \<Longrightarrow> dflt \<noteq> [] \<Longrightarrow> known_or_none f \<and> f \<noteq> dflt"
  by (auto simp: parseFont_def known_or_none_def split: if_splits option.splits list.splits)

lemma default_fonts: "DefaultHeadFont \<noteq> []" "DefaultBodyFont \<noteq> []" "FontByKey DefaultHeadFont \<noteq> None"
  "FontByKey DefaultBodyFont \<noteq> None"
  by code_simp+

lemma parseDraft_ok:
  assumes "parseDraft form moodKey reset = Some st" shows "draft_ok moodKey st"
proof -
  obtain cs hf bf where p: "draft_colors form moodKey reset Slots = Some cs"
      "parseFont form fieldHeadFont DefaultHeadFont (reset = resetHead) = Some hf"
      "parseFont form fieldBodyFont DefaultBodyFont (reset = resetBody) = Some bf"
    and st: "st = \<lparr>Colors = cs, HeadFont = hf, BodyFont = bf,
        OwnMoodBox = (map_of form fieldOwnMoodBox = None), UpdatedAt = None\<rparr>"
    using assms by (auto simp: parseDraft_def split: option.splits)
  show ?thesis
    using draft_colors_Some [OF p(1) distinct_slots] parseFont_Some [OF p(2) default_fonts(1)]
      parseFont_Some [OF p(3) default_fonts(2)]
    by (simp add: draft_ok_def st)
qed


section \<open>Round trips\<close>

definition posted :: "hiddenField list \<Rightarrow> url_values" where
  "posted fs = map (\<lambda>(k, v). (k, [v])) fs"

definition style_mood :: "string \<Rightarrow> bool" where
  "style_mood moodKey = (map_of style_moods moodKey \<noteq> None)"

lemma defaults_canonical:
  assumes "style_mood moodKey" "slot \<in> set Slots"
  shows "ParseHex (Default (sl_Key slot) moodKey) = Some (Default (sl_Key slot) moodKey)"
proof -
  have "list_all (\<lambda>m. hex_color (fst (snd m)) \<and> hex_color (snd (snd m))) style_moods"
    by code_simp
  moreover obtain p where p: "map_of style_moods moodKey = Some p"
    using assms(1) by (auto simp: style_mood_def)
  ultimately have tint: "hex_color (fst p) \<and> hex_color (snd p)"
    using map_of_SomeD by (fastforce simp: list_all_iff)
  have "hex_color paper" "hex_color ink" by code_simp+
  moreover have "sl_Key slot \<in> {''bg'', ''sheet'', ''barfg'', ''text'', ''link'', ''name'', ''barbg''}"
    using assms(2) by (auto simp: Slots_def slots_def)
  ultimately have "hex_color (Default (sl_Key slot) moodKey)"
    using tint p by (auto simp: Default_def split: prod.splits)
  then show ?thesis by (rule ParseHex_id)
qed

lemma slot_keys_named: "list_all (\<lambda>s. sl_Key s \<noteq> []) Slots"
  by code_simp

lemma map_of_slots:
  assumes "s \<in> set ss" "distinct (map sl_Key ss)"
  shows "map_of (map (\<lambda>s. (fieldColorPrefix @ sl_Key s, g s)) ss @ rest) (fieldColorPrefix @ sl_Key s) = Some (g s)"
  using assms by (induction ss) (auto simp: image_iff)

lemma map_of_not_slot:
  assumes "\<And>k. x \<noteq> fieldColorPrefix @ k"
  shows "map_of (map (\<lambda>s. (fieldColorPrefix @ sl_Key s, g s)) ss @ rest) x = map_of rest x"
    and "map_of (column (\<lambda>s. map_option (\<lambda>c. (fieldColorPrefix @ sl_Key s, h c)) (o' s)) ss @ rest) x = map_of rest x"
  using assms by (induction ss) (auto split: option.splits)

lemma other_fields [simp]:
  "fieldHeadFont \<noteq> fieldColorPrefix @ k" "fieldBodyFont \<noteq> fieldColorPrefix @ k"
  "fieldOwnMoodBox \<noteq> fieldColorPrefix @ k" "previewOwn \<noteq> fieldColorPrefix @ k"
  by (simp_all add: field_names)

lemma fields_colors:
  assumes "\<And>s. s \<in> set ss \<Longrightarrow> map_of form (fieldColorPrefix @ sl_Key s) =
      Some [case map_of cs (sl_Key s) of Some v \<Rightarrow> v | None \<Rightarrow> Default (sl_Key s) moodKey]"
    and "\<And>s. s \<in> set ss \<Longrightarrow> sl_Key s \<noteq> []" and "set ss \<subseteq> set Slots" and "style_mood moodKey"
    and "\<forall>(k, c)\<in>set cs. ParseHex c = Some c \<and> c \<noteq> Default k moodKey"
  shows "draft_colors form moodKey [] ss = Some (slot_order cs ss)"
  using assms(1-3)
proof (induction ss)
  case Nil
  then show ?case by (simp add: slot_order_def)
next
  case (Cons s ss)
  then have IH: "draft_colors form moodKey [] ss = Some (slot_order cs ss)" by simp
  have look: "map_of form (fieldColorPrefix @ sl_Key s) =
      Some [case map_of cs (sl_Key s) of Some v \<Rightarrow> v | None \<Rightarrow> Default (sl_Key s) moodKey]"
    and named: "[] \<noteq> sl_Key s" and "s \<in> set Slots"
    using Cons.prems by force+
  show ?case
  proof (cases "map_of cs (sl_Key s)")
    case None
    then show ?thesis
      using IH look named defaults_canonical [OF assms(4) \<open>s \<in> set Slots\<close>] by (simp add: slot_order_def)
  next
    case (Some v)
    then have "ParseHex v = Some v" "v \<noteq> Default (sl_Key s) moodKey"
      using assms(5) map_of_SomeD by fastforce+
    then show ?thesis using IH look named Some by (simp add: slot_order_def)
  qed
qed

lemma parseFont_default:
  assumes "map_of form field = Some [fontOrDefault f dflt]" "known_or_none f" "f \<noteq> dflt"
    and "FontByKey dflt \<noteq> None"
  shows "parseFont form field dflt False = Some f"
  using assms by (auto simp: parseFont_def fontOrDefault_def known_or_none_def)

text \<open>C35: A draft is not changed by being previewed: the hidden fields of the preview bar, sent back as
  the form, are read as the very same draft, whatever the mood.\<close>

theorem draft_survives_preview:
  assumes "parseDraft form moodKey reset = Some st" and "style_mood moodKey"
  shows "parseDraft (posted (previewFields st moodKey)) moodKey [] = Some st"
proof -
  let ?form = "posted (previewFields st moodKey)"
  let ?val = "\<lambda>s. [case map_of (Colors st) (sl_Key s) of Some v \<Rightarrow> v | None \<Rightarrow> Default (sl_Key s) moodKey]"
  let ?rest = "(fieldHeadFont, [fontOrDefault (HeadFont st) DefaultHeadFont]) #
      (fieldBodyFont, [fontOrDefault (BodyFont st) DefaultBodyFont]) #
      (if \<not> OwnMoodBox st then [(fieldOwnMoodBox, [''no''])] else [])"
  have ok: "draft_ok moodKey st" by (rule parseDraft_ok [OF assms(1)])
  have form: "?form = map (\<lambda>s. (fieldColorPrefix @ sl_Key s, ?val s)) Slots @ ?rest"
    by (simp add: posted_def previewFields_def comp_def)
  have "draft_colors ?form moodKey [] Slots = Some (slot_order (Colors st) Slots)"
  proof (rule fields_colors)
    show "map_of ?form (fieldColorPrefix @ sl_Key s) = Some (?val s)" if "s \<in> set Slots" for s
      unfolding form by (rule map_of_slots [OF that distinct_slots])
  qed (use ok slot_keys_named assms(2) in \<open>auto simp: draft_ok_def list_all_iff\<close>)
  then have cs: "draft_colors ?form moodKey [] Slots = Some (Colors st)"
    using ok by (simp add: draft_ok_def)
  have rest: "map_of ?form x = map_of ?rest x" if "\<And>k. x \<noteq> fieldColorPrefix @ k" for x
    unfolding form by (rule map_of_not_slot(1) [OF that])
  have "map_of ?form fieldHeadFont = Some [fontOrDefault (HeadFont st) DefaultHeadFont]"
    by (subst rest) simp_all
  then have hf: "parseFont ?form fieldHeadFont DefaultHeadFont False = Some (HeadFont st)"
    using ok default_fonts by (intro parseFont_default) (auto simp: draft_ok_def)
  have "map_of ?form fieldBodyFont = Some [fontOrDefault (BodyFont st) DefaultBodyFont]"
    by (subst rest) (simp_all add: field_names)
  then have bf: "parseFont ?form fieldBodyFont DefaultBodyFont False = Some (BodyFont st)"
    using ok default_fonts by (intro parseFont_default) (auto simp: draft_ok_def)
  have "(map_of ?form fieldOwnMoodBox = None) = OwnMoodBox st"
    by (subst rest) (simp_all add: field_names)
  then show ?thesis
    using ok cs hf bf by (simp add: parseDraft_def field_names draft_ok_def)
qed

lemma query_colors_column:
  assumes "\<And>s. s \<in> set ss \<Longrightarrow> map_of q (fieldColorPrefix @ sl_Key s) = map_option (\<lambda>c. [c]) (map_of cs (sl_Key s))"
    and "\<forall>(k, c)\<in>set cs. ParseHex c = Some c"
  shows "query_colors q ss = Some (slot_order cs ss)"
  using assms(1)
proof (induction ss)
  case Nil
  then show ?case by (simp add: slot_order_def)
next
  case (Cons s ss)
  then have "query_colors q ss = Some (slot_order cs ss)" by simp
  moreover have "map_of q (fieldColorPrefix @ sl_Key s) = map_option (\<lambda>c. [c]) (map_of cs (sl_Key s))"
    using Cons.prems by simp
  moreover have "ParseHex c = Some c" if "map_of cs (sl_Key s) = Some c" for c
    using assms(2) map_of_SomeD [OF that] by auto
  ultimately show ?case
    by (cases "map_of cs (sl_Key s)") (simp_all add: slot_order_def)
qed

lemma map_of_query_slot:
  assumes "distinct (map sl_Key ss)" "s \<in> set ss" "map_of rest (fieldColorPrefix @ sl_Key s) = None"
  shows "map_of (column (\<lambda>s. map_option (\<lambda>c. (fieldColorPrefix @ sl_Key s, [c])) (o' (sl_Key s))) ss @ rest)
      (fieldColorPrefix @ sl_Key s) = map_option (\<lambda>c. [c]) (o' (sl_Key s))"
  using assms
proof (induction ss)
  case (Cons t ss)
  show ?case
  proof (cases "s = t")
    case True
    then have "map_of (column (\<lambda>s. map_option (\<lambda>c. (fieldColorPrefix @ sl_Key s, [c])) (o' (sl_Key s))) ss @ rest)
        (fieldColorPrefix @ sl_Key t) = None" if "o' (sl_Key t) = None"
      using Cons.prems by (force simp: map_of_eq_None_iff set_column map_add_def split: option.splits)
    then show ?thesis using True by (cases "o' (sl_Key t)") auto
  next
    case False
    then have "sl_Key t \<noteq> sl_Key s" using Cons.prems by force
    then show ?thesis using Cons False by (cases "o' (sl_Key t)") auto
  qed
qed simp

text \<open>The preview shows the stylesheet that publishing would serve: the query of the preview's
  stylesheet is read back as the same draft, so both addresses serve the same CSS.\<close>

theorem preview_query_roundtrip:
  assumes "draft_ok moodKey st"
  shows "styleFromQuery (previewQuery st) = Some st"
proof -
  let ?col = "column (\<lambda>slot. map_option (\<lambda>c. (fieldColorPrefix @ sl_Key slot, [c])) (map_of (Colors st) (sl_Key slot))) Slots"
  let ?rest = "(if HeadFont st \<noteq> [] then [(fieldHeadFont, [HeadFont st])] else []) @
     (if BodyFont st \<noteq> [] then [(fieldBodyFont, [BodyFont st])] else []) @
     (if OwnMoodBox st then [(previewOwn, [''1''])] else [])"
  have q: "previewQuery st = ?col @ ?rest" by (simp add: previewQuery_def)
  have none: "map_of ?rest (fieldColorPrefix @ k) = None" for k
    by (simp add: field_names)
  have "query_colors (previewQuery st) Slots = Some (slot_order (Colors st) Slots)"
  proof (rule query_colors_column)
    show "map_of (previewQuery st) (fieldColorPrefix @ sl_Key s) =
        map_option (\<lambda>c. [c]) (map_of (Colors st) (sl_Key s))" if "s \<in> set Slots" for s
      unfolding q by (rule map_of_query_slot [OF distinct_slots that none])
  qed (use assms in \<open>auto simp: draft_ok_def\<close>)
  then have cs: "query_colors (previewQuery st) Slots = Some (Colors st)"
    using assms by (simp add: draft_ok_def)
  have rest: "map_of (previewQuery st) x = map_of ?rest x" if "\<And>k. x \<noteq> fieldColorPrefix @ k" for x
    unfolding q by (rule map_of_not_slot(2) [OF that])
  have fonts: "query_font (previewQuery st) fieldHeadFont = Some (HeadFont st)"
    "query_font (previewQuery st) fieldBodyFont = Some (BodyFont st)"
    using assms unfolding query_font_def
    by (subst rest; auto simp: field_names draft_ok_def known_or_none_def)+
  have "map_of (previewQuery st) previewOwn = (if OwnMoodBox st then Some [''1''] else None)"
    by (subst rest) (simp_all add: field_names)
  then show ?thesis
    using assms cs fonts by (simp add: styleFromQuery_def draft_ok_def)
qed

section \<open>A concrete draft\<close>

definition demo_form :: url_values where
  "demo_form = [(''c_bg'', [''#FFCC00'']), (''c_sheet'', [''#fefdfa'']), (''c_text'', [''#000000'']),
     (''c_link'', [''#222222'']), (''c_name'', [''#222222'']), (''c_barbg'', [''#222222'']),
     (''c_barfg'', [''#fefdfa'']), (''f_head'', [''comic'']), (''f_body'', [''verdana''])]"

definition demo_draft :: Style where
  "demo_draft = \<lparr>Colors = [(''bg'', ''#ffcc00''), (''text'', ''#000000'')], HeadFont = ''comic'', BodyFont = [],
     OwnMoodBox = True, UpdatedAt = None\<rparr>"

lemma demo_form_read: "parseDraft demo_form ''none'' [] = Some demo_draft"
  by code_simp

lemma draft_survives_preview_witness:
  "parseDraft (posted (previewFields demo_draft ''none'')) ''none'' [] = Some demo_draft"
  by (rule draft_survives_preview [OF demo_form_read]) (simp add: style_mood_def style_moods_def)

lemma preview_query_roundtrip_witness: "styleFromQuery (previewQuery demo_draft) = Some demo_draft"
  by (rule preview_query_roundtrip [OF parseDraft_ok [OF demo_form_read]])

end
