(* ===== verification/Response.thy ===== *)
theory Response
  imports Views
begin

text \<open>
  Answering a request: the response writer, \<open>http.Error\<close>, \<open>http.Redirect\<close>, the cookies of
  \<open>cookie.go\<close> and \<open>nonce.go\<close>, and the types of handlers.  A handler is given the writer its
  middleware has prepared, headers and cookies set so far, and returns the finished response.
  Log lines are not modelled.
\<close>

section \<open>The response\<close>

record cookie =
  ck_Name :: string
  ck_Value :: string
  ck_Path :: string
  ck_MaxAge :: int
  ck_Secure :: bool
  ck_HttpOnly :: bool
  ck_SameSiteLax :: bool

record writer =
  Header :: "string \<Rightarrow> string list"
  SetCookies :: "cookie list"

datatype body =
    NoBody
  | Text string
  | Redirected string
  | Rendered page
  | Bytes string

record response =
  Status :: int
  RHeader :: "string \<Rightarrow> string list"
  RCookies :: "cookie list"
  Body :: body

definition new_writer :: writer where
  "new_writer = \<lparr>Header = (\<lambda>_. []), SetCookies = []\<rparr>"

definition set_header :: "string \<Rightarrow> string \<Rightarrow> writer \<Rightarrow> writer" where
  "set_header k v w = w\<lparr>Header := (Header w)(k := [v])\<rparr>"

definition add_header :: "string \<Rightarrow> string \<Rightarrow> writer \<Rightarrow> writer" where
  "add_header k v w = w\<lparr>Header := (Header w)(k := Header w k @ [v])\<rparr>"

definition set_cookie :: "cookie \<Rightarrow> writer \<Rightarrow> writer" where
  "set_cookie c w = w\<lparr>SetCookies := SetCookies w @ [c]\<rparr>"

definition respond :: "int \<Rightarrow> body \<Rightarrow> writer \<Rightarrow> response" where
  "respond st b w = \<lparr>Status = st, RHeader = Header w, RCookies = SetCookies w, Body = b\<rparr>"

text \<open>\<open>http.Error\<close>, \<open>http.NotFound\<close> and \<open>http.Redirect\<close>.\<close>

definition http_Error :: "string \<Rightarrow> int \<Rightarrow> writer \<Rightarrow> response" where
  "http_Error msg st w =
     respond st (Text (msg @ [LF]))
       (set_header ''X-Content-Type-Options'' ''nosniff''
         (set_header ''Content-Type'' ''text/plain; charset=utf-8''
           (w\<lparr>Header := (Header w)(''Content-Length'' := [])\<rparr>)))"

definition http_NotFound :: "writer \<Rightarrow> response" where
  "http_NotFound w = http_Error ''404 page not found'' 404 w"

definition http_Redirect :: "string \<Rightarrow> int \<Rightarrow> writer \<Rightarrow> response" where
  "http_Redirect url st w = respond st (Redirected url) (set_header ''Location'' url w)"

definition internal_error :: "writer \<Rightarrow> response" where
  "internal_error w = http_Error ''internal server error'' 500 w"

definition bad_request :: "writer \<Rightarrow> response" where
  "bad_request w = http_Error ''bad request'' 400 w"

text \<open>\<open>renderTemplate\<close>: an error of the template is only logged.\<close>

definition renderTemplate :: "int \<Rightarrow> page \<Rightarrow> writer \<Rightarrow> response" where
  "renderTemplate st p w =
     respond st (Rendered p) (set_header ''Content-Type'' ''text/html; charset=utf-8'' w)"

lemma response_simps [simp]:
  "Status (respond st b w) = st" "RCookies (respond st b w) = SetCookies w" "Body (respond st b w) = b"
  "RHeader (respond st b w) = Header w"
  "SetCookies (set_header k v w) = SetCookies w" "SetCookies (add_header k v w) = SetCookies w"
  "SetCookies (set_cookie c w) = SetCookies w @ [c]" "Header (set_cookie c w) = Header w"
  "Status (http_Error msg st w) = st" "RCookies (http_Error msg st w) = SetCookies w"
  "Body (http_Error msg st w) = Text (msg @ [LF])"
  "Status (http_NotFound w) = 404" "RCookies (http_NotFound w) = SetCookies w"
  "Status (http_Redirect url st w) = st" "RCookies (http_Redirect url st w) = SetCookies w"
  "Body (http_Redirect url st w) = Redirected url"
  "Status (internal_error w) = 500" "RCookies (internal_error w) = SetCookies w"
  "Status (bad_request w) = 400" "RCookies (bad_request w) = SetCookies w"
  "Status (renderTemplate st p w) = st" "RCookies (renderTemplate st p w) = SetCookies w"
  "Body (renderTemplate st p w) = Rendered p"
  by (simp_all add: respond_def set_header_def add_header_def set_cookie_def http_Error_def
      http_NotFound_def http_Redirect_def internal_error_def bad_request_def renderTemplate_def)

section \<open>Cookies\<close>

definition SessionCookieName :: string where "SessionCookieName = ''__Host-session''"
definition loginNonceCookieName :: string where "loginNonceCookieName = ''__Host-login-nonce''"
definition loginNonceTTL :: duration where "loginNonceTTL = 15 * minute"

definition host_cookie :: "string \<Rightarrow> string \<Rightarrow> int \<Rightarrow> cookie" where
  "host_cookie name v age = \<lparr>ck_Name = name, ck_Value = v, ck_Path = ''/'', ck_MaxAge = age,
     ck_Secure = True, ck_HttpOnly = True, ck_SameSiteLax = True\<rparr>"

text \<open>\<open>int(ttl.Seconds())\<close> of a whole number of seconds.\<close>

definition SetSessionCookie :: "string \<Rightarrow> duration \<Rightarrow> writer \<Rightarrow> writer" where
  "SetSessionCookie v ttl w = set_cookie (host_cookie SessionCookieName v (ttl div second)) w"

definition ClearSessionCookie :: "writer \<Rightarrow> writer" where
  "ClearSessionCookie w = set_cookie (host_cookie SessionCookieName [] (-1)) w"

definition setLoginNonceCookie :: "string \<Rightarrow> writer \<Rightarrow> writer" where
  "setLoginNonceCookie v w = set_cookie (host_cookie loginNonceCookieName v (loginNonceTTL div second)) w"

definition clearLoginNonceCookie :: "writer \<Rightarrow> writer" where
  "clearLoginNonceCookie w = set_cookie (host_cookie loginNonceCookieName [] (-1)) w"

text \<open>What the browser sends back: the last value set for a name, none once it is expired.\<close>

definition browser_cookie :: "string \<Rightarrow> cookie list \<Rightarrow> string option" where
  "browser_cookie name cs = (case find (\<lambda>c. ck_Name c = name) (rev cs) of
     None \<Rightarrow> None | Some c \<Rightarrow> if ck_MaxAge c < 0 then None else Some (ck_Value c))"

text \<open>The conditions browsers put on a cookie whose name starts with \<open>__Host-\<close>.\<close>

definition host_prefix_ok :: "cookie \<Rightarrow> bool" where
  "host_prefix_ok c = (has_prefix (ck_Name c) ''__Host-'' \<and> ck_Secure c \<and> ck_Path c = ''/'' \<and>
     ck_HttpOnly c \<and> ck_SameSiteLax c)"

lemma host_cookie_ok: "name = SessionCookieName \<or> name = loginNonceCookieName \<Longrightarrow>
    host_prefix_ok (host_cookie name v age)"
  by (auto simp: host_prefix_ok_def host_cookie_def SessionCookieName_def loginNonceCookieName_def
      has_prefix_def)

section \<open>Handlers\<close>

text \<open>
  The libraries the handlers reach: the parser of addresses, case folding, the hash of tokens,
  the texts of identifiers, the host of an \<open>Origin\<close> header, how \<open>ServeMux\<close> redirects a path it
  has to clean, the upper case of a rune, and \<open>http.ServeContent\<close>, which may answer a request for
  a range or a revalidation with less than the whole content.  \<open>l_fold\<close> is how the database folds \<open>citext\<close>.
\<close>

record lib =
  l_parse_address :: "string \<Rightarrow> (string \<times> string) option"
  l_lower :: "string \<Rightarrow> string"
  l_fold :: "string \<Rightarrow> string"
  l_hash :: "string \<Rightarrow> bytes"
  l_uuid_parse :: "string \<Rightarrow> uuid option"
  l_uuid_text :: "uuid \<Rightarrow> string"
  l_origin_host :: "string \<Rightarrow> string option"
  l_mux_redirect :: "request \<Rightarrow> writer \<Rightarrow> response"
  l_upper :: "nat \<Rightarrow> nat"
  l_serve_content :: "request \<Rightarrow> string \<Rightarrow> writer \<Rightarrow> response"

type_synonym 'z handler = "request \<Rightarrow> writer \<Rightarrow> ('z, response) prog"

definition answer :: "response \<Rightarrow> ('z, response) prog" where
  "answer resp = State_Monad.return resp"

lemma run_answer [run_simps]: "run_state (answer resp) w = (resp, w)"
  by (simp add: answer_def)

lemma keeps_answer [keeps_intros]: "keeps I (answer resp)"
  unfolding answer_def by (rule keeps_return)

lemma conn_only_answer [conn_only_intros]: "conn_only (answer resp)"
  unfolding answer_def by (rule conn_only_return)

text \<open>\<open>x, err := m; if err != nil { handle err } else { rest }\<close>.\<close>

definition on_result ::
  "('s, 'e + 'a) state \<Rightarrow> ('e \<Rightarrow> ('s, 'b) state) \<Rightarrow> ('a \<Rightarrow> ('s, 'b) state) \<Rightarrow> ('s, 'b) state" where
  "on_result m h k = do { r \<leftarrow> m; case r of Inl e \<Rightarrow> h e | Inr x \<Rightarrow> k x }"

lemma run_on_result [run_simps]:
  "run_state (on_result m h k) w =
     (case run_state m w of (r, w') \<Rightarrow> case r of Inl e \<Rightarrow> run_state (h e) w' | Inr x \<Rightarrow> run_state (k x) w')"
  by (simp add: on_result_def split: prod.splits sum.splits)

lemma keeps_on_result [keeps_intros]:
  "keeps I m \<Longrightarrow> (\<And>e. keeps I (h e)) \<Longrightarrow> (\<And>x. keeps I (k x)) \<Longrightarrow> keeps I (on_result m h k)"
  unfolding on_result_def by (intro keeps_intros)

lemma conn_only_on_result [conn_only_intros]:
  "conn_only m \<Longrightarrow> (\<And>e. conn_only (h e)) \<Longrightarrow> (\<And>x. conn_only (k x)) \<Longrightarrow> conn_only (on_result m h k)"
  unfolding on_result_def by (intro conn_only_intros)

lemmas respond_defs = respond_def set_header_def add_header_def set_cookie_def http_Error_def
  http_NotFound_def http_Redirect_def internal_error_def bad_request_def renderTemplate_def

lemmas cookie_defs = SetSessionCookie_def ClearSessionCookie_def setLoginNonceCookie_def
  clearLoginNonceCookie_def host_cookie_def

end
