(* ===== verification/Outside.thy ===== *)
theory Outside
  imports Response
begin

text \<open>
  The world of the web server beyond its database: the mail it has sent and the directory of
  photos, with what goes wrong there.  \<open>w_mail_faults\<close> says which of the next sends fail,
  \<open>w_disk_faults\<close> which of the next file operations do; as for the database, every theorem holds
  for every such list.  The directory maps file names to contents.
\<close>

section \<open>The world\<close>

record web = conn +
  w_sent :: "(string \<times> string \<times> string) list"
  w_mail_faults :: "bool list"
  w_files :: "string \<rightharpoonup> string"
  w_disk_faults :: "bool list"

type_synonym ('z, 'r) web_prog = "('z web_scheme, 'r) state"
type_synonym 'z web_handler = "request \<Rightarrow> writer \<Rightarrow> ('z, response) web_prog"

text \<open>\<open>Mailer.Send\<close>: whether the message left.\<close>

definition mailer_Send :: "string \<Rightarrow> string \<Rightarrow> string \<Rightarrow> ('z, bool) web_prog" where
  "mailer_Send to subject body = State (\<lambda>w. case w_mail_faults w of
     [] \<Rightarrow> (True, w\<lparr>w_sent := w_sent w @ [(to, subject, body)]\<rparr>)
   | f # fs \<Rightarrow> if f then (False, w\<lparr>w_mail_faults := fs\<rparr>)
       else (True, w\<lparr>w_sent := w_sent w @ [(to, subject, body)], w_mail_faults := fs\<rparr>))"

lemma run_mailer_Send [run_simps]:
  "run_state (mailer_Send to subject body) w = (case w_mail_faults w of
     [] \<Rightarrow> (True, w\<lparr>w_sent := w_sent w @ [(to, subject, body)]\<rparr>)
   | f # fs \<Rightarrow> if f then (False, w\<lparr>w_mail_faults := fs\<rparr>)
       else (True, w\<lparr>w_sent := w_sent w @ [(to, subject, body)], w_mail_faults := fs\<rparr>))"
  by (simp add: mailer_Send_def)

section \<open>The disk\<close>

text \<open>One operation on the file system: it fails with no effect, or has its effect.\<close>

definition disk_step :: "((string \<rightharpoonup> string) \<Rightarrow> (string \<rightharpoonup> string)) \<Rightarrow> ('z, bool) web_prog" where
  "disk_step f = State (\<lambda>w. case w_disk_faults w of
     [] \<Rightarrow> (True, w\<lparr>w_files := f (w_files w)\<rparr>)
   | x # xs \<Rightarrow> if x then (False, w\<lparr>w_disk_faults := xs\<rparr>)
       else (True, w\<lparr>w_files := f (w_files w), w_disk_faults := xs\<rparr>))"

definition read_files :: "('z, string \<rightharpoonup> string) web_prog" where
  "read_files = State (\<lambda>w. (w_files w, w))"

lemma run_disk_step [run_simps]:
  "run_state (disk_step f) w = (case w_disk_faults w of
     [] \<Rightarrow> (True, w\<lparr>w_files := f (w_files w)\<rparr>)
   | x # xs \<Rightarrow> if x then (False, w\<lparr>w_disk_faults := xs\<rparr>)
       else (True, w\<lparr>w_files := f (w_files w), w_disk_faults := xs\<rparr>))"
  by (simp add: disk_step_def)

lemma run_read_files [run_simps]: "run_state read_files w = (w_files w, w)"
  by (simp add: read_files_def)

text \<open>What mail and disk do never touches the database.\<close>

lemma keeps_mailer_Send [keeps_intros]: "keeps I (mailer_Send to s b)"
  by (rule keepsI) (simp add: run_simps split: list.splits)

lemma keeps_disk_step [keeps_intros]: "keeps I (disk_step f)"
  by (rule keepsI) (simp add: run_simps split: list.splits)

lemma keeps_read_files [keeps_intros]: "keeps I read_files"
  by (rule keepsI) (simp add: run_simps)

text \<open>Programs of the database leave mail and disk alone.\<close>

lemma conn_only_outside:
  fixes w :: "'z web_scheme"
  assumes "conn_only m" and "run_state m w = (r, w')"
  shows "w_sent w' = w_sent w" "w_files w' = w_files w" "w_mail_faults w' = w_mail_faults w"
    "w_disk_faults w' = w_disk_faults w" "c_now w' = c_now w"
proof -
  obtain d fs where "snd (run_state m w) = w\<lparr>c_db := d, c_faults := fs\<rparr>"
    using assms(1) unfolding conn_only_def by blast
  then have w': "w' = w\<lparr>c_db := d, c_faults := fs\<rparr>" using assms(2) by simp
  show "w_sent w' = w_sent w" "w_files w' = w_files w" "w_mail_faults w' = w_mail_faults w"
    "w_disk_faults w' = w_disk_faults w" "c_now w' = c_now w"
    by (simp_all add: w')
qed

end
