(* ===== verification/Home.thy ===== *)
theory Home
  imports StyleEdit Outside
begin

text \<open>
  \<open>internal/web/home.go\<close>: the dashboard, from the account, its mood, its guestbook and its style.
  \<open>now\<close> is the server's clock.
\<close>

section \<open>The style box\<close>

definition style_color_row :: "Style \<Rightarrow> string \<Rightarrow> Slot \<Rightarrow> styleColorRow" where
  "style_color_row draft moodKey slot =
     (let row = \<lparr>sc_Key = sl_Key slot, sc_Label = sl_Label slot,
            sc_Hex = Default (sl_Key slot) moodKey, sc_Custom = False\<rparr>
      in case map_of (Colors draft) (sl_Key slot) of
          None \<Rightarrow> row | Some c \<Rightarrow> row\<lparr>sc_Hex := c, sc_Custom := True\<rparr>)"

definition style_font_row :: "string \<Rightarrow> string \<Rightarrow> string \<Rightarrow> string \<Rightarrow> string \<Rightarrow> styleFontRow" where
  "style_font_row field reset label chosen defaultKey =
     (let selected = fontOrDefault chosen defaultKey
      in \<lparr>sf_Field = field, sf_Reset = reset, sf_Label = label, sf_Custom = (chosen \<noteq> []),
          sf_Options = map (\<lambda>f. \<lparr>fo_Key = f_Key f, fo_Label = f_Label f, fo_Selected = (f_Key f = selected)\<rparr>) Fonts\<rparr>)"

definition styleBoxFor :: "Style \<Rightarrow> Style \<Rightarrow> string \<Rightarrow> string \<Rightarrow> styleBox" where
  "styleBoxFor draft stored moodKey errMsg =
     \<lparr>sb_Colors = map (style_color_row draft moodKey) Slots,
      sb_Fonts =
        [style_font_row fieldHeadFont resetHead (''Tipograf'' @ [CHR 0xC3, CHR 0xAD] @ ''a de los t'' @ [CHR 0xC3, CHR 0xAD] @ ''tulos'')
           (HeadFont draft) DefaultHeadFont,
         style_font_row fieldBodyFont resetBody (''Tipograf'' @ [CHR 0xC3, CHR 0xAD] @ ''a del texto'')
           (BodyFont draft) DefaultBodyFont],
      sb_KeepsMoodBox = (\<not> OwnMoodBox draft), sb_Unsaved = (\<not> Equal draft stored), sb_Error = errMsg\<rparr>"

section \<open>The dashboard\<close>

definition photoURL :: "string \<Rightarrow> string" where
  "photoURL key = ''/photo/'' @ key @ ''.jpg''"

definition own_entry_view :: "lib \<Rightarrow> Config \<Rightarrow> Entry \<Rightarrow> ownEntryView" where
  "own_entry_view lib cfg e =
     \<lparr>oe_ID = l_uuid_text lib (e_ID e), oe_AuthorHandle = e_AuthorHandle e,
      oe_AuthorURL = PageBaseURL cfg (e_AuthorHandle e) @ ''/'',
      oe_Date = guestbook_date (e_CreatedAt e), oe_Body = e_Body e, oe_Hidden = e_Hidden e\<rparr>"

definition home_account :: "Config \<Rightarrow> instant \<Rightarrow> User \<Rightarrow> homeMessages \<Rightarrow> appHomeData" where
  "home_account cfg now u msgs =
     \<lparr>ah_MoodClass = [], ah_Handle = Handle u, ah_DisplayName = DisplayName u,
      ah_NameError = hm_Name msgs,
      ah_PageURL = (if Handle u \<noteq> [] then PageBaseURL cfg (Handle u) else []),
      ah_PageAddress = (if Handle u \<noteq> [] then PageHostFor (PagesHost cfg) (Handle u) else []),
      ah_HasMood = False, ah_MoodLabel = [], ah_MoodNote = [], ah_MoodOptions = [],
      ah_Error = hm_Mood msgs, ah_CanUploadPhoto = CanUploadPhotos u,
      ah_PhotoURL = (if PhotoKey u \<noteq> [] then photoURL (PhotoKey u) else []),
      ah_PhotoWidth = (if PhotoKey u \<noteq> [] then PhotoWidth u else 0),
      ah_PhotoHeight = (if PhotoKey u \<noteq> [] then PhotoHeight u else 0),
      ah_PhotoChangedToday = UploadedPhotoOn (\<lambda>_. argentina) u now,
      ah_PhotoError = hm_Photo msgs, ah_Guestbook = [], ah_Style = None\<rparr>"

definition home_mood :: "Mood option \<Rightarrow> appHomeData \<Rightarrow> appHomeData" where
  "home_mood m data =
     (let data1 = (case m of None \<Rightarrow> data
          | Some md \<Rightarrow> data\<lparr>ah_HasMood := True, ah_MoodClass := md_Key md, ah_MoodLabel := Label (md_Key md),
              ah_MoodNote := md_Note md\<rparr>)
      in data1\<lparr>ah_MoodOptions := map (\<lambda>k. \<lparr>mo_Key = k, mo_Label = Label k,
           mo_Selected = (case m of None \<Rightarrow> False | Some md \<Rightarrow> k = md_Key md)\<rparr>) AllKeys\<rparr>)"

definition home_guestbook :: "lib \<Rightarrow> Config \<Rightarrow> User \<Rightarrow> appHomeData \<Rightarrow> ('z, appHomeData) prog" where
  "home_guestbook lib cfg u data =
     (if Handle u \<noteq> [] then do {
        r \<leftarrow> Own (ID u) OwnerLimit;
        State_Monad.return (case r of
          Inl _ \<Rightarrow> data
        | Inr entries \<Rightarrow> data\<lparr>ah_Guestbook := map (own_entry_view lib cfg) entries\<rparr>)
      } else State_Monad.return data)"

text \<open>Everything after the mood is known: the guestbook, the style box and the page.\<close>

definition home_page :: "lib \<Rightarrow> Config \<Rightarrow> instant \<Rightarrow> int \<Rightarrow> User \<Rightarrow> homeMessages \<Rightarrow> Mood option \<Rightarrow> writer \<Rightarrow> ('z, response) prog" where
  "home_page lib cfg now st u msgs m w = do {
     data \<leftarrow> home_guestbook lib cfg u (home_mood m (home_account cfg now u msgs));
     (if Handle u = [] then answer (renderTemplate st (AppHome data) w)
      else on_result (GetStyle (ID u)) (\<lambda>_. answer (internal_error w)) (\<lambda>stored.
        (let draft = (case hm_Draft msgs of None \<Rightarrow> stored | Some d \<Rightarrow> d);
             moodKey = (case m of None \<Rightarrow> ''none'' | Some md \<Rightarrow> md_Key md)
         in answer (renderTemplate st (AppHome
              (data\<lparr>ah_Style := Some (styleBoxFor draft stored moodKey (hm_Style msgs))\<rparr>)) w))))
   }"

definition renderAppHomeMessages :: "lib \<Rightarrow> Config \<Rightarrow> instant \<Rightarrow> int \<Rightarrow> User \<Rightarrow> homeMessages \<Rightarrow> writer \<Rightarrow> ('z, response) prog" where
  "renderAppHomeMessages lib cfg now st u msgs w =
     on_result (CurrentMood (ID u))
       (\<lambda>err. if err \<noteq> ErrNoMood then answer (internal_error w) else home_page lib cfg now st u msgs None w)
       (\<lambda>md. home_page lib cfg now st u msgs (Some md) w)"

definition renderAppHomeErrors :: "lib \<Rightarrow> Config \<Rightarrow> instant \<Rightarrow> int \<Rightarrow> User \<Rightarrow> string \<Rightarrow> string \<Rightarrow> writer \<Rightarrow> ('z, response) prog" where
  "renderAppHomeErrors lib cfg now st u errMsg nameErr w =
     renderAppHomeMessages lib cfg now st u (no_messages\<lparr>hm_Mood := errMsg, hm_Name := nameErr\<rparr>) w"

definition renderAppHome :: "lib \<Rightarrow> Config \<Rightarrow> instant \<Rightarrow> int \<Rightarrow> User \<Rightarrow> string \<Rightarrow> writer \<Rightarrow> ('z, response) prog" where
  "renderAppHome lib cfg now st u errMsg w = renderAppHomeErrors lib cfg now st u errMsg [] w"

definition handleAppHome :: "lib \<Rightarrow> Config \<Rightarrow> instant \<Rightarrow> 'z handler" where
  "handleAppHome lib cfg now r w = (case UserFrom r of
     None \<Rightarrow> answer (http_Redirect ''/login'' 303 w)
   | Some u \<Rightarrow>
       if UState u \<noteq> StateActive then
         answer (renderTemplate 200 (ClaimHandlePage \<lparr>ch_Error = [], ch_Handle = []\<rparr>) w)
       else renderAppHome lib cfg now 200 u [] w)"

text \<open>Looking at the dashboard changes nothing.\<close>

lemma keeps_home_guestbook [keeps_intros]: "keeps I (home_guestbook lib cfg u data)"
  unfolding home_guestbook_def by (intro keeps_intros)

lemma conn_only_home_guestbook [conn_only_intros]: "conn_only (home_guestbook lib cfg u data)"
  unfolding home_guestbook_def by (intro conn_only_intros)

lemma keeps_GetStyle [keeps_intros]: "keeps I (GetStyle uid)"
  unfolding GetStyle_def by (intro keeps_intros stmt_intros)

lemma conn_only_GetStyle [conn_only_intros]: "conn_only (GetStyle uid)"
  unfolding GetStyle_def by (intro conn_only_intros)

lemma keeps_render_home [keeps_intros]:
  "keeps I (renderAppHomeMessages lib cfg now st u msgs w)" "keeps I (renderAppHomeErrors lib cfg now st u e n w)"
  "keeps I (renderAppHome lib cfg now st u e w)" "keeps I (handleAppHome lib cfg now r w)"
  unfolding renderAppHome_def renderAppHomeErrors_def renderAppHomeMessages_def home_page_def
    handleAppHome_def Let_def
  by (intro keeps_intros)+

lemma conn_only_render_home [conn_only_intros]:
  "conn_only (renderAppHomeMessages lib cfg now st u msgs w)"
  "conn_only (renderAppHomeErrors lib cfg now st u e n w)" "conn_only (renderAppHome lib cfg now st u e w)"
  "conn_only (handleAppHome lib cfg now r w)"
  unfolding renderAppHome_def renderAppHomeErrors_def renderAppHomeMessages_def home_page_def
    handleAppHome_def Let_def
  by (intro conn_only_intros)+

end
