(* ===== verification/PhotoStore.thy ===== *)
theory PhotoStore
  imports Outside
begin

text \<open>
  \<open>internal/photostore\<close>: photos on disk under random keys.  A file is written under a temporary
  name and renamed into place, one file-system operation at a time, each of which may fail.
\<close>

section \<open>Keys\<close>

datatype store_err = ErrInvalidKey | ErrNotExist | StoreWrap string

definition keyBytes :: nat where "keyBytes = 16"
definition keyLen :: nat where "keyLen = 26"
definition ext :: string where "ext = ''.jpg''"

text \<open>The pattern \<open>^[a-z2-7]{26}$\<close>.\<close>

definition key_char :: "char \<Rightarrow> bool" where
  "key_char c = (97 \<le> code c \<and> code c \<le> 122 \<or> 50 \<le> code c \<and> code c \<le> 55)"

definition keyPattern :: "string \<Rightarrow> bool" where
  "keyPattern key = (length key = 26 \<and> list_all key_char key)"

definition ValidKey :: "string \<Rightarrow> bool" where
  "ValidKey key = (length key = keyLen \<and> keyPattern key)"

text \<open>
  \<open>base32.StdEncoding\<close> without padding: the bits in groups of five from the front, the last group
  filled with zeros, each a letter or a digit.
\<close>

fun bits_of :: "nat \<Rightarrow> nat \<Rightarrow> bool list" where
  "bits_of 0 n = []"
| "bits_of (Suc k) n = bits_of k (n div 2) @ [n mod 2 = 1]"

definition bits_val :: "bool list \<Rightarrow> nat" where
  "bits_val bs = foldl (\<lambda>n b. 2 * n + (if b then 1 else 0)) 0 bs"

definition base32_char :: "nat \<Rightarrow> char" where
  "base32_char n = (if n < 26 then byte (65 + n) else byte (24 + n))"

fun base32_groups :: "nat \<Rightarrow> bool list \<Rightarrow> string" where
  "base32_groups 0 bs = []"
| "base32_groups (Suc k) bs = (if bs = [] then []
     else base32_char (bits_val (take 5 (bs @ [False, False, False, False]))) # base32_groups k (drop 5 bs))"

definition base32 :: "string \<Rightarrow> string" where
  "base32 s = (let bs = concat (map (\<lambda>c. bits_of 8 (code c)) s) in base32_groups (length bs) bs)"

definition NewKey :: "bytes \<Rightarrow> string" where
  "NewKey b = map lower_byte (base32 b)"

definition path :: "string \<Rightarrow> store_err + string" where
  "path key = (if \<not> ValidKey key then Inl ErrInvalidKey else Inr (key @ ext))"

section \<open>Operations\<close>

text \<open>
  \<open>if err := step; err != nil { cleanup; return err }\<close>: the cleanup's own failure is ignored.
\<close>

definition step_or ::
  "((string \<rightharpoonup> string) \<Rightarrow> (string \<rightharpoonup> string)) \<Rightarrow> string \<Rightarrow> ('z, 'b) web_prog \<Rightarrow>
   ('z, store_err + 'a) web_prog \<Rightarrow> ('z, store_err + 'a) web_prog" where
  "step_or f what cleanup k = do {
     ok \<leftarrow> disk_step f;
     if ok then k else do { _ \<leftarrow> cleanup; State_Monad.return (Inl (StoreWrap what)) }
   }"

definition no_cleanup :: "('z, unit) web_prog" where
  "no_cleanup = State_Monad.return ()"

text \<open>\<open>New\<close>: the directory is there and takes files; the probe it writes is gone again.\<close>

definition NewStore :: "string \<Rightarrow> ('z, store_err + unit) web_prog" where
  "NewStore probe =
     step_or id ''create'' no_cleanup
    (step_or (\<lambda>fs. fs(probe \<mapsto> [])) ''not writable'' no_cleanup
    (step_or id ''probe'' (disk_step (\<lambda>fs. fs(probe := None)))
    (step_or (\<lambda>fs. fs(probe := None)) ''probe'' no_cleanup
    (State_Monad.return (Inr ())))))"

text \<open>
  \<open>Save\<close>.  \<open>tmp\<close> is the name \<open>os.CreateTemp\<close> picks; syncing, closing and changing the mode do
  not change what a reader sees.
\<close>

definition Save :: "string \<Rightarrow> string \<Rightarrow> string \<Rightarrow> ('z, store_err + unit) web_prog" where
  "Save tmp key jpeg = (case path key of
     Inl err \<Rightarrow> State_Monad.return (Inl err)
   | Inr dst \<Rightarrow>
       (let cleanup = disk_step (\<lambda>fs. fs(tmp := None)) in
        step_or (\<lambda>fs. fs(tmp \<mapsto> [])) ''create temp'' no_cleanup
       (step_or (\<lambda>fs. fs(tmp \<mapsto> jpeg)) ''write'' cleanup
       (step_or id ''sync'' cleanup
       (step_or id ''close'' cleanup
       (step_or id ''chmod'' cleanup
       (step_or (\<lambda>fs. fs(dst := fs tmp, tmp := None)) ''rename'' cleanup
       (step_or id ''open dir'' no_cleanup
       (step_or id ''sync dir'' no_cleanup
       (step_or id ''close dir'' no_cleanup
       (State_Monad.return (Inr ()))))))))))))"

definition Open :: "string \<Rightarrow> ('z, store_err + string) web_prog" where
  "Open key = (case path key of
     Inl err \<Rightarrow> State_Monad.return (Inl err)
   | Inr p \<Rightarrow> do {
       ok \<leftarrow> disk_step id;
       fs \<leftarrow> read_files;
       State_Monad.return (case fs p of
         None \<Rightarrow> Inl ErrNotExist
       | Some c \<Rightarrow> if ok then Inr c else Inl (StoreWrap ''open''))
     })"

definition Remove :: "string \<Rightarrow> ('z, store_err + unit) web_prog" where
  "Remove key = (case path key of
     Inl err \<Rightarrow> State_Monad.return (Inl err)
   | Inr p \<Rightarrow> do {
       fs \<leftarrow> read_files;
       (case fs p of
          None \<Rightarrow> State_Monad.return (Inr ())
        | Some _ \<Rightarrow> do {
            ok \<leftarrow> disk_step (\<lambda>fs. fs(p := None));
            State_Monad.return (if ok then Inr () else Inl (StoreWrap ''remove''))
          })
     })"

lemma keeps_store [keeps_intros]:
  "keeps I no_cleanup" "keeps I c \<Longrightarrow> keeps I k \<Longrightarrow> keeps I (step_or f what c k)"
  unfolding no_cleanup_def step_or_def by (intro keeps_intros | assumption)+

lemma keeps_photos [keeps_intros]:
  "keeps I (Save tmp key jpeg)" "keeps I (Open key)" "keeps I (Remove key)" "keeps I (NewStore probe)"
  unfolding Save_def Open_def Remove_def NewStore_def Let_def by (intro keeps_intros)+

section \<open>Keys and paths\<close>

lemma ValidKey_safe:
  assumes "ValidKey key" shows "length key = 26 \<and> CHR ''/'' \<notin> set key \<and> CHR ''.'' \<notin> set key"
  using assms by (auto simp: ValidKey_def keyPattern_def list_all_iff key_char_def keyLen_def code_def)

lemma bits_val_less: "bits_val bs < 2 ^ length bs"
proof (induction bs rule: rev_induct)
  case (snoc b bs)
  then show ?case by (simp add: bits_val_def)
qed (simp add: bits_val_def)

lemma base32_char_lower: "n < 32 \<Longrightarrow> key_char (lower_byte (base32_char n))"
  by (auto simp: base32_char_def key_char_def code_lower_byte)

lemma base32_groups_chars:
  "length (base32_groups k bs) \<le> k \<and> list_all key_char (map lower_byte (base32_groups k bs))"
proof (induction k arbitrary: bs)
  case (Suc k)
  have "bits_val (take 5 (bs @ [False, False, False, False])) < 2 ^ length (take 5 (bs @ [False, False, False, False]))"
    by (rule bits_val_less)
  also have "\<dots> \<le> 2 ^ 5" by (intro power_increasing) auto
  finally have "bits_val (take 5 (bs @ [False, False, False, False])) < 32" by simp
  then show ?case using Suc [of "drop 5 bs"] by (simp add: base32_char_lower)
qed simp

lemma base32_groups_length: "length bs \<le> k \<Longrightarrow> length (base32_groups k bs) = (length bs + 4) div 5"
proof (induction k arbitrary: bs)
  case (Suc k)
  show ?case
  proof (cases "bs = []")
    case False
    then have "0 < length bs" by simp
    then have "length (base32_groups k (drop 5 bs)) = (length bs - 5 + 4) div 5"
      using Suc by simp
    moreover have "(length bs + 4) div 5 = 1" if "length bs < 5"
    proof -
      obtain n where "length bs = Suc n" using \<open>0 < length bs\<close> by (cases "length bs") auto
      then show ?thesis using that by simp
    qed
    ultimately show ?thesis using \<open>0 < length bs\<close> False by (cases "length bs < 5") auto
  qed simp
qed simp

lemma length_bits_of [simp]: "length (bits_of k n) = k"
  by (induction k arbitrary: n) auto

lemma NewKey_valid:
  assumes "length b = keyBytes" shows "ValidKey (NewKey b)"
proof -
  have "length (concat (map (\<lambda>c. bits_of 8 (code c)) b)) = 128"
    using assms by (simp add: length_concat comp_def keyBytes_def sum_list_triv)
  then have "length (base32 b) = 26"
    using base32_groups_length [of "concat (map (\<lambda>c. bits_of 8 (code c)) b)" 128]
    by (simp add: base32_def Let_def)
  then show ?thesis
    using base32_groups_chars by (simp add: ValidKey_def keyPattern_def keyLen_def NewKey_def base32_def Let_def)
qed


section \<open>What a reader of the directory sees\<close>

text \<open>A triple over the directory: from a state with \<open>P\<close>, whatever fails, the result has \<open>Q\<close>.\<close>

definition triple ::
  "((string \<rightharpoonup> string) \<Rightarrow> bool) \<Rightarrow> ('z, 'r) web_prog \<Rightarrow> ('r \<Rightarrow> (string \<rightharpoonup> string) \<Rightarrow> bool) \<Rightarrow> bool" where
  "triple P m Q = (\<forall>w. P (w_files w) \<longrightarrow> Q (fst (run_state m w)) (w_files (snd (run_state m w))))"

lemma tripleD: "triple P m Q \<Longrightarrow> P (w_files w) \<Longrightarrow> run_state m w = (r, w') \<Longrightarrow> Q r (w_files w')"
  unfolding triple_def by (metis fst_conv snd_conv)

lemma triple_return: "(\<And>fs. P fs \<Longrightarrow> Q r fs) \<Longrightarrow> triple P (State_Monad.return r) Q"
  by (simp add: triple_def)

lemma triple_disk_step:
  "(\<And>fs. P fs \<Longrightarrow> Q True (f fs)) \<Longrightarrow> (\<And>fs. P fs \<Longrightarrow> Q False fs) \<Longrightarrow> triple P (disk_step f) Q"
  by (simp add: triple_def run_simps split: list.splits)

lemma triple_step_or:
  assumes "\<And>fs. P fs \<Longrightarrow> R (f fs)" and "triple R k Q"
    and "triple P c (\<lambda>_. Q (Inl (StoreWrap what)))"
  shows "triple P (step_or f what c k) Q"
proof -
  have "Q (fst (run_state (step_or f what c k) w)) (w_files (snd (run_state (step_or f what c k) w)))"
    if P: "P (w_files w)" for w
  proof -
    obtain ok w1 where step: "run_state (disk_step f) w = (ok, w1)" by fastforce
    show ?thesis
    proof (cases ok)
      case True
      then have "R (w_files w1)" using P step assms(1) by (auto simp: run_simps split: list.splits if_splits)
      then show ?thesis using assms(2) step True by (simp add: step_or_def triple_def)
    next
      case False
      then have "P (w_files w1)" using P step by (auto simp: run_simps split: list.splits if_splits)
      then have "Q (Inl (StoreWrap what)) (w_files (snd (run_state c w1)))"
        using assms(3) by (simp add: triple_def)
      then show ?thesis using step False by (cases "run_state c w1") (simp add: step_or_def run_simps)
    qed
  qed
  then show ?thesis by (simp add: triple_def)
qed

lemma triple_no_cleanup: "(\<And>fs. P fs \<Longrightarrow> Q () fs) \<Longrightarrow> triple P no_cleanup Q"
  unfolding no_cleanup_def by (rule triple_return)

text \<open>What saving may do to the directory, before and after the rename.\<close>

definition saving :: "string \<Rightarrow> string \<Rightarrow> (string \<rightharpoonup> string) \<Rightarrow> (string \<rightharpoonup> string) \<Rightarrow> bool" where
  "saving tmp dst fs0 fs = (fs dst = fs0 dst \<and> (\<forall>n. n \<noteq> tmp \<longrightarrow> n \<noteq> dst \<longrightarrow> fs n = fs0 n))"

definition saved :: "string \<Rightarrow> string \<Rightarrow> string \<Rightarrow> (string \<rightharpoonup> string) \<Rightarrow> (string \<rightharpoonup> string) \<Rightarrow> bool" where
  "saved tmp dst jpeg fs0 fs = (fs dst = Some jpeg \<and> fs tmp = None \<and>
     (\<forall>n. n \<noteq> tmp \<longrightarrow> n \<noteq> dst \<longrightarrow> fs n = fs0 n))"

definition save_outcome where
  "save_outcome tmp dst jpeg fs0 r fs = (case r of
     Inr _ \<Rightarrow> saved tmp dst jpeg fs0 fs | Inl _ \<Rightarrow> saving tmp dst fs0 fs \<or> saved tmp dst jpeg fs0 fs)"

lemma temp_name: "has_prefix tmp ''.upload-'' \<Longrightarrow> ValidKey key \<Longrightarrow> tmp \<noteq> key @ ext"
  using ValidKey_safe [of key] by (cases key) (auto simp: has_prefix_def)

lemma Save_triple:
  assumes "ValidKey key" and "tmp \<noteq> key @ ext"
  shows "triple (\<lambda>fs. fs = fs0) (Save tmp key jpeg) (save_outcome tmp (key @ ext) jpeg fs0)"
proof -
  let ?dst = "key @ ext"
  have clean: "triple (saving tmp ?dst fs0) (disk_step (\<lambda>fs. fs(tmp := None)))
      (\<lambda>_. save_outcome tmp ?dst jpeg fs0 (Inl e))" for e
    using assms(2) by (intro triple_disk_step) (auto simp: save_outcome_def saving_def)
  have clean_full: "triple (\<lambda>fs. saving tmp ?dst fs0 fs \<and> fs tmp = Some jpeg) (disk_step (\<lambda>fs. fs(tmp := None)))
      (\<lambda>_. save_outcome tmp ?dst jpeg fs0 (Inl e))" for e
    using assms(2) by (intro triple_disk_step) (auto simp: save_outcome_def saving_def)
  have fin: "triple (saved tmp ?dst jpeg fs0) no_cleanup (\<lambda>_. save_outcome tmp ?dst jpeg fs0 (Inl e))" for e
    by (intro triple_no_cleanup) (simp add: save_outcome_def)
  have start: "triple (\<lambda>fs. fs = fs0) no_cleanup (\<lambda>_. save_outcome tmp ?dst jpeg fs0 (Inl e))" for e
    by (intro triple_no_cleanup) (simp add: save_outcome_def saving_def)
  have path: "path key = Inr ?dst" using assms(1) by (simp add: path_def)
  show ?thesis
    unfolding Save_def path sum.case Let_def
    apply (rule triple_step_or [where R = "saving tmp ?dst fs0"])
      prefer 3 apply (rule start)
    subgoal using assms(2) by (auto simp: saving_def)
    apply (rule triple_step_or [where R = "\<lambda>fs. saving tmp ?dst fs0 fs \<and> fs tmp = Some jpeg"])
      prefer 3 apply (rule clean)
    subgoal using assms(2) by (auto simp: saving_def)
    apply (rule triple_step_or [where R = "\<lambda>fs. saving tmp ?dst fs0 fs \<and> fs tmp = Some jpeg"], simp,
        rule_tac [2] clean_full)+
    apply (rule triple_step_or [where R = "saved tmp ?dst jpeg fs0"])
      prefer 3 apply (rule clean_full)
    subgoal using assms(2) by (auto simp: saving_def saved_def)
    apply (rule triple_step_or [where R = "saved tmp ?dst jpeg fs0"], simp, rule_tac [2] fin)+
    by (rule triple_return) (simp add: save_outcome_def)
qed

lemma Save_effect:
  assumes "run_state (Save tmp key jpeg) w = (r, w')" and "has_prefix tmp ''.upload-''"
  shows "(\<forall>n. n \<noteq> tmp \<longrightarrow> n \<noteq> key @ ''.jpg'' \<longrightarrow> w_files w' n = w_files w n) \<and>
    (w_files w' (key @ ''.jpg'') = w_files w (key @ ''.jpg'') \<or> w_files w' (key @ ''.jpg'') = Some jpeg) \<and>
    (r = Inr () \<longrightarrow> w_files w' (key @ ''.jpg'') = Some jpeg \<and> w_files w' tmp = None) \<and>
    (\<not> ValidKey key \<longrightarrow> r = Inl ErrInvalidKey \<and> w' = w)"
proof (cases "ValidKey key")
  case True
  have "save_outcome tmp (key @ ext) jpeg (w_files w) r (w_files w')"
    by (rule tripleD [OF Save_triple [OF True temp_name [OF assms(2) True]] refl assms(1)])
  then have out: "save_outcome tmp (key @ ''.jpg'') jpeg (w_files w) r (w_files w')"
    by (simp only: ext_def)
  show ?thesis
  proof (cases r)
    case (Inl e)
    then show ?thesis using out True unfolding save_outcome_def saving_def saved_def by (simp only: sum.case) blast
  next
    case (Inr u)
    then show ?thesis using out True unfolding save_outcome_def saved_def by (simp only: sum.case) blast
  qed
next
  case False
  then show ?thesis using assms(1) by (auto simp: Save_def path_def)
qed

text \<open>Saving a photo is all or nothing for whoever reads the directory, whichever of its file
  operations fail: the photo's file is what it was or the whole new photo, success means it is the
  new photo with no temporary file left, and no other file changes.  A key of the wrong shape
  touches nothing.\<close>

theorem Save_atomic:
  assumes "run_state (Save tmp key jpeg) w = (r, w')" and "has_prefix tmp ''.upload-''"
  shows "(\<forall>n. n \<noteq> tmp \<longrightarrow> n \<noteq> key @ ''.jpg'' \<longrightarrow> w_files w' n = w_files w n) \<and>
    (w_files w' (key @ ''.jpg'') = w_files w (key @ ''.jpg'') \<or> w_files w' (key @ ''.jpg'') = Some jpeg) \<and>
    (r = Inr () \<longrightarrow> w_files w' (key @ ''.jpg'') = Some jpeg \<and> w_files w' tmp = None) \<and>
    (\<not> ValidKey key \<longrightarrow> r = Inl ErrInvalidKey \<and> w' = w)"
  by (rule Save_effect [OF assms])

text \<open>C36: A new key is a key: any sixteen random bytes give a file name of the store, twenty-six
  characters with no separator or dot, so no key ever leads out of the directory.\<close>

theorem NewKey_names_a_file:
  assumes "length b = 16"
  shows "path (NewKey b) = Inr (NewKey b @ ''.jpg'') \<and> length (NewKey b) = 26 \<and>
    CHR ''/'' \<notin> set (NewKey b) \<and> CHR ''.'' \<notin> set (NewKey b)"
proof -
  have v: "ValidKey (NewKey b)" by (rule NewKey_valid) (simp add: assms keyBytes_def)
  from ValidKey_safe [OF v] v show ?thesis by (simp add: path_def ext_def)
qed

definition demo_key :: string where "demo_key = ''aaaaaaaaaaaaaaaaaaaaaaaaaa''"

definition demo_disk :: web where
  "demo_disk = \<lparr>c_db = empty_db, c_now = 0, c_faults = [], w_sent = [], w_mail_faults = [],
     w_files = [demo_key @ ''.jpg'' \<mapsto> ''OLD''], w_disk_faults = [False, False, True]\<rparr>"

text \<open>The file system fails at the third operation: the old photo stays.\<close>

lemma Save_atomic_witness:
  "w_files (snd (run_state (Save ''.upload-1'' demo_key ''NEW'') demo_disk)) (demo_key @ ''.jpg'') \<in>
     {Some ''OLD'', Some ''NEW''}"
  using Save_atomic [of "''.upload-1''" demo_key "''NEW''" demo_disk, OF surjective_pairing]
  by (auto simp: has_prefix_def demo_disk_def)

lemma NewKey_names_a_file_witness: "length (NewKey (replicate 16 (byte 0))) = 26"
  using NewKey_names_a_file [of "replicate 16 (byte 0)"] by simp

end
