(* ===== verification/Bearer.thy ===== *)
theory Bearer
  imports Prelude
begin

text \<open>
  The contract of a store of bearer tokens, met by the sessions and by the login tokens: a token
  that was issued is found until its time to live is over, a token that was retired or has
  expired is never found again, and no operation on one token changes what another one finds.
\<close>

datatype ('k, 'v) token_op = IssueTok 'k 'v | RetireTok 'k

text \<open>Operations applied one after the other, each at its instant.\<close>

primrec run_ops ::
  "('k \<Rightarrow> 'v \<Rightarrow> instant \<Rightarrow> 'd \<Rightarrow> 'd) \<Rightarrow> ('k \<Rightarrow> instant \<Rightarrow> 'd \<Rightarrow> 'd) \<Rightarrow>
   (instant \<times> ('k, 'v) token_op) list \<Rightarrow> 'd \<Rightarrow> 'd" where
  "run_ops issue retire [] d = d"
| "run_ops issue retire (x # xs) d = run_ops issue retire xs
     (case snd x of IssueTok k v \<Rightarrow> issue k v (fst x) d | RetireTok k \<Rightarrow> retire k (fst x) d)"

primrec in_order :: "instant \<Rightarrow> (instant \<times> 'a) list \<Rightarrow> instant \<Rightarrow> bool" where
  "in_order now [] end_at = (now \<le> end_at)"
| "in_order now (x # xs) end_at = (now \<le> fst x \<and> in_order (fst x) xs end_at)"

locale bearer_store =
  fixes issue :: "'k \<Rightarrow> 'v \<Rightarrow> instant \<Rightarrow> 'd \<Rightarrow> 'd"
    and holder :: "'k \<Rightarrow> instant \<Rightarrow> 'd \<Rightarrow> 'v option"
    and retire :: "'k \<Rightarrow> instant \<Rightarrow> 'd \<Rightarrow> 'd"
    and used :: "'k \<Rightarrow> 'd \<Rightarrow> bool"
    and accepts :: "'k \<Rightarrow> 'v \<Rightarrow> 'd \<Rightarrow> bool"
    and ttl :: duration
    and inv :: "instant \<Rightarrow> 'd \<Rightarrow> bool"
  assumes issue_inv: "inv now d \<Longrightarrow> inv now (issue k v now d)"
    and retire_inv: "inv now d \<Longrightarrow> inv now (retire k now d)"
    and inv_later: "inv now d \<Longrightarrow> now \<le> t \<Longrightarrow> inv t d"
    and issue_used: "inv now d \<Longrightarrow> used k d \<Longrightarrow> holder k t (issue k v now d) = holder k t d"
    and issue_new: "inv now d \<Longrightarrow> \<not> used k d \<Longrightarrow> holder k t (issue k v now d) = Some v' \<Longrightarrow>
        v' = v \<and> t < now + ttl"
    and issue_accepted: "inv now d \<Longrightarrow> accepts k v d \<Longrightarrow> t < now + ttl \<Longrightarrow>
        holder k t (issue k v now d) = Some v"
    and issue_marks: "inv now d \<Longrightarrow> holder k t (issue k v now d) \<noteq> None \<Longrightarrow> used k (issue k v now d)"
    and issue_other: "inv now d \<Longrightarrow> k' \<noteq> k \<Longrightarrow> holder k' t (issue k v now d) = holder k' t d"
    and issue_used_other: "used k' d \<Longrightarrow> used k' (issue k v now d)"
    and retire_self: "inv now d \<Longrightarrow> now \<le> t \<Longrightarrow> holder k t (retire k now d) = None"
    and retire_other: "inv now d \<Longrightarrow> k' \<noteq> k \<Longrightarrow> holder k' t (retire k now d) = holder k' t d"
    and retire_used: "used k' d \<Longrightarrow> used k' (retire k now d)"
    and expires: "inv now d \<Longrightarrow> holder k t d = None \<Longrightarrow> t \<le> t' \<Longrightarrow> holder k t' d = None"
begin

text \<open>A token that is no longer found is gone for good, whatever is issued or retired later.\<close>

lemma gone_for_good:
  assumes "inv now d" "used k d" "holder k now d = None" "in_order now ops t"
  shows "holder k t (run_ops issue retire ops d) = None"
  using assms
proof (induction ops arbitrary: now d)
  case Nil
  then show ?case using expires by simp
next
  case (Cons x ops)
  obtain at op where x: "x = (at, op)" by (cases x)
  have "now \<le> at" and rest: "in_order at ops t" using Cons.prems(4) x by auto
  have inv: "inv at d" by (rule inv_later [OF Cons.prems(1) \<open>now \<le> at\<close>])
  have none: "holder k at d = None"
    using Cons.prems(1,3) \<open>now \<le> at\<close> by (rule expires)
  show ?case
  proof (cases op)
    case (IssueTok k' v)
    have "holder k at (issue k' v at d) = None"
      using none issue_used [OF inv, of k] issue_other [OF inv, of k k'] Cons.prems(2)
      by (cases "k' = k") auto
    then show ?thesis
      using Cons.IH [OF issue_inv [OF inv] _ _ rest, of k' v] issue_used_other [OF Cons.prems(2)]
        IssueTok x by simp
  next
    case (RetireTok k')
    have "holder k at (retire k' at d) = None"
      using none retire_self [OF inv] retire_other [OF inv, of k k'] by (cases "k' = k") auto
    then show ?thesis
      using Cons.IH [OF retire_inv [OF inv] _ _ rest, of k'] retire_used [OF Cons.prems(2)]
        RetireTok x by simp
  qed
qed

lemma retired_for_good:
  assumes "inv now d" "used k d" "in_order now ops t"
  shows "holder k t (run_ops issue retire ops (retire k now d)) = None"
  by (rule gone_for_good [OF retire_inv [OF assms(1)] retire_used [OF assms(2)]
      retire_self [OF assms(1) order.refl] assms(3)])

text \<open>
  A token that was accepted answers with its holder until it is retired or its time is over, and
  with nothing else, whatever happens to the other tokens meanwhile.
\<close>

lemma kept_until_retired:
  assumes "inv now d" "used k d" "holder k t d = h" "in_order now ops t"
    and "\<forall>x\<in>set ops. \<forall>k'. snd x = RetireTok k' \<longrightarrow> k' \<noteq> k"
  shows "holder k t (run_ops issue retire ops d) = h"
  using assms
proof (induction ops arbitrary: now d)
  case (Cons x ops)
  obtain at op where x: "x = (at, op)" by (cases x)
  have "now \<le> at" and rest: "in_order at ops t" using Cons.prems(4) x by auto
  have inv: "inv at d" by (rule inv_later [OF Cons.prems(1) \<open>now \<le> at\<close>])
  have others: "\<forall>x\<in>set ops. \<forall>k'. snd x = RetireTok k' \<longrightarrow> k' \<noteq> k"
    using Cons.prems(5) by auto
  show ?case
  proof (cases op)
    case (IssueTok k' v)
    have "holder k t (issue k' v at d) = h"
      using Cons.prems(2,3) issue_used [OF inv, of k] issue_other [OF inv, of k k']
      by (cases "k' = k") auto
    then show ?thesis
      using Cons.IH [OF issue_inv [OF inv] issue_used_other [OF Cons.prems(2)] _ rest others]
        IssueTok x by simp
  next
    case (RetireTok k')
    then have "k' \<noteq> k" using Cons.prems(5) x by auto
    then have "holder k t (retire k' at d) = h"
      using Cons.prems(3) retire_other [OF inv, of k k'] by simp
    then show ?thesis
      using Cons.IH [OF retire_inv [OF inv] retire_used [OF Cons.prems(2)] _ rest others]
        RetireTok x by simp
  qed
qed simp

lemma accepted_until_retired:
  assumes "inv now d" "accepts k v d" "in_order now ops t" "t < now + ttl"
    and "\<forall>x\<in>set ops. \<forall>k'. snd x = RetireTok k' \<longrightarrow> k' \<noteq> k"
  shows "holder k t (run_ops issue retire ops (issue k v now d)) = Some v"
  using issue_accepted [OF assms(1,2,4)] assms(3,5)
  by (intro kept_until_retired [OF issue_inv [OF assms(1)]] issue_marks [OF assms(1), where t = t]) auto

end

end
