(* ===== verification/Login.thy ===== *)
theory Login
  imports Users
begin

text \<open>
  Signing in as a state machine.  Links are requested, redeemed and purged in any order, by
  anyone, while time passes and any call may fail; two ghost lists record the links handed out
  and the links redeemed.  The budget, the single use and the supersession of older links are
  invariants of every reachable state.
\<close>

section \<open>What the two methods do\<close>

definition retire :: "instant \<Rightarrow> string \<Rightarrow> login_token \<Rightarrow> login_token" where
  "retire now a t = (if lt_email t = a \<and> lt_consumed_at t = None
     then t\<lparr>lt_consumed_at := Some now\<rparr> else t)"

definition fresh_token :: "uuid \<Rightarrow> bytes \<Rightarrow> string \<Rightarrow> instant \<Rightarrow> login_token" where
  "fresh_token rid digest a now = \<lparr>lt_id = rid, lt_token_hash = digest, lt_email = a,
     lt_created_at = now, lt_expires_at = now + TokenTTL, lt_consumed_at = None\<rparr>"

definition recent :: "instant \<Rightarrow> login_token \<Rightarrow> bool" where
  "recent now t = (lt_created_at t > now - LoginBudgetWindow)"

definition sent_recently :: "string \<Rightarrow> instant \<Rightarrow> db \<Rightarrow> nat" where
  "sent_recently a now d = length (filter (\<lambda>t. lt_email t = a \<and> recent now t) (login_tokens d))"

definition after_request :: "uuid \<Rightarrow> bytes \<Rightarrow> string \<Rightarrow> instant \<Rightarrow> db \<Rightarrow> db" where
  "after_request rid digest a now d =
     d\<lparr>login_tokens := map (retire now a) (login_tokens d) @ [fresh_token rid digest a now]\<rparr>"

lemmas request_stmts = LockLoginAddress_def CountRecentLoginTokens_def
  InvalidateLoginTokensForEmail_def CreateLoginToken_def

lemma retire_simps [simp]:
  "lt_id (retire now a t) = lt_id t" "lt_token_hash (retire now a t) = lt_token_hash t"
  "lt_email (retire now a t) = lt_email t" "lt_created_at (retire now a t) = lt_created_at t"
  "lt_expires_at (retire now a t) = lt_expires_at t"
  by (simp_all add: retire_def)

lemma retire_consumed:
  "lt_consumed_at (retire now a t) = None \<longleftrightarrow> lt_consumed_at t = None \<and> lt_email t \<noteq> a"
  by (auto simp: retire_def)

lemma retire_fold:
  "(\<lambda>t. if lt_email t = a \<and> lt_consumed_at t = None then t\<lparr>lt_consumed_at := Some now\<rparr> else t)
     = retire now a"
  by (simp add: fun_eq_iff retire_def)

lemma fresh_token_fold:
  "\<lparr>lt_id = rid, lt_token_hash = h, lt_email = a, lt_created_at = now,
     lt_expires_at = now + TokenTTL, lt_consumed_at = None\<rparr> = fresh_token rid h a now"
  by (simp add: fresh_token_def)

lemma RequestLogin_Inr:
  assumes "run_state (RequestLogin parse ul H rid tok email) w = (Inr raw, w')"
  obtains a fs where "NormaliseEmail parse ul email = Inr a" and "raw = tok"
    and "sent_recently a (c_now w) (c_db w) < LoginBudget"
    and "H tok \<notin> lt_token_hash ` set (login_tokens (c_db w))"
    and "w' = w\<lparr>c_db := after_request rid (H tok) a (c_now w) (c_db w), c_faults := fs\<rparr>"
proof -
  obtain a where a: "NormaliseEmail parse ul email = Inr a"
    using assms by (cases "NormaliseEmail parse ul email") (auto simp: RequestLogin_def)
  show ?thesis
    using assms
    by (auto simp: RequestLogin_def a newToken_def hash_def elim!: in_tx_Inr attempt_exec_Inr
        split: if_splits)
      (auto simp: request_stmts Let_def retire_fold fresh_token_fold sent_recently_def recent_def
        after_request_def not_le split: if_splits intro!: that [OF a])
qed

lemma RequestLogin_Inl:
  assumes "run_state (RequestLogin parse ul H rid tok email) w = (Inl e, w')"
  shows "c_db w' = c_db w"
  using assms
  by (cases "NormaliseEmail parse ul email") (auto simp: RequestLogin_def newToken_def in_tx_Inl)

text \<open>With nothing failing, the outcome depends on the budget and the fresh values alone.\<close>

lemma RequestLogin_quiet:
  assumes "NormaliseEmail parse ul email = Inr a" and "c_faults w = []"
    and "rid \<notin> lt_id ` set (login_tokens (c_db w))"
    and "H tok \<notin> lt_token_hash ` set (login_tokens (c_db w))"
  shows "run_state (RequestLogin parse ul H rid tok email) w =
    (if sent_recently a (c_now w) (c_db w) \<ge> LoginBudget then (Inl ErrLoginBudgetExceeded, w)
     else (Inr tok, w\<lparr>c_db := after_request rid (H tok) a (c_now w) (c_db w)\<rparr>))"
  using assms
  by (simp add: RequestLogin_def newToken_def hash_def in_tx_def run_simps request_stmts Let_def
      sent_recently_def recent_def after_request_def retire_fold fresh_token_fold)

definition live :: "instant \<Rightarrow> login_token \<Rightarrow> bool" where
  "live now t = (lt_consumed_at t = None \<and> lt_expires_at t > now)"

definition spend :: "instant \<Rightarrow> bytes \<Rightarrow> login_token \<Rightarrow> login_token" where
  "spend now h t = (if lt_token_hash t = h \<and> live now t then t\<lparr>lt_consumed_at := Some now\<rparr> else t)"

lemma spend_simps [simp]:
  "lt_id (spend now h t) = lt_id t" "lt_token_hash (spend now h t) = lt_token_hash t"
  "lt_email (spend now h t) = lt_email t" "lt_created_at (spend now h t) = lt_created_at t"
  "lt_expires_at (spend now h t) = lt_expires_at t"
  by (simp_all add: spend_def)

lemma spend_consumed: "lt_consumed_at (spend now h t) = None \<longleftrightarrow>
  lt_consumed_at t = None \<and> \<not> (lt_token_hash t = h \<and> live now t)"
  by (auto simp: spend_def)

lemma live_fold:
  "(lt_token_hash t = h \<and> lt_consumed_at t = None \<and> lt_expires_at t > now) =
     (lt_token_hash t = h \<and> live now t)"
  by (simp add: live_def)

lemma ConsumeLoginToken_eq:
  "ConsumeLoginToken h now d = (case find (\<lambda>t. lt_token_hash t = h \<and> live now t) (login_tokens d) of
      None \<Rightarrow> (Inl NoRows, d)
    | Some t \<Rightarrow> (Inr (lt_email t), d\<lparr>login_tokens := map (spend now h) (login_tokens d)\<rparr>))"
proof -
  have "spend now h = (\<lambda>t. if lt_token_hash t = h \<and> live now t
      then t\<lparr>lt_consumed_at := Some now\<rparr> else t)"
    by (simp add: fun_eq_iff spend_def)
  then show ?thesis
    unfolding ConsumeLoginToken_def Let_def live_def by (simp split: option.split)
qed

lemma CompleteLogin_Inr:
  assumes "run_state (CompleteLogin L H rid raw) w = (Inr u, w')"
  obtains t fs u0 where "plausibleToken raw"
    and "find (\<lambda>t. lt_token_hash t = H raw \<and> live (c_now w) t) (login_tokens (c_db w)) = Some t"
    and "UpsertUserByEmail L rid (lt_email t) (c_now w)
       ((c_db w)\<lparr>login_tokens := map (spend (c_now w) (H raw)) (login_tokens (c_db w))\<rparr>) =
       (Inr u0, c_db w')"
    and "u = fromRow u0"
    and "w' = w\<lparr>c_db := c_db w', c_faults := fs\<rparr>"
proof -
  have p: "plausibleToken raw"
    using assms by (auto simp: CompleteLogin_def split: if_splits)
  show ?thesis
    using assms p
    by (auto simp: CompleteLogin_def hash_def elim!: in_tx_Inr attempt_exec_Inr)
      (auto simp: ConsumeLoginToken_eq split: option.splits intro!: that prod_eqI)
qed

lemma CompleteLogin_Inl:
  assumes "run_state (CompleteLogin L H rid raw) w = (Inl e, w')"
  shows "c_db w' = c_db w"
  using assms by (auto simp: CompleteLogin_def in_tx_Inl split: if_splits)

lemma UpsertUserByEmail_tokens [simp]:
  "login_tokens (snd (UpsertUserByEmail L rid e now d)) = login_tokens d"
  by (simp add: UpsertUserByEmail_def split: option.splits)

lemma UpsertUserByEmail_total:
  assumes "uid \<notin> user_ids d"
  obtains u0 d' where "UpsertUserByEmail L uid a now d = (Inr u0, d')"
    and "login_tokens d' = login_tokens d" and "L (u_email u0) = L a"
proof (cases "find (\<lambda>u. L (u_email u) = L a) (users d)")
  case None
  then show ?thesis using assms that by (simp add: UpsertUserByEmail_def new_user_def)
next
  case (Some u)
  then show ?thesis using find_Some_in [OF Some] that by (simp add: UpsertUserByEmail_def)
qed

section \<open>The machine\<close>

record link =
  l_address :: string
  l_at :: instant
  l_digest :: bytes

record login_sys = conn +
  issued :: "link list"
  redeemed :: "link list"

definition link_of :: "login_token \<Rightarrow> link" where
  "link_of t = \<lparr>l_address = lt_email t, l_at = lt_created_at t, l_digest = lt_token_hash t\<rparr>"

definition sent_in_window :: "string \<Rightarrow> instant \<Rightarrow> link list \<Rightarrow> nat" where
  "sent_in_window a at ls =
     length (filter (\<lambda>l. l_address l = a \<and> at - LoginBudgetWindow < l_at l \<and> l_at l \<le> at) ls)"

inductive login_step ::
  "(string \<Rightarrow> (string \<times> string) option) \<Rightarrow> (string \<Rightarrow> string) \<Rightarrow> (string \<Rightarrow> bytes) \<Rightarrow> (string \<Rightarrow> string) \<Rightarrow>
   login_sys \<Rightarrow> login_sys \<Rightarrow> bool" for parse ul H L where
  requested: "run_state (RequestLogin parse ul H rid tok email) s = (Inr raw, s') \<Longrightarrow>
     NormaliseEmail parse ul email = Inr a \<Longrightarrow>
     login_step parse ul H L s
       (s'\<lparr>issued := issued s' @ [\<lparr>l_address = a, l_at = c_now s', l_digest = H raw\<rparr>]\<rparr>)"
| refused: "run_state (RequestLogin parse ul H rid tok email) s = (Inl e, s') \<Longrightarrow>
     login_step parse ul H L s s'"
| redeemed: "run_state (CompleteLogin L H rid raw) s = (Inr u, s') \<Longrightarrow>
     login_step parse ul H L s
       (s'\<lparr>redeemed := redeemed s' @ [\<lparr>l_address = Email u, l_at = c_now s', l_digest = H raw\<rparr>]\<rparr>)"
| rejected: "run_state (CompleteLogin L H rid raw) s = (Inl e, s') \<Longrightarrow> login_step parse ul H L s s'"
| purged: "0 \<le> n \<Longrightarrow> run_state (PurgeExpiredLoginTokens n) s = (r, s') \<Longrightarrow>
     login_step parse ul H L s s'"
| elsewhere: "login_tokens d = login_tokens (c_db s) \<Longrightarrow> login_step parse ul H L s (s\<lparr>c_db := d\<rparr>)"
| time_passes: "c_now s \<le> t \<Longrightarrow> login_step parse ul H L s (s\<lparr>c_now := t, c_faults := fs\<rparr>)"

text \<open>The machine starts with no tokens at all.\<close>

definition login_start :: "login_sys \<Rightarrow> bool" where
  "login_start s = (login_tokens (c_db s) = [] \<and> issued s = [] \<and> redeemed s = [])"

inductive login_reachable ::
  "(string \<Rightarrow> (string \<times> string) option) \<Rightarrow> (string \<Rightarrow> string) \<Rightarrow> (string \<Rightarrow> bytes) \<Rightarrow> (string \<Rightarrow> string) \<Rightarrow>
   login_sys \<Rightarrow> bool" for parse ul H L where
  start: "login_start s \<Longrightarrow> login_reachable parse ul H L s"
| step: "login_reachable parse ul H L s \<Longrightarrow> login_step parse ul H L s s' \<Longrightarrow>
     login_reachable parse ul H L s'"

section \<open>Its invariant\<close>

definition recent_links :: "instant \<Rightarrow> link list \<Rightarrow> link list" where
  "recent_links now ls = filter (\<lambda>l. l_at l > now - LoginBudgetWindow) ls"

definition last_to :: "string \<Rightarrow> link list \<Rightarrow> link" where
  "last_to a ls = last (filter (\<lambda>l. l_address l = a) ls)"

definition unspent :: "bytes \<Rightarrow> login_token list \<Rightarrow> nat" where
  "unspent h ts = length (filter (\<lambda>t. lt_token_hash t = h \<and> lt_consumed_at t = None) ts)"

definition times_used :: "bytes \<Rightarrow> link list \<Rightarrow> nat" where
  "times_used h ls = length (filter (\<lambda>l. l_digest l = h) ls)"

definition login_inv :: "login_token list \<Rightarrow> instant \<Rightarrow> link list \<Rightarrow> link list \<Rightarrow> bool" where
  "login_inv ts now is rs =
     (map link_of (filter (recent now) ts) = recent_links now is \<and>
      (\<forall>l\<in>set is. l_at l \<le> now) \<and>
      (\<forall>t\<in>set ts. lt_expires_at t = lt_created_at t + TokenTTL) \<and>
      (\<forall>t\<in>set ts. lt_consumed_at t = None \<longrightarrow>
         lt_email t \<in> l_address ` set is \<and> link_of t = last_to (lt_email t) is) \<and>
      (\<forall>a at. sent_in_window a at is \<le> LoginBudget) \<and>
      (\<forall>h. times_used h rs + unspent h ts \<le> times_used h is))"

lemma last_to_append:
  "last_to a (ls @ [l]) = (if l_address l = a then l else last_to a ls)"
  by (simp add: last_to_def)

lemma sent_in_window_append:
  "sent_in_window a at (ls @ [l]) = sent_in_window a at ls +
     (if l_address l = a \<and> at - LoginBudgetWindow < l_at l \<and> l_at l \<le> at then 1 else 0)"
  by (simp add: sent_in_window_def)

text \<open>What the store counts bounds what was sent, whatever the instant.\<close>

lemma sent_in_window_count:
  assumes "map link_of (filter (recent now) ts) = recent_links now is" and "now \<le> at"
    and "\<forall>l\<in>set is. l_at l \<le> now"
  shows "sent_in_window a at is \<le> length (filter (\<lambda>t. lt_email t = a \<and> recent now t) ts)"
proof -
  have "sent_in_window a at is \<le> length (filter (\<lambda>l. l_address l = a) (recent_links now is))"
    unfolding sent_in_window_def recent_links_def filter_filter
    using assms(2) by (intro length_filter_mono) auto
  also have "\<dots> = length (filter (\<lambda>t. lt_email t = a \<and> recent now t) ts)"
    unfolding assms(1) [symmetric] by (simp add: filter_map comp_def link_of_def conj_commute)
  finally show ?thesis .
qed


text \<open>Each kind of step keeps it.\<close>

lemma recent_retire [simp]: "recent now (retire now' a t) = recent now t"
  and recent_spend [simp]: "recent now (spend now' h t) = recent now t"
  and link_of_retire [simp]: "link_of (retire now' a t) = link_of t"
  and link_of_spend [simp]: "link_of (spend now' h t) = link_of t"
  by (simp_all add: recent_def link_of_def)

lemma recent_fresh: "recent now (fresh_token rid h a now)"
  by (simp add: recent_def fresh_token_def LoginBudgetWindow_def TokenTTL_def)

lemma fresh_token_simps [simp]:
  "lt_consumed_at (fresh_token rid h a now) = None" "lt_email (fresh_token rid h a now) = a"
  "lt_token_hash (fresh_token rid h a now) = h"
  "lt_expires_at (fresh_token rid h a now) = lt_created_at (fresh_token rid h a now) + TokenTTL"
  "link_of (fresh_token rid h a now) = \<lparr>l_address = a, l_at = now, l_digest = h\<rparr>"
  by (simp_all add: fresh_token_def link_of_def)

lemma map_link_of_recent:
  assumes "\<And>t. recent now (f t) = recent now t" "\<And>t. link_of (f t) = link_of t"
  shows "map link_of (filter (recent now) (map f ts)) = map link_of (filter (recent now) ts)"
  using assms by (induction ts) auto

lemma unspent_retire: "unspent h (map (retire now a) ts) \<le> unspent h ts"
  unfolding unspent_def filter_map length_map
  by (intro length_filter_mono) (auto simp: retire_consumed)

lemma unspent_spend: "unspent h (map (spend now h') ts) \<le> unspent h ts"
  unfolding unspent_def filter_map length_map
  by (intro length_filter_mono) (auto simp: spend_consumed)

lemma unspent_spend_less:
  assumes "t \<in> set ts" "lt_token_hash t = h" "live now t"
  shows "unspent h (map (spend now h) ts) < unspent h ts"
  unfolding unspent_def filter_map length_map
  using assms by (intro length_filter_mono_less [of _ _ _ t]) (auto simp: spend_consumed live_def)

lemma login_inv_request:
  assumes inv: "login_inv ts now is rs"
    and budget: "length (filter (\<lambda>t. lt_email t = a \<and> recent now t) ts) < LoginBudget"
  shows "login_inv (map (retire now a) ts @ [fresh_token rid h a now]) now
    (is @ [\<lparr>l_address = a, l_at = now, l_digest = h\<rparr>]) rs"
proof -
  have "sent_in_window b at (is @ [\<lparr>l_address = a, l_at = now, l_digest = h\<rparr>]) \<le> LoginBudget" for b at
  proof (cases "b = a \<and> now \<le> at")
    case True
    then have "sent_in_window b at is < LoginBudget"
      using sent_in_window_count [of now ts "is" at a] inv budget by (auto simp: login_inv_def)
    then show ?thesis by (simp add: sent_in_window_append)
  qed (use inv in \<open>auto simp: login_inv_def sent_in_window_append\<close>)
  moreover have "unspent g (map (retire now a) ts) + times_used g rs \<le> times_used g is" for g
  proof -
    have "times_used g rs + unspent g ts \<le> times_used g is"
      using inv by (simp add: login_inv_def)
    then show ?thesis using unspent_retire [of g now a ts] by simp
  qed
  moreover have "map link_of (filter (recent now) (map (retire now a) ts)) = recent_links now is"
    using inv by (simp add: login_inv_def map_link_of_recent del: filter_map)
  ultimately show ?thesis
    using inv recent_fresh [of now rid h a]
    by (auto simp: login_inv_def last_to_append retire_consumed unspent_def times_used_def
        recent_links_def LoginBudgetWindow_def TokenTTL_def add.commute)
qed

lemma login_inv_redeem:
  assumes "login_inv ts now is rs" and "t \<in> set ts" "lt_token_hash t = h" "live now t"
  shows "login_inv (map (spend now h) ts) now is (rs @ [\<lparr>l_address = a, l_at = now, l_digest = h\<rparr>])"
proof -
  have "unspent g (map (spend now h) ts) + times_used g (rs @ [\<lparr>l_address = a, l_at = now, l_digest = h\<rparr>])
      \<le> times_used g is" for g
  proof -
    have "times_used g rs + unspent g ts \<le> times_used g is"
      using assms(1) by (simp add: login_inv_def)
    then show ?thesis
      using unspent_spend_less [OF assms(2-4)] unspent_spend [of g now h ts]
      by (cases "g = h") (auto simp: times_used_def)
  qed
  moreover have "map link_of (filter (recent now) (map (spend now h) ts)) = recent_links now is"
    using assms(1) by (simp add: login_inv_def map_link_of_recent del: filter_map)
  ultimately show ?thesis
    using assms(1) by (auto simp: login_inv_def spend_consumed add.commute)
qed

lemma login_inv_purge:
  assumes inv: "login_inv ts now is rs" and n: "0 \<le> n"
  shows "login_inv (filter (\<lambda>t. \<not> lt_expires_at t < now - n) ts) now is rs"
proof -
  have "recent now t \<Longrightarrow> t \<in> set ts \<Longrightarrow> \<not> lt_expires_at t < now - n" for t
    using inv n by (auto simp: login_inv_def recent_def LoginBudgetWindow_def)
  then have "filter (recent now) (filter (\<lambda>t. \<not> lt_expires_at t < now - n) ts) = filter (recent now) ts"
    unfolding filter_filter by (intro filter_cong) auto
  moreover have "unspent g (filter (\<lambda>t. \<not> lt_expires_at t < now - n) ts) \<le> unspent g ts" for g
    unfolding unspent_def filter_filter by (intro length_filter_mono) auto
  ultimately show ?thesis
    using inv by (auto simp: login_inv_def) (metis add_le_mono le_refl dual_order.trans)
qed

lemma login_inv_tick:
  assumes inv: "login_inv ts now is rs" and "now \<le> now'"
  shows "login_inv ts now' is rs"
proof -
  have "filter (recent now') ts = filter (recent now') (filter (recent now) ts)"
    using assms(2) by (auto simp: filter_filter recent_def intro!: filter_cong)
  then have "map link_of (filter (recent now') ts) =
      filter (\<lambda>l. l_at l > now' - LoginBudgetWindow) (map link_of (filter (recent now) ts))"
    by (simp add: filter_map comp_def recent_def [abs_def] link_of_def del: filter_filter)
  also have "\<dots> = filter (\<lambda>l. l_at l > now' - LoginBudgetWindow) (recent_links now is)"
    using inv by (simp add: login_inv_def)
  also have "\<dots> = recent_links now' is"
    using assms(2) by (auto simp: recent_links_def filter_filter intro!: filter_cong)
  finally show ?thesis
    using assms by (auto simp: login_inv_def)
qed


section \<open>Every reachable state\<close>

lemma PurgeExpired_tokens:
  assumes "run_state (PurgeExpiredLoginTokens n) w = (r, w')"
  shows "login_tokens (c_db w') = login_tokens (c_db w) \<or> login_tokens (c_db w') =
      filter (\<lambda>t. \<not> lt_expires_at t < c_now w - n) (login_tokens (c_db w))"
  using assms
  by (cases rule: exec_cases [of "PurgeLoginTokens n" w])
    (auto simp: PurgeExpiredLoginTokens_def run_attempt PurgeLoginTokens_def Let_def)

definition sys_inv :: "login_sys \<Rightarrow> bool" where
  "sys_inv s = login_inv (login_tokens (c_db s)) (c_now s) (issued s) (redeemed s)"

lemma conn_only_frame:
  assumes "conn_only m" and "run_state m s = (r, s')"
  shows "c_now s' = c_now s" "issued s' = issued s" "redeemed s' = redeemed s"
  using conn_onlyE [OF assms] by (metis login_sys.select_convs login_sys.surjective
    conn.select_convs conn.update_convs login_sys.update_convs)+

lemma login_step_inv:
  assumes "login_step parse ul H L s s'" and "sys_inv s"
  shows "sys_inv s'"
  using assms
proof cases
  case (requested rid fresh email raw s1 a)
  from requested(2) show ?thesis
  proof (rule RequestLogin_Inr)
    fix b fs
    assume "NormaliseEmail parse ul email = Inr b" and raw: "raw = fresh"
      and budget: "sent_recently b (c_now s) (c_db s) < LoginBudget"
      and s1: "s1 = s\<lparr>c_db := after_request rid (H fresh) b (c_now s) (c_db s), c_faults := fs\<rparr>"
    then have "b = a" using requested(3) by simp
    then show ?thesis
      using login_inv_request [of "login_tokens (c_db s)" "c_now s" "issued s" "redeemed s" a rid "H fresh"]
        assms(2) budget raw requested(1) s1
      by (simp add: sys_inv_def sent_recently_def after_request_def)
  qed
next
  case (refused rid fresh email e)
  then show ?thesis
    using assms(2) RequestLogin_Inl [OF refused] conn_only_frame [OF conn_only_user(1) refused]
    by (simp add: sys_inv_def)
next
  case (redeemed rid raw u s1)
  from redeemed(2) show ?thesis
  proof (rule CompleteLogin_Inr)
    fix t fs u0
    assume t: "find (\<lambda>t. lt_token_hash t = H raw \<and> live (c_now s) t) (login_tokens (c_db s)) = Some t"
      and up: "UpsertUserByEmail L rid (lt_email t) (c_now s)
        ((c_db s)\<lparr>login_tokens := map (spend (c_now s) (H raw)) (login_tokens (c_db s))\<rparr>) =
        (Inr u0, c_db s1)"
    have "login_tokens (c_db s1) = map (spend (c_now s) (H raw)) (login_tokens (c_db s))"
      using UpsertUserByEmail_tokens [of L rid "lt_email t" "c_now s"
        "(c_db s)\<lparr>login_tokens := map (spend (c_now s) (H raw)) (login_tokens (c_db s))\<rparr>"] up by simp
    then show ?thesis
      using login_inv_redeem [of "login_tokens (c_db s)" "c_now s" "issued s" "redeemed s" t "H raw"]
        find_Some_in [OF t] assms(2) redeemed(1) conn_only_frame [OF conn_only_user(2) redeemed(2)]
      by (simp add: sys_inv_def)
  qed
next
  case (rejected rid raw e)
  then show ?thesis
    using assms(2) CompleteLogin_Inl [OF rejected] conn_only_frame [OF conn_only_user(2) rejected]
    by (simp add: sys_inv_def)
next
  case (purged n r)
  then show ?thesis
    using assms(2) PurgeExpired_tokens [OF purged(2)] conn_only_frame [OF conn_only_user(13) purged(2)]
      login_inv_purge [OF _ purged(1)]
    by (auto simp: sys_inv_def)
next
  case (elsewhere d)
  then show ?thesis using assms(2) by (simp add: sys_inv_def)
next
  case (time_passes t fs)
  then show ?thesis using assms(2) login_inv_tick by (simp add: sys_inv_def)
qed

lemma login_start_inv: "login_start s \<Longrightarrow> sys_inv s"
  by (simp add: login_start_def sys_inv_def login_inv_def recent_links_def sent_in_window_def
      times_used_def unspent_def)

lemma login_reachable_inv: "login_reachable parse ul H L s \<Longrightarrow> sys_inv s"
  by (induction rule: login_reachable.induct) (auto intro: login_start_inv login_step_inv)


section \<open>Properties\<close>

definition demo_start :: login_sys where
  "demo_start = \<lparr>c_db = empty_db, c_now = 1000000, c_faults = [], issued = [], redeemed = []\<rparr>"

abbreviation demo_parse :: "string \<Rightarrow> (string \<times> string) option" where
  "demo_parse \<equiv> \<lambda>s. Some ([], s)"

definition demo_sent :: login_sys where
  "demo_sent = \<lparr>c_db = empty_db\<lparr>login_tokens := [fresh_token 1 ''TOKEN'' ''ana@example.com'' 1000000]\<rparr>,
     c_now = 1000000, c_faults = [],
     issued = [\<lparr>l_address = ''ana@example.com'', l_at = 1000000, l_digest = ''TOKEN''\<rparr>],
     redeemed = []\<rparr>"

lemma demo_email: "NormaliseEmail demo_parse id ''Ana@Example.com'' = Inr ''ana@example.com''"
  by code_simp

lemma demo_request:
  "run_state (RequestLogin demo_parse id id 1 ''TOKEN'' ''Ana@Example.com'') demo_start =
     (Inr ''TOKEN'', demo_sent\<lparr>issued := []\<rparr>)"
  by code_simp

lemma demo_reachable: "login_reachable demo_parse id id id demo_sent"
proof -
  have "login_reachable demo_parse id id id demo_start"
    by (rule login_reachable.start) (simp add: login_start_def demo_start_def empty_db_def)
  from login_reachable.step [OF this login_step.requested [OF demo_request demo_email]]
  show ?thesis by (simp add: demo_sent_def)
qed



text \<open>C5: No link is redeemed more often than it was handed out: a token signs in once.\<close>

theorem login_single_use:
  assumes "login_reachable parse ul H L s"
  shows "times_used (H raw) (redeemed s) \<le> times_used (H raw) (issued s)"
proof -
  have "times_used (H raw) (redeemed s) + unspent (H raw) (login_tokens (c_db s))
      \<le> times_used (H raw) (issued s)"
    using login_reachable_inv [OF assms] by (simp add: sys_inv_def login_inv_def)
  then show ?thesis by simp
qed

lemma login_single_use_witness: "times_used (id ''TOKEN'') (redeemed demo_sent) \<le> 1"
  using login_single_use [OF demo_reachable, of "''TOKEN''"]
  by (simp add: demo_sent_def times_used_def)

text \<open>C6: A redemption that succeeds in a reachable state uses the last link sent to its address,
  less than fifteen minutes after it was sent, and returns the account of that address; older
  links to the address are dead.\<close>

theorem login_latest_link:
  assumes "login_reachable parse ul H L s"
    and "run_state (CompleteLogin L H rid raw) s = (Inr u, s')"
  shows "\<exists>a. L (Email u) = L a \<and> a \<in> l_address ` set (issued s) \<and>
    l_digest (last_to a (issued s)) = H raw \<and> c_now s < l_at (last_to a (issued s)) + 15 * minute"
  using assms(2)
proof (rule CompleteLogin_Inr)
  fix t fs u0
  assume t: "find (\<lambda>t. lt_token_hash t = H raw \<and> live (c_now s) t) (login_tokens (c_db s)) = Some t"
    and up: "UpsertUserByEmail L rid (lt_email t) (c_now s)
        ((c_db s)\<lparr>login_tokens := map (spend (c_now s) (H raw)) (login_tokens (c_db s))\<rparr>) =
        (Inr u0, c_db s')"
    and u: "u = fromRow u0"
  have mem: "t \<in> set (login_tokens (c_db s))" "lt_token_hash t = H raw" "live (c_now s) t"
    using find_Some_in [OF t] by auto
  have "L (u_email u0) = L (lt_email t)"
    using up by (auto simp: UpsertUserByEmail_def new_user_def find_Some_iff
        split: option.splits if_splits)
  moreover have "lt_email t \<in> l_address ` set (issued s)" "link_of t = last_to (lt_email t) (issued s)"
    "lt_expires_at t = lt_created_at t + TokenTTL"
    using mem login_reachable_inv [OF assms(1)] by (auto simp: sys_inv_def login_inv_def live_def)
  moreover have "l_digest (link_of t) = H raw" "l_at (link_of t) = lt_created_at t"
    using mem by (simp_all add: link_of_def)
  ultimately show ?thesis
    using mem(3) u by (intro exI [of _ "lt_email t"]) (auto simp: live_def TokenTTL_def)
qed

lemma demo_redeem: "\<exists>u s'. run_state (CompleteLogin id id 7 ''TOKEN'') demo_sent = (Inr u, s') \<and>
    Email u = ''ana@example.com''"
proof -
  have "(case run_state (CompleteLogin id id 7 ''TOKEN'') demo_sent of
      (Inr u, _) \<Rightarrow> Email u = ''ana@example.com'' | _ \<Rightarrow> False)"
    by code_simp
  then show ?thesis by (auto split: sum.splits prod.splits)
qed

lemma login_latest_link_witness:
  "\<exists>a. a \<in> {''ana@example.com''} \<and> l_digest (last_to a (issued demo_sent)) = ''TOKEN''"
proof -
  obtain u s' where "run_state (CompleteLogin id id 7 ''TOKEN'') demo_sent = (Inr u, s')"
    using demo_redeem by blast
  from login_latest_link [OF demo_reachable this] show ?thesis
    by (auto simp: demo_sent_def)
qed

text \<open>With the address accepted, the random values fresh and no call failing, a request inside the
  budget mints exactly one live link and retires the address's older ones; a request over the
  budget answers \<open>ErrLoginBudgetExceeded\<close> and leaves the whole state as it was, the live link
  included.\<close>

theorem RequestLogin_outcome:
  assumes "NormaliseEmail parse ul email = Inr a" and "c_faults w = []"
    and "rid \<notin> lt_id ` set (login_tokens (c_db w))"
    and "H tok \<notin> lt_token_hash ` set (login_tokens (c_db w))"
  shows "case run_state (RequestLogin parse ul H rid tok email) w of (r, w') \<Rightarrow>
    if sent_recently a (c_now w) (c_db w) \<ge> 3 then r = Inl ErrLoginBudgetExceeded \<and> w' = w
    else r = Inr tok \<and>
      filter (\<lambda>t. lt_email t = a \<and> live (c_now w) t) (login_tokens (c_db w')) =
        [fresh_token rid (H tok) a (c_now w)] \<and>
      filter (\<lambda>t. lt_email t \<noteq> a) (login_tokens (c_db w')) =
        filter (\<lambda>t. lt_email t \<noteq> a) (login_tokens (c_db w))"
proof -
  have "filter (\<lambda>t. lt_email t = a \<and> live (c_now w) t) (map (retire (c_now w) a) ts) = []" for ts
    by (induction ts) (auto simp: live_def retire_def)
  moreover have "filter (\<lambda>t. lt_email t \<noteq> a) (map (retire (c_now w) a) ts) =
      filter (\<lambda>t. lt_email t \<noteq> a) ts" for ts
    by (induction ts) (auto simp: retire_def)
  moreover have "live (c_now w) (fresh_token rid (H tok) a (c_now w))"
    by (simp add: live_def fresh_token_def TokenTTL_def)
  ultimately show ?thesis
    unfolding RequestLogin_quiet [where H = H and tok = tok, OF assms]
    by (simp add: LoginBudget_def after_request_def del: filter_map)
qed

lemma RequestLogin_outcome_witness:
  "case run_state (RequestLogin demo_parse id id 1 ''TOKEN'' ''Ana@Example.com'') demo_start of
     (r, w') \<Rightarrow> r = Inr ''TOKEN''"
  using RequestLogin_outcome [OF demo_email, of demo_start 1 id "''TOKEN''"]
  by (simp add: demo_start_def empty_db_def sent_recently_def split: prod.splits)

text \<open>A link that was just mailed signs in: redeemed within fifteen minutes, with nothing failing,
  it returns the account of its address, and redeeming it again is \<open>ErrInvalidToken\<close>.\<close>

theorem login_roundtrip:
  assumes "run_state (RequestLogin parse ul H rid tok email) w = (Inr raw, w1)"
    and "plausibleToken raw" and "c_faults w2 = []" and "c_db w2 = c_db w1"
    and "c_now w \<le> c_now w2" "c_now w2 < c_now w + 15 * minute"
    and "uid \<notin> u_id ` set (users (c_db w))"
  shows "case run_state (CompleteLogin L H uid raw) w2 of (r, w3) \<Rightarrow>
    (\<exists>u a. r = Inr u \<and> NormaliseEmail parse ul email = Inr a \<and> L (Email u) = L a) \<and>
    run_state (CompleteLogin L H uid' raw) w3 = (Inl ErrInvalidToken, w3)"
  using assms(1)
proof (rule RequestLogin_Inr)
  fix a fs
  assume a: "NormaliseEmail parse ul email = Inr a" and raw: "raw = tok"
    and new: "H tok \<notin> lt_token_hash ` set (login_tokens (c_db w))"
    and w1: "w1 = w\<lparr>c_db := after_request rid (H tok) a (c_now w) (c_db w), c_faults := fs\<rparr>"
  let ?f = "fresh_token rid (H tok) a (c_now w)"
  let ?T = "map (retire (c_now w) a) (login_tokens (c_db w)) @ [?f]"
  let ?d = "(c_db w2)\<lparr>login_tokens := map (spend (c_now w2) (H raw)) ?T\<rparr>"
  have T: "login_tokens (c_db w2) = ?T" and U: "users (c_db w2) = users (c_db w)"
    using assms(4) w1 by (simp_all add: after_request_def)
  have "find (\<lambda>t. lt_token_hash t = H raw \<and> live (c_now w2) t)
      (map (retire (c_now w) a) (login_tokens (c_db w))) = None"
    using new raw by (force simp: find_None_all)
  moreover have "live (c_now w2) ?f"
    using assms(6) by (simp add: live_def fresh_token_def TokenTTL_def)
  ultimately have found: "find (\<lambda>t. lt_token_hash t = H raw \<and> live (c_now w2) t) ?T = Some ?f"
    using raw by (simp add: find_append)
  have "uid \<notin> user_ids ?d"
    using assms(7) U by (simp add: user_ids_def)
  then obtain u0 d' where up: "UpsertUserByEmail L uid a (c_now w2) ?d = (Inr u0, d')"
    and d': "login_tokens d' = login_tokens ?d" and u0: "L (u_email u0) = L a"
    by (rule UpsertUserByEmail_total)
  have "?d = snd (ConsumeLoginToken (H raw) (c_now w2) (c_db w2))"
    "fst (ConsumeLoginToken (H raw) (c_now w2) (c_db w2)) = Inr a"
    using found by (simp_all add: ConsumeLoginToken_eq T del: map_append)
  then have run: "run_state (CompleteLogin L H uid raw) w2 = (Inr (fromRow u0), w2\<lparr>c_db := d'\<rparr>)"
    using assms(2,3) up by (simp add: CompleteLogin_def hash_def in_tx_def run_simps)
  have dead: "find (\<lambda>t. lt_token_hash t = H raw \<and> live (c_now w2) t) (login_tokens d') = None"
    by (auto simp: d' find_None_all spend_def live_def split: if_splits)
  have "run_state (CompleteLogin L H uid' raw) (w2\<lparr>c_db := d'\<rparr>) =
      (Inl ErrInvalidToken, w2\<lparr>c_db := d'\<rparr>)"
    using assms(2,3) dead
    by (simp add: CompleteLogin_def hash_def in_tx_def run_simps ConsumeLoginToken_eq no_rows_as_def)
  with run a u0 show ?thesis by simp
qed

lemma login_roundtrip_witness:
  "run_state (CompleteLogin id id 9 ''TOKEN'')
     (snd (run_state (CompleteLogin id id 7 ''TOKEN'') demo_sent)) =
   (Inl ErrInvalidToken, snd (run_state (CompleteLogin id id 7 ''TOKEN'') demo_sent))"
  using login_roundtrip [OF demo_request, of demo_sent 7 id 9]
  by (simp add: demo_sent_def demo_start_def empty_db_def plausibleToken_def maxTokenLength_def
      contains_any_def split: prod.splits)

end
