(* ===== verification/Sessions.thy ===== *)
theory Sessions
  imports Bearer Login
begin

text \<open>
  \<open>internal/session\<close>: issuing, looking up, revoking and purging sessions, and the two stores of
  bearer tokens as instances of the contract of \<open>Bearer\<close>.
\<close>

section \<open>The service\<close>

definition TTL :: duration where "TTL = 30 * 24 * hour"

datatype session_err = ErrInvalidSession | SessionWrap string pg_error

definition session_maxTokenLength :: nat where "session_maxTokenLength = 512"

definition session_hash :: "(string \<Rightarrow> bytes) \<Rightarrow> string \<Rightarrow> bytes" where
  "session_hash H raw = H raw"

definition session_newToken :: "(string \<Rightarrow> bytes) \<Rightarrow> string \<Rightarrow> string \<times> bytes" where
  "session_newToken H tok = (let raw = tok in (raw, session_hash H raw))"

definition session_plausibleToken :: "string \<Rightarrow> bool" where
  "session_plausibleToken raw = (raw \<noteq> [] \<and> length raw \<le> session_maxTokenLength \<and>
     \<not> contains_any raw [CHR '' '', TAB, CR, LF])"

definition Issue :: "(string \<Rightarrow> bytes) \<Rightarrow> uuid \<Rightarrow> string \<Rightarrow> uuid \<Rightarrow> ('z, session_err + string) prog" where
  "Issue H rid tok userID =
     (case session_newToken H tok of (raw, digest) \<Rightarrow>
        attempt (exec (CreateSession rid digest userID TTL)) (SessionWrap ''create session'')
          (\<lambda>_. State_Monad.return (Inr raw)))"

definition Lookup :: "(string \<Rightarrow> bytes) \<Rightarrow> string \<Rightarrow> ('z, session_err + uuid) prog" where
  "Lookup H raw =
     (if \<not> session_plausibleToken raw then State_Monad.return (Inl ErrInvalidSession)
      else attempt (exec (LookupSession (session_hash H raw)))
        (\<lambda>err. if err = NoRows then ErrInvalidSession else SessionWrap ''lookup session'' err)
        (\<lambda>userID. State_Monad.return (Inr userID)))"

definition Revoke :: "(string \<Rightarrow> bytes) \<Rightarrow> string \<Rightarrow> ('z, session_err + unit) prog" where
  "Revoke H raw =
     (if \<not> session_plausibleToken raw then State_Monad.return (Inr ())
      else attempt (exec (RevokeSession (session_hash H raw))) (SessionWrap ''revoke session'')
        (\<lambda>_. State_Monad.return (Inr ())))"

definition PurgeExpired :: "duration \<Rightarrow> ('z, session_err + nat) prog" where
  "PurgeExpired olderThan =
     attempt (exec (PurgeSessions olderThan)) (SessionWrap ''purge sessions'')
       (\<lambda>n. State_Monad.return (Inr n))"

lemma conn_only_session [conn_only_intros]:
  "conn_only (Issue H rid tok u)" "conn_only (Lookup H raw)" "conn_only (Revoke H raw)"
  "conn_only (PurgeExpired n)"
  unfolding Issue_def Lookup_def Revoke_def PurgeExpired_def session_newToken_def Let_def case_prod_conv
  by (intro conn_only_intros)+

lemma Issue_keeps [keeps_intros]:
  "(\<And>r h u t. stmt_keeps I (CreateSession r h u t)) \<Longrightarrow> keeps I (Issue H rid tok u)"
  unfolding Issue_def session_newToken_def Let_def case_prod_conv by (intro keeps_intros)

lemma Lookup_keeps [keeps_intros]: "keeps I (Lookup H raw)"
  unfolding Lookup_def by (intro keeps_intros stmt_intros)

lemma Revoke_keeps [keeps_intros]:
  "(\<And>h. stmt_keeps I (RevokeSession h)) \<Longrightarrow> keeps I (Revoke H raw)"
  unfolding Revoke_def by (intro keeps_intros)

lemma PurgeExpired_keeps [keeps_intros]:
  "stmt_keeps I (PurgeSessions n) \<Longrightarrow> keeps I (PurgeExpired n)"
  unfolding PurgeExpired_def by (intro keeps_intros)

section \<open>Sessions as a store of bearer tokens\<close>

definition session_inv :: "instant \<Rightarrow> db \<Rightarrow> bool" where
  "session_inv now d = (distinct (map s_session_hash (sessions d)) \<and>
     (\<forall>s\<in>set (sessions d). s_created_at s \<le> now \<and> session_check s))"

definition session_put :: "uuid \<Rightarrow> bytes \<Rightarrow> uuid \<Rightarrow> instant \<Rightarrow> db \<Rightarrow> db" where
  "session_put rid h u now d = snd (CreateSession rid h u TTL now d)"

definition session_holder :: "bytes \<Rightarrow> instant \<Rightarrow> db \<Rightarrow> uuid option" where
  "session_holder h now d = (case fst (LookupSession h now d) of Inl _ \<Rightarrow> None | Inr u \<Rightarrow> Some u)"

definition session_kill :: "bytes \<Rightarrow> instant \<Rightarrow> db \<Rightarrow> db" where
  "session_kill h now d = snd (RevokeSession h now d)"

definition session_used :: "bytes \<Rightarrow> db \<Rightarrow> bool" where
  "session_used h d = (h \<in> s_session_hash ` set (sessions d))"

definition session_accepts :: "uuid \<Rightarrow> bytes \<Rightarrow> uuid \<Rightarrow> db \<Rightarrow> bool" where
  "session_accepts rid h u d = (rid \<notin> s_id ` set (sessions d) \<and> \<not> session_used h d \<and> u \<in> user_ids d)"

definition session_live :: "instant \<Rightarrow> session_row \<Rightarrow> bool" where
  "session_live now s = (s_revoked_at s = None \<and> s_expires_at s > now)"

lemma session_holder_eq:
  "session_holder h now d =
     map_option s_user_id (find (\<lambda>s. s_session_hash s = h \<and> session_live now s) (sessions d))"
  by (auto simp: session_holder_def LookupSession_def session_live_def split: option.splits)

definition revoke_row :: "bytes \<Rightarrow> instant \<Rightarrow> session_row \<Rightarrow> session_row" where
  "revoke_row h now s = (if s_session_hash s = h \<and> s_revoked_at s = None
     then s\<lparr>s_revoked_at := Some now\<rparr> else s)"

lemma revoke_row_simps [simp]:
  "s_session_hash (revoke_row h now s) = s_session_hash s"
  "s_created_at (revoke_row h now s) = s_created_at s" "s_user_id (revoke_row h now s) = s_user_id s"
  "s_expires_at (revoke_row h now s) = s_expires_at s" "s_id (revoke_row h now s) = s_id s"
  by (simp_all add: revoke_row_def)

lemma session_kill_eq:
  assumes "session_inv now d"
  shows "RevokeSession h now d = (Inr (), d\<lparr>sessions := map (revoke_row h now) (sessions d)\<rparr>)"
proof -
  have "session_check (revoke_row h now s)" if "s \<in> set (sessions d)" for s
    using assms that by (auto simp: session_inv_def revoke_row_def session_check_def)
  then have "list_all session_check (map (revoke_row h now) (sessions d))"
    by (simp add: list_all_iff)
  moreover have "(\<lambda>s. if s_session_hash s = h \<and> s_revoked_at s = None
      then s\<lparr>s_revoked_at := Some now\<rparr> else s) = revoke_row h now"
    by (simp add: fun_eq_iff revoke_row_def)
  ultimately show ?thesis
    by (simp add: RevokeSession_def Let_def)
qed

lemma find_map_same:
  "(\<And>x. x \<in> set xs \<Longrightarrow> P (f x) = P x \<and> (P x \<longrightarrow> g (f x) = g x)) \<Longrightarrow>
   map_option g (find P (map f xs)) = map_option g (find P xs)"
  by (induction xs) auto

lemma session_inv_kill:
  assumes "session_inv now d" shows "session_inv now (session_kill h now d)"
  using assms
  by (auto simp: session_kill_def session_kill_eq session_inv_def comp_def)
    (auto simp: revoke_row_def session_check_def)

lemma session_put_cases:
  obtains (refused) "session_put rid h u now d = d" "session_used h d \<or> \<not> session_accepts rid h u d"
  | (stored) "session_accepts rid h u d" "session_put rid h u now d =
      d\<lparr>sessions := sessions d @ [\<lparr>s_id = rid, s_session_hash = h, s_user_id = u, s_created_at = now,
        s_expires_at = now + TTL, s_revoked_at = None\<rparr>]\<rparr>"
  by (cases "session_accepts rid h u d")
    (auto simp: session_put_def CreateSession_def Let_def session_accepts_def session_used_def)

lemma session_put_accepted:
  "session_accepts rid h u d \<Longrightarrow> session_put rid h u now d =
      d\<lparr>sessions := sessions d @ [\<lparr>s_id = rid, s_session_hash = h, s_user_id = u, s_created_at = now,
        s_expires_at = now + TTL, s_revoked_at = None\<rparr>]\<rparr>"
  by (cases rule: session_put_cases [of rid h u now d])
    (auto simp: session_accepts_def)

lemma session_not_used: "\<not> session_used h d \<Longrightarrow>
    find (\<lambda>s. s_session_hash s = h \<and> session_live t s) (sessions d) = None"
  by (force simp: session_used_def find_None_all)

lemma session_unknown: "\<not> session_used h d \<Longrightarrow> session_holder h t d = None"
  by (simp add: session_holder_eq session_not_used)

lemma session_put_holder:
  assumes "session_accepts rid h u d"
  shows "session_holder k t (session_put rid h u now d) =
    (if k = h then if t < now + TTL then Some u else None else session_holder k t d)"
proof (cases "k = h")
  case True
  have "find (\<lambda>s. s_session_hash s = h \<and> session_live t s) (sessions d) = None"
    using assms by (intro session_not_used) (simp add: session_accepts_def)
  with True assms show ?thesis
    by (simp add: session_put_accepted session_holder_eq find_append) (simp add: session_live_def)
next
  case False
  then have "h \<noteq> k" by simp
  with False assms show ?thesis
    by (cases "find (\<lambda>s. s_session_hash s = k \<and> session_live t s) (sessions d)")
      (simp_all add: session_put_accepted session_holder_eq find_append)
qed

lemma session_put_refused: "\<not> session_accepts rid h u d \<Longrightarrow> session_put rid h u now d = d"
  by (cases rule: session_put_cases [of rid h u now d]) auto

lemma session_put_used:
  "session_used k (session_put rid h u now d) \<longleftrightarrow>
     session_used k d \<or> session_accepts rid h u d \<and> k = h"
  by (cases "session_accepts rid h u d")
    (auto simp: session_put_accepted session_put_refused session_used_def)

lemma session_kill_self:
  assumes "session_inv now d" and "now \<le> t"
  shows "session_holder h t (session_kill h now d) = None"
proof -
  have "find (\<lambda>s. s_session_hash s = h \<and> session_live t s) (map (revoke_row h now) (sessions d)) = None"
  proof -
    have "\<not> (s_session_hash (revoke_row h now s) = h \<and> session_live t (revoke_row h now s))" for s
      by (simp add: session_live_def) (simp add: revoke_row_def)
    then show ?thesis by (simp only: find_None_all list.set_map ball_simps simp_thms ball_triv)
  qed
  then show ?thesis
    using assms(1) by (simp add: session_kill_def session_kill_eq session_holder_eq)
qed

lemma session_kill_other:
  assumes "session_inv now d" and "k \<noteq> h"
  shows "session_holder k t (session_kill h now d) = session_holder k t d"
proof -
  have "map_option s_user_id (find (\<lambda>s. s_session_hash s = k \<and> session_live t s)
      (map (revoke_row h now) (sessions d))) =
    map_option s_user_id (find (\<lambda>s. s_session_hash s = k \<and> session_live t s) (sessions d))"
    using assms(2) by (intro find_map_same) (auto simp: session_live_def revoke_row_def)
  then show ?thesis
    using assms by (simp add: session_kill_def session_kill_eq session_holder_eq)
qed

lemma session_kill_rows:
  "sessions (session_kill h now d) = sessions d \<or>
   sessions (session_kill h now d) = map (revoke_row h now) (sessions d)"
  unfolding session_kill_def RevokeSession_def Let_def revoke_row_def [abs_def] by simp

lemma session_kill_used: "session_used k d \<Longrightarrow> session_used k (session_kill h now d)"
  using session_kill_rows [of h now d] by (auto simp: session_used_def image_image)

lemma session_put_inv: "session_inv now d \<Longrightarrow> session_inv now (session_put rid h u now d)"
  by (cases "session_accepts rid h u d")
    (auto simp: session_put_accepted session_put_refused session_inv_def session_accepts_def
      session_used_def session_check_def)

lemma session_expires: "session_holder h t d = None \<Longrightarrow> t \<le> t' \<Longrightarrow> session_holder h t' d = None"
  by (force simp: session_holder_eq find_None_all session_live_def)

lemma session_marks: "session_holder h t d \<noteq> None \<Longrightarrow> session_used h d"
  using session_unknown by metis

interpretation session_store: bearer_store "session_put rid" session_holder session_kill session_used
  "session_accepts rid" TTL session_inv for rid
proof unfold_locales
  fix now t t' :: instant and d :: db and h h' :: bytes and u v' :: uuid
  show "session_inv now d \<Longrightarrow> session_inv now (session_put rid h u now d)"
    by (rule session_put_inv)
  show "session_inv now d \<Longrightarrow> session_inv now (session_kill h now d)"
    by (rule session_inv_kill)
  show "session_inv now d \<Longrightarrow> now \<le> t \<Longrightarrow> session_inv t d"
    by (auto simp: session_inv_def)
  show "session_used h d \<Longrightarrow> session_holder h t (session_put rid h u now d) = session_holder h t d"
    by (simp add: session_put_refused session_accepts_def)
  show "\<not> session_used h d \<Longrightarrow> session_holder h t (session_put rid h u now d) = Some v' \<Longrightarrow>
      v' = u \<and> t < now + TTL"
    by (cases "session_accepts rid h u d")
      (simp_all add: session_put_refused session_unknown session_put_holder split: if_splits)
  show "session_accepts rid h u d \<Longrightarrow> t < now + TTL \<Longrightarrow>
      session_holder h t (session_put rid h u now d) = Some u"
    by (simp add: session_put_holder)
  show "session_holder h t (session_put rid h u now d) \<noteq> None \<Longrightarrow> session_used h (session_put rid h u now d)"
    by (rule session_marks)
  show "h' \<noteq> h \<Longrightarrow> session_holder h' t (session_put rid h u now d) = session_holder h' t d"
    by (cases "session_accepts rid h u d") (simp_all add: session_put_refused session_put_holder)
  show "session_used h' d \<Longrightarrow> session_used h' (session_put rid h u now d)"
    by (simp add: session_put_used)
  show "session_inv now d \<Longrightarrow> now \<le> t \<Longrightarrow> session_holder h t (session_kill h now d) = None"
    by (rule session_kill_self)
  show "session_inv now d \<Longrightarrow> h' \<noteq> h \<Longrightarrow>
      session_holder h' t (session_kill h now d) = session_holder h' t d"
    by (rule session_kill_other)
  show "session_used h' d \<Longrightarrow> session_used h' (session_kill h now d)"
    by (rule session_kill_used)
  show "session_holder h t d = None \<Longrightarrow> t \<le> t' \<Longrightarrow> session_holder h t' d = None"
    by (rule session_expires)
qed

section \<open>Login tokens as a store of bearer tokens\<close>

definition token_put :: "uuid \<Rightarrow> bytes \<Rightarrow> string \<Rightarrow> instant \<Rightarrow> db \<Rightarrow> db" where
  "token_put rid h a now d = snd (CreateLoginToken rid h a TokenTTL now d)"

definition token_holder :: "bytes \<Rightarrow> instant \<Rightarrow> db \<Rightarrow> string option" where
  "token_holder h now d = (case fst (ConsumeLoginToken h now d) of Inl _ \<Rightarrow> None | Inr a \<Rightarrow> Some a)"

definition token_spend :: "bytes \<Rightarrow> instant \<Rightarrow> db \<Rightarrow> db" where
  "token_spend h now d = snd (ConsumeLoginToken h now d)"

definition token_used :: "bytes \<Rightarrow> db \<Rightarrow> bool" where
  "token_used h d = (h \<in> lt_token_hash ` set (login_tokens d))"

definition token_accepts :: "uuid \<Rightarrow> bytes \<Rightarrow> string \<Rightarrow> db \<Rightarrow> bool" where
  "token_accepts rid h a d = (rid \<notin> lt_id ` set (login_tokens d) \<and> \<not> token_used h d)"

lemma token_holder_eq:
  "token_holder h now d =
     map_option lt_email (find (\<lambda>t. lt_token_hash t = h \<and> live now t) (login_tokens d))"
  by (auto simp: token_holder_def ConsumeLoginToken_eq split: option.splits)

lemma token_unknown: "\<not> token_used h d \<Longrightarrow> token_holder h t d = None"
  by (force simp: token_holder_eq token_used_def find_None_all)

lemma token_put_eq:
  "token_put rid h a now d = (if token_accepts rid h a d
     then d\<lparr>login_tokens := login_tokens d @ [fresh_token rid h a now]\<rparr> else d)"
  by (auto simp: token_put_def CreateLoginToken_def Let_def token_accepts_def token_used_def
      fresh_token_def)

lemma token_put_holder:
  assumes "token_accepts rid h a d"
  shows "token_holder k t (token_put rid h a now d) =
    (if k = h then if t < now + TokenTTL then Some a else None else token_holder k t d)"
proof (cases "k = h")
  case True
  have "token_holder h t d = None"
    using assms by (intro token_unknown) (simp add: token_accepts_def)
  then have "find (\<lambda>s. lt_token_hash s = h \<and> live t s) (login_tokens d) = None"
    by (simp add: token_holder_eq)
  moreover have "live t (fresh_token rid h a now) \<longleftrightarrow> t < now + TokenTTL"
    by (simp add: live_def fresh_token_def)
  ultimately show ?thesis
    using True assms by (simp add: token_put_eq token_holder_eq find_append)
next
  case False
  then have "h \<noteq> k" by simp
  with False assms show ?thesis
    by (cases "find (\<lambda>s. lt_token_hash s = k \<and> live t s) (login_tokens d)")
      (simp_all add: token_put_eq token_holder_eq find_append)
qed

lemma token_spend_rows:
  "login_tokens (token_spend h now d) = login_tokens d \<and> token_holder h now d = None \<or>
   login_tokens (token_spend h now d) = map (spend now h) (login_tokens d)"
  by (auto simp: token_spend_def token_holder_def ConsumeLoginToken_eq split: option.splits)

lemma token_expires: "token_holder h t d = None \<Longrightarrow> t \<le> t' \<Longrightarrow> token_holder h t' d = None"
  by (force simp: token_holder_eq find_None_all live_def)

lemma token_spend_self:
  assumes "now \<le> t" shows "token_holder h t (token_spend h now d) = None"
proof -
  have "\<not> (lt_token_hash (spend now h s) = h \<and> live t (spend now h s))" for s
    using assms by (auto simp: spend_def live_def)
  then have "find (\<lambda>s. lt_token_hash s = h \<and> live t s) (map (spend now h) (login_tokens d)) = None"
    by (simp only: find_None_all list.set_map ball_simps simp_thms ball_triv)
  then show ?thesis
    using token_spend_rows [of h now d] token_expires [OF _ assms, of h d]
    by (auto simp: token_holder_eq)
qed

lemma token_spend_other:
  assumes "k \<noteq> h" shows "token_holder k t (token_spend h now d) = token_holder k t d"
proof -
  have "map_option lt_email (find (\<lambda>s. lt_token_hash s = k \<and> live t s) (map (spend now h) (login_tokens d))) =
    map_option lt_email (find (\<lambda>s. lt_token_hash s = k \<and> live t s) (login_tokens d))"
    using assms by (intro find_map_same) (auto simp: spend_def)
  then show ?thesis
    using token_spend_rows [of h now d] by (auto simp: token_holder_eq)
qed

interpretation login_store: bearer_store "token_put rid" token_holder token_spend token_used
  "token_accepts rid" TokenTTL "\<lambda>now d. True" for rid
proof unfold_locales
  fix now t t' :: instant and d :: db and h h' :: bytes and a v' :: string
  show "token_used h d \<Longrightarrow> token_holder h t (token_put rid h a now d) = token_holder h t d"
    by (simp add: token_put_eq token_accepts_def)
  show "\<not> token_used h d \<Longrightarrow> token_holder h t (token_put rid h a now d) = Some v' \<Longrightarrow>
      v' = a \<and> t < now + TokenTTL"
    by (cases "token_accepts rid h a d", simp add: token_put_holder split: if_splits)
      (simp add: token_unknown token_put_eq)
  show "token_accepts rid h a d \<Longrightarrow> t < now + TokenTTL \<Longrightarrow>
      token_holder h t (token_put rid h a now d) = Some a"
    by (simp add: token_put_holder)
  show "token_holder h t (token_put rid h a now d) \<noteq> None \<Longrightarrow> token_used h (token_put rid h a now d)"
    using token_unknown by metis
  show "h' \<noteq> h \<Longrightarrow> token_holder h' t (token_put rid h a now d) = token_holder h' t d"
    by (cases "token_accepts rid h a d") (simp_all add: token_put_holder, simp add: token_put_eq)
  show "token_used h' d \<Longrightarrow> token_used h' (token_put rid h a now d)"
    by (simp add: token_put_eq token_used_def)
  show "now \<le> t \<Longrightarrow> token_holder h t (token_spend h now d) = None"
    by (rule token_spend_self)
  show "h' \<noteq> h \<Longrightarrow> token_holder h' t (token_spend h now d) = token_holder h' t d"
    by (rule token_spend_other)
  show "token_used h' d \<Longrightarrow> token_used h' (token_spend h now d)"
    using token_spend_rows [of h now d] by (auto simp: token_used_def image_image)
  show "token_holder h t d = None \<Longrightarrow> t \<le> t' \<Longrightarrow> token_holder h t' d = None"
    by (rule token_expires)
qed auto

section \<open>Properties\<close>

definition demo_user :: user_row where
  "demo_user = new_user 3 ''ana@example.com'' 0"

definition demo_account :: conn where
  "demo_account = \<lparr>c_db = empty_db\<lparr>users := [demo_user]\<rparr>, c_now = 1000000, c_faults = []\<rparr>"




definition demo_signed_in :: conn where
  "demo_signed_in = demo_account\<lparr>c_db := session_put 5 ''SESSION'' 3 1000000 (c_db demo_account)\<rparr>"

lemma demo_signed_in_facts:
  "session_inv (c_now demo_signed_in) (c_db demo_signed_in)"
  "session_used ''SESSION'' (c_db demo_signed_in)" "c_faults demo_signed_in = []"
proof -
  have "session_inv 1000000 (c_db demo_account)"
    by (simp add: demo_account_def session_inv_def empty_db_def)
  then show "session_inv (c_now demo_signed_in) (c_db demo_signed_in)"
    by (simp add: demo_signed_in_def session_put_inv) (simp add: demo_account_def session_put_inv)
  show "session_used ''SESSION'' (c_db demo_signed_in)"
  proof -
    have "session_accepts 5 ''SESSION'' 3 (c_db demo_account)"
      by (simp add: session_accepts_def session_used_def demo_account_def demo_user_def empty_db_def
          user_ids_def new_user_def)
    then have "session_used ''SESSION'' (session_put 5 ''SESSION'' 3 1000000 (c_db demo_account))"
      unfolding session_put_used by blast
    then show ?thesis by (simp add: demo_signed_in_def)
  qed
  show "c_faults demo_signed_in = []"
    by (simp add: demo_signed_in_def demo_account_def)
qed

lemma demo_plausible: "session_plausibleToken ''SESSION''"
  by (simp add: session_plausibleToken_def session_maxTokenLength_def contains_any_def)

lemma demo_revoke:
  "run_state (Revoke id ''SESSION'') demo_signed_in = (Inr (), demo_signed_in\<lparr>c_db :=
     session_kill ''SESSION'' (c_now demo_signed_in) (c_db demo_signed_in)\<rparr>)"
  using session_kill_eq [OF demo_signed_in_facts(1)] demo_signed_in_facts(3) demo_plausible
  by (simp add: Revoke_def session_hash_def run_simps session_kill_def)


end
