(* ===== verification/LoginWeb.thy ===== *)
theory LoginWeb
  imports Outside Sessions
begin

text \<open>
  \<open>internal/web/login.go\<close> and \<open>auth.go\<close>: asking for a link, confirming and spending it, logging
  out, and the middleware that resolves the session cookie.
\<close>

section \<open>The handlers\<close>

definition msgInvalidEmail :: string where
  "msgInvalidEmail = ''Escrib'' @ [CHR 0xC3, CHR 0xAD] @ '' un email v'' @ [CHR 0xC3, CHR 0xA1] @ ''lido.''"

definition loginSubject :: string where "loginSubject = ''Tu link para entrar a retratar''"

definition loginBody :: "string \<Rightarrow> string" where
  "loginBody link = ''Entr'' @ [CHR 0xC3, CHR 0xA1] @ '' a retratar con este link:'' @ [LF] @ link @ [LF, LF] @
     ''Vence en 15 minutos. Si no lo pediste, ignor'' @ [CHR 0xC3, CHR 0xA1] @ '' este mail.''"

definition handleLoginForm :: "'z handler" where
  "handleLoginForm r w = (case UserFrom r of
     Some _ \<Rightarrow> answer (http_Redirect ''/'' 303 w)
   | None \<Rightarrow> answer (renderTemplate 200 (LoginForm \<lparr>lf_Error = []\<rparr>) w))"

definition handleLoginRequest :: "lib \<Rightarrow> Config \<Rightarrow> uuid \<Rightarrow> string \<Rightarrow> 'z web_handler" where
  "handleLoginRequest lib cfg rid tok r w = (case ParseForm r of
     None \<Rightarrow> answer (bad_request w)
   | Some form \<Rightarrow> (case NormaliseEmail (l_parse_address lib) (l_lower lib) (FormValue r form ''email'') of
       Inl _ \<Rightarrow> answer (renderTemplate 422 (LoginForm \<lparr>lf_Error = msgInvalidEmail\<rparr>) w)
     | Inr address \<Rightarrow>
         on_result (RequestLogin (l_parse_address lib) (l_lower lib) (l_hash lib) rid tok address)
           (\<lambda>err. if err = ErrLoginBudgetExceeded then answer (renderTemplate 200 LoginCheckEmail w)
             else answer (internal_error w))
           (\<lambda>raw. do {
              sent \<leftarrow> mailer_Send address loginSubject (loginBody (BaseURL cfg @ ''/login/'' @ raw));
              if \<not> sent then answer (internal_error w)
              else answer (renderTemplate 200 LoginCheckEmail w)
            })))"

definition handleLoginConfirm :: "string \<Rightarrow> 'z handler" where
  "handleLoginConfirm nonce r w =
     (let w1 = setLoginNonceCookie nonce w
      in answer (renderTemplate 200 (LoginConfirm \<lparr>lc_Token = PathValue r ''token'', lc_Nonce = nonce\<rparr>) w1))"

definition renderLoginInvalid :: "writer \<Rightarrow> response" where
  "renderLoginInvalid w = renderTemplate 200 LoginInvalid w"

definition nonceMatches :: "string \<Rightarrow> string \<Rightarrow> bool" where
  "nonceMatches cookie form = (cookie \<noteq> [] \<and> cookie = form)"

definition handleLoginComplete :: "lib \<Rightarrow> uuid \<Rightarrow> uuid \<Rightarrow> string \<Rightarrow> 'z handler" where
  "handleLoginComplete lib uid sid stok r w = (case ParseForm r of
     None \<Rightarrow> answer (renderLoginInvalid w)
   | Some form \<Rightarrow> (case req_cookie r loginNonceCookieName of
       None \<Rightarrow> answer (renderLoginInvalid w)
     | Some nonce \<Rightarrow>
         if \<not> nonceMatches nonce (FormValue r form ''nonce'') then answer (renderLoginInvalid w)
         else (let w1 = clearLoginNonceCookie w in
           on_result (CompleteLogin (l_fold lib) (l_hash lib) uid (PathValue r ''token''))
             (\<lambda>err. if err = ErrInvalidToken then answer (renderLoginInvalid w1) else answer (internal_error w1))
             (\<lambda>u. on_result (Issue (l_hash lib) sid stok (ID u))
               (\<lambda>err. answer (internal_error w1))
               (\<lambda>sessionToken. do {
                  _ \<leftarrow> (case req_cookie r SessionCookieName of
                     Some old \<Rightarrow> if old \<noteq> [] then Revoke (l_hash lib) old else State_Monad.return (Inr ())
                   | None \<Rightarrow> State_Monad.return (Inr ()));
                  answer (http_Redirect ''/'' 303 (SetSessionCookie sessionToken TTL w1))
                })))))"

definition handleLogout :: "lib \<Rightarrow> 'z handler" where
  "handleLogout lib r w = do {
     _ \<leftarrow> (case req_cookie r SessionCookieName of
        Some c \<Rightarrow> if c \<noteq> [] then Revoke (l_hash lib) c else State_Monad.return (Inr ())
      | None \<Rightarrow> State_Monad.return (Inr ()));
     answer (http_Redirect ''/'' 303 (ClearSessionCookie w))
   }"

text \<open>The middleware of the app surface: an account, no account, or an error of the database.\<close>

definition CurrentUser :: "lib \<Rightarrow> 'z handler \<Rightarrow> 'z handler" where
  "CurrentUser lib nxt r w = (case req_cookie r SessionCookieName of
     None \<Rightarrow> nxt r w
   | Some v \<Rightarrow>
       if v = [] then nxt r w
       else on_result (Lookup (l_hash lib) v)
         (\<lambda>err. if err \<noteq> ErrInvalidSession then answer (internal_error w) else nxt r w)
         (\<lambda>userID. on_result (GetByID userID)
           (\<lambda>err. if err \<noteq> ErrUserNotFound then answer (internal_error w) else nxt r w)
           (\<lambda>u. nxt (withUser r u) w)))"

lemma conn_only_login_handlers [conn_only_intros]:
  "conn_only (handleLoginForm r w)" "conn_only (handleLoginConfirm nonce r w)"
  "conn_only (handleLoginComplete lib uid sid stok r w)" "conn_only (handleLogout lib r w)"
  "(\<And>r. conn_only (nxt r w)) \<Longrightarrow> conn_only (CurrentUser lib nxt r w)"
  unfolding handleLoginForm_def handleLoginConfirm_def handleLoginComplete_def handleLogout_def
    CurrentUser_def Let_def
  by (intro conn_only_intros | assumption)+


section \<open>What the services do for them\<close>

lemma Issue_Inr:
  assumes "run_state (Issue H rid tok u) w = (Inr raw, w')"
  obtains fs where "raw = tok" "session_accepts rid (H tok) u (c_db w)"
    "w' = w\<lparr>c_db := session_put rid (H tok) u (c_now w) (c_db w), c_faults := fs\<rparr>"
  using assms unfolding Issue_def session_newToken_def session_hash_def Let_def prod.case
  by (auto elim!: attempt_exec_Inr intro!: that
      simp: session_put_def CreateSession_def session_accepts_def session_used_def Let_def split: if_splits)

lemma Lookup_quiet:
  assumes "c_faults w = []" and "session_plausibleToken raw"
  shows "run_state (Lookup H raw) w =
    ((case session_holder (H raw) (c_now w) (c_db w) of None \<Rightarrow> Inl ErrInvalidSession | Some u \<Rightarrow> Inr u), w)"
  using assms
  by (simp add: Lookup_def run_simps session_hash_def session_holder_eq LookupSession_def
      session_live_def split: option.splits)

lemma GetByID_quiet:
  assumes "c_faults w = []"
  shows "run_state (GetByID uid) w =
    ((case find (\<lambda>u. u_id u = uid) (users (c_db w)) of None \<Rightarrow> Inl ErrUserNotFound
      | Some u \<Rightarrow> Inr (fromRow u)), w)"
  using assms
  by (simp add: GetByID_def run_simps GetUserByID_def no_rows_as_def split: option.splits)

text \<open>Revoking one token leaves the accounts and the sessions of every other token.\<close>

lemma session_kill_holder_other:
  assumes "k \<noteq> h" shows "session_holder k t (session_kill h now d) = session_holder k t d"
proof -
  have "map_option s_user_id (find (\<lambda>s. s_session_hash s = k \<and> session_live t s)
      (map (revoke_row h now) (sessions d))) =
    map_option s_user_id (find (\<lambda>s. s_session_hash s = k \<and> session_live t s) (sessions d))"
    using assms by (intro find_map_same) (auto simp: session_live_def revoke_row_def)
  then show ?thesis
    using session_kill_rows [of h now d] by (auto simp: session_holder_eq)
qed

lemma session_kill_users: "users (session_kill h now d) = users d"
  by (simp add: session_kill_def RevokeSession_def Let_def)

lemma Revoke_effect:
  assumes "run_state (Revoke H old) w = (r, w')"
  shows "c_db w' = c_db w \<or> c_db w' = session_kill (H old) (c_now w) (c_db w)"
  using assms
  by (cases rule: exec_cases [of "RevokeSession (H old)" w])
    (auto simp: Revoke_def run_attempt session_hash_def session_kill_def split: if_splits sum.splits)

lemma Revoke_quiet:
  assumes "c_faults w = []" "session_inv (c_now w) (c_db w)" "session_plausibleToken old"
  shows "run_state (Revoke H old) w = (Inr (), w\<lparr>c_db := session_kill (H old) (c_now w) (c_db w)\<rparr>)"
  using assms by (simp add: Revoke_def run_simps session_hash_def session_kill_eq session_kill_def)

lemma Upsert_account:
  assumes "UpsertUserByEmail L rid a now d = (Inr u0, d')"
  shows "distinct (map u_id (users d)) \<Longrightarrow> distinct (map u_id (users d'))"
    and "u0 \<in> set (users d')" and "L (u_email u0) = L a"
proof -
  have "d' = d \<and> u0 \<in> set (users d) \<and> L (u_email u0) = L a \<or>
      rid \<notin> user_ids d \<and> u0 = new_user rid a now \<and> d' = d\<lparr>users := users d @ [u0]\<rparr>"
    using assms by (auto simp: UpsertUserByEmail_def dest: find_Some_in split: option.splits if_splits)
  then show "distinct (map u_id (users d)) \<Longrightarrow> distinct (map u_id (users d'))"
    and "u0 \<in> set (users d')" and "L (u_email u0) = L a"
    by (auto simp: new_user_def user_ids_def)
qed

section \<open>Properties\<close>

text \<open>C29: Asking for a link says nothing about the address: with nothing failing, the response to a
  request is the same whatever the database holds, whether or not the address has an account and
  whether or not its budget is spent.\<close>

theorem login_response_independent:
  fixes w v :: "'z web_scheme"
  assumes "c_faults w = []" "w_mail_faults w = []" "c_faults v = []" "w_mail_faults v = []"
    and "rid \<notin> lt_id ` set (login_tokens (c_db w))" "rid \<notin> lt_id ` set (login_tokens (c_db v))"
    and "l_hash lib tok \<notin> lt_token_hash ` set (login_tokens (c_db w))"
      "l_hash lib tok \<notin> lt_token_hash ` set (login_tokens (c_db v))"
  shows "fst (run_state (handleLoginRequest lib cfg rid tok r wr) w) =
    fst (run_state (handleLoginRequest lib cfg rid tok r wr) v)"
proof (cases "ParseForm r")
  case None
  then show ?thesis by (simp add: handleLoginRequest_def run_answer)
next
  case (Some form)
  let ?norm = "NormaliseEmail (l_parse_address lib) (l_lower lib)"
  show ?thesis
  proof (cases "?norm (FormValue r form ''email'')")
    case (Inl e)
    then show ?thesis using Some by (simp add: handleLoginRequest_def run_answer)
  next
    case (Inr address)
    show ?thesis
    proof (cases "?norm address")
      case (Inl e)
      then have "run_state (RequestLogin (l_parse_address lib) (l_lower lib) (l_hash lib) rid tok address) u =
          (Inl e, u)" for u :: "'z web_scheme"
        by (simp add: RequestLogin_def)
      then show ?thesis
        using Some Inr by (simp add: handleLoginRequest_def run_on_result run_answer)
    next
      case (Inr a)
      note quiet = RequestLogin_quiet [OF Inr]
      have "fst (run_state (handleLoginRequest lib cfg rid tok r wr) u) = renderTemplate 200 LoginCheckEmail wr"
        if "c_faults u = []" "w_mail_faults u = []" "rid \<notin> lt_id ` set (login_tokens (c_db u))"
          "l_hash lib tok \<notin> lt_token_hash ` set (login_tokens (c_db u))" for u :: "'z web_scheme"
        using that Some \<open>?norm (FormValue r form ''email'') = Inr address\<close>
        by (simp add: handleLoginRequest_def run_on_result run_answer quiet run_simps)
      then show ?thesis using assms by simp
    qed
  qed
qed

text \<open>C12: A confirmation the server did not hand to this browser is refused and does nothing: without
  the nonce cookie, or with another value in the form, the token stays unspent, nobody is signed in
  and the whole state is as before.\<close>

theorem forged_confirmation_refused:
  assumes "\<not> (\<exists>form nonce. ParseForm r = Some form \<and> req_cookie r loginNonceCookieName = Some nonce \<and>
     nonce \<noteq> [] \<and> FormValue r form ''nonce'' = nonce)"
  shows "run_state (handleLoginComplete lib uid sid stok r wr) w = (renderTemplate 200 LoginInvalid wr, w)"
  using assms
  by (auto simp: handleLoginComplete_def run_answer renderLoginInvalid_def nonceMatches_def
      split: option.splits)

text \<open>C30: Completing a sign-in signs the browser in: after a confirmation that answers with a redirect,
  a request carrying the cookies it set is served as the account of the address the token was mailed
  to, for thirty days.\<close>

theorem login_signs_in:
  assumes "run_state (handleLoginComplete lib uid sid stok r wr) w = (resp, w')" and "Status resp = 303"
    and "db_ok (l_fold lib) (c_db w)" and "session_plausibleToken stok"
    and "\<And>old. req_cookie r SessionCookieName = Some old \<Longrightarrow> l_hash lib old \<noteq> l_hash lib stok"
    and "c_faults v = []" "c_db v = c_db w'" "c_now v < c_now w + 30 * day"
    and "req_cookie rq SessionCookieName = browser_cookie SessionCookieName (RCookies resp)"
  shows "\<exists>t u. t \<in> set (login_tokens (c_db w)) \<and> lt_token_hash t = l_hash lib (PathValue r ''token'') \<and>
    l_fold lib (Email u) = l_fold lib (lt_email t) \<and>
    run_state (CurrentUser lib nxt rq wq) v = run_state (nxt (withUser rq u) wq) v"
proof -
  let ?H = "l_hash lib" and ?L = "l_fold lib" and ?tok = "PathValue r ''token''"
  let ?w1 = "clearLoginNonceCookie wr"
  obtain form nonce where fm: "ParseForm r = Some form" "req_cookie r loginNonceCookieName = Some nonce"
      "nonceMatches nonce (FormValue r form ''nonce'')"
    using assms(1,2)
    by (auto simp: handleLoginComplete_def run_answer renderLoginInvalid_def
        split: option.splits if_splits)
  obtain res a1 where complete: "run_state (CompleteLogin ?L ?H uid ?tok) w = (res, a1)" by fastforce
  obtain u where res: "res = Inr u"
    using assms(1,2) fm complete
    by (cases res) (auto simp: handleLoginComplete_def run_on_result run_answer renderLoginInvalid_def
        Let_def split: if_splits)
  obtain res2 a2 where issue: "run_state (Issue ?H sid stok (ID u)) a1 = (res2, a2)" by fastforce
  obtain raw where res2: "res2 = Inr raw"
    using assms(1,2) fm complete res issue
    by (cases res2) (auto simp: handleLoginComplete_def run_on_result run_answer Let_def)
  obtain fs where raw: "raw = stok" and acc: "session_accepts sid (?H stok) (ID u) (c_db a1)"
    and a2: "a2 = a1\<lparr>c_db := session_put sid (?H stok) (ID u) (c_now a1) (c_db a1), c_faults := fs\<rparr>"
    using issue res2 by (auto elim: Issue_Inr)
  obtain t u0 fs1 where t: "find (\<lambda>t. lt_token_hash t = ?H ?tok \<and> live (c_now w) t) (login_tokens (c_db w)) = Some t"
    and up: "UpsertUserByEmail ?L uid (lt_email t) (c_now w)
       ((c_db w)\<lparr>login_tokens := map (spend (c_now w) (?H ?tok)) (login_tokens (c_db w))\<rparr>) = (Inr u0, c_db a1)"
    and u: "u = fromRow u0" and a1: "a1 = w\<lparr>c_db := c_db a1, c_faults := fs1\<rparr>"
    using complete res by (auto elim: CompleteLogin_Inr)
  have ids: "distinct (map u_id (users (c_db a1)))" and u0: "u0 \<in> set (users (c_db a1))"
      "?L (u_email u0) = ?L (lt_email t)"
    using Upsert_account [OF up] assms(3) by (simp_all add: db_ok_def users_ok_def user_keys_def)
  have old: "w' = a2 \<or> (\<exists>o1 r'. req_cookie r SessionCookieName = Some o1 \<and> run_state (Revoke ?H o1) a2 = (r', w'))"
    and resp: "resp = http_Redirect ''/'' 303 (SetSessionCookie stok TTL ?w1)"
    using assms(1) fm complete res issue res2 raw
    by (auto simp: handleLoginComplete_def run_on_result run_answer Let_def
        split: option.splits if_splits prod.splits)
  have "c_db w' = c_db a2 \<or> (\<exists>k n. k \<noteq> ?H stok \<and> c_db w' = session_kill k n (c_db a2))"
    using old Revoke_effect assms(5) by metis
  then have hold: "session_holder (?H stok) (c_now v) (c_db w') = session_holder (?H stok) (c_now v) (c_db a2)"
      and us: "users (c_db w') = users (c_db a2)"
    using session_kill_holder_other session_kill_users by metis+
  have "users (c_db a2) = users (c_db a1)"
    using acc by (simp add: a2 session_put_accepted)
  then have row: "find (\<lambda>x. u_id x = ID u) (users (c_db v)) = Some u0"
    using ids u0(1) us assms(7) u by (simp add: find_unique)
  have "c_now a1 = c_now w" using a1 by (metis conn.select_convs(2) conn.surjective conn.update_convs(1,3))
  then have holder: "session_holder (?H stok) (c_now v) (c_db v) = Some (ID u)"
    using hold assms(7,8) acc by (simp add: a2 session_put_holder TTL_def)
  have "browser_cookie SessionCookieName (RCookies resp) = Some stok"
    by (simp add: resp browser_cookie_def cookie_defs TTL_def)
  moreover have "stok \<noteq> []" using assms(4) by (auto simp: session_plausibleToken_def)
  ultimately have "run_state (CurrentUser lib nxt rq wq) v = run_state (nxt (withUser rq u) wq) v"
    using assms(9) Lookup_quiet [OF assms(6,4)] GetByID_quiet [OF assms(6)] holder row u
    by (simp add: CurrentUser_def run_on_result)
  moreover have "t \<in> set (login_tokens (c_db w))" "lt_token_hash t = ?H ?tok"
    using find_Some_in [OF t] by auto
  ultimately show ?thesis using u0(2) u by (intro exI [of _ t] exI [of _ u]) simp
qed

text \<open>Logging out ends the session: the browser forgets its cookie, and the session it named is
  served as nobody from then on, even if somebody kept the cookie.\<close>

theorem logout_ends_session:
  assumes "run_state (handleLogout lib r wr) w = (resp, w')"
    and "req_cookie r SessionCookieName = Some c" "session_plausibleToken c"
    and "c_faults w = []" "session_inv (c_now w) (c_db w)"
    and "c_faults v = []" "c_db v = c_db w'" "c_now w \<le> c_now v"
    and "req_cookie rq SessionCookieName = Some c"
  shows "browser_cookie SessionCookieName (RCookies resp) = None \<and> Status resp = 303 \<and>
    run_state (CurrentUser lib nxt rq wq) v = run_state (nxt rq wq) v"
proof -
  have c: "c \<noteq> []" using assms(3) by (auto simp: session_plausibleToken_def)
  have resp: "resp = http_Redirect ''/'' 303 (ClearSessionCookie wr)"
    and w': "c_db w' = session_kill (l_hash lib c) (c_now w) (c_db w)"
    using assms(1,2) c Revoke_quiet [OF assms(4,5,3), of "l_hash lib"]
    by (auto simp: handleLogout_def run_answer)
  have "session_holder (l_hash lib c) (c_now v) (c_db v) = None"
    using session_kill_self [OF assms(5,8)] assms(7) w' by simp
  then show ?thesis
    using assms(9) c Lookup_quiet [OF assms(6,3)]
    by (simp add: CurrentUser_def run_on_result resp browser_cookie_def cookie_defs)
qed


section \<open>Concrete runs\<close>

definition demo_lib :: lib where
  "demo_lib = \<lparr>l_parse_address = (\<lambda>s. Some ([], s)), l_lower = id, l_fold = id, l_hash = id,
     l_uuid_parse = (\<lambda>s. if s = ''11'' then Some 11 else None), l_uuid_text = (\<lambda>_. ''11''),
     l_origin_host = (\<lambda>s. if has_prefix s ''https://'' then Some (drop 8 s) else None),
     l_mux_redirect = (\<lambda>r w. http_Redirect ''/'' 307 w), l_upper = (\<lambda>n. n),
     l_serve_content = (\<lambda>r content w. respond 200 (Bytes content) w)\<rparr>"

definition demo_config :: Config where
  "demo_config = env_config local_env 15000000"

definition demo_world :: "db \<Rightarrow> web" where
  "demo_world d = \<lparr>c_db = d, c_now = 1000000, c_faults = [], w_sent = [], w_mail_faults = [],
     w_files = Map.empty, w_disk_faults = []\<rparr>"

lemma demo_world_simps [simp]:
  "c_db (demo_world d) = d" "c_now (demo_world d) = 1000000" "c_faults (demo_world d) = []"
  "w_sent (demo_world d) = []" "w_mail_faults (demo_world d) = []" "w_files (demo_world d) = Map.empty"
  "w_disk_faults (demo_world d) = []"
  by (simp_all add: demo_world_def)

definition demo_mailed :: db where
  "demo_mailed = empty_db\<lparr>login_tokens := [fresh_token 1 ''TOKEN'' ''ana@example.com'' 500000]\<rparr>"

definition demo_confirm :: request where
  "demo_confirm = blank_request\<lparr>Method := ''POST'', PathValues := [(''token'', ''TOKEN'')],
     Cookies := [(''__Host-login-nonce'', ''N'')], PostForm := Some [(''nonce'', [''N''])]\<rparr>"

definition demo_signed_in :: "response \<times> web" where
  "demo_signed_in = run_state (handleLoginComplete demo_lib 7 8 ''SESSION'' demo_confirm new_writer)
     (demo_world demo_mailed)"

definition demo_browser :: request where
  "demo_browser = blank_request\<lparr>Cookies := [(''__Host-session'', ''SESSION'')]\<rparr>"

lemma demo_signed_in_status: "Status (fst demo_signed_in) = 303"
  by code_simp

lemma demo_signed_in_cookie: "browser_cookie SessionCookieName (RCookies (fst demo_signed_in)) = Some ''SESSION''"
  by code_simp

lemma demo_signed_in_quiet: "c_faults (snd demo_signed_in) = []" "c_now (snd demo_signed_in) = 1000000"
  by code_simp+

lemma login_response_independent_witness:
  "fst (run_state (handleLoginRequest demo_lib demo_config 5 ''X'' demo_confirm new_writer) (demo_world demo_mailed)) =
   fst (run_state (handleLoginRequest demo_lib demo_config 5 ''X'' demo_confirm new_writer) (demo_world empty_db))"
  by (rule login_response_independent)
    (simp_all add: demo_mailed_def empty_db_def demo_lib_def fresh_token_def)

lemma forged_confirmation_refused_witness:
  "run_state (handleLoginComplete demo_lib 7 8 ''SESSION'' (demo_confirm\<lparr>Cookies := []\<rparr>) new_writer)
     (demo_world demo_mailed) = (renderTemplate 200 LoginInvalid new_writer, demo_world demo_mailed)"
  by (rule forged_confirmation_refused) (simp add: demo_confirm_def req_cookie_def)

lemma login_signs_in_witness:
  "Status (fst (run_state (CurrentUser demo_lib handleLoginForm demo_browser new_writer) (snd demo_signed_in))) = 303"
proof -
  have "run_state (handleLoginComplete demo_lib 7 8 ''SESSION'' demo_confirm new_writer) (demo_world demo_mailed)
      = (fst demo_signed_in, snd demo_signed_in)"
    by (simp add: demo_signed_in_def)
  moreover have "db_ok (l_fold demo_lib) (c_db (demo_world demo_mailed))"
    by (simp add: demo_mailed_def empty_db_def db_ok_def table_defs)
  moreover have "session_plausibleToken ''SESSION''"
    by code_simp
  moreover have "req_cookie demo_browser SessionCookieName =
      browser_cookie SessionCookieName (RCookies (fst demo_signed_in))"
    unfolding demo_signed_in_cookie by (simp add: demo_browser_def req_cookie_def SessionCookieName_def)
  moreover have "req_cookie demo_confirm SessionCookieName = None"
    by (simp add: demo_confirm_def req_cookie_def SessionCookieName_def)
  ultimately obtain u where
    "run_state (CurrentUser demo_lib handleLoginForm demo_browser new_writer) (snd demo_signed_in) =
     run_state (handleLoginForm (withUser demo_browser u) new_writer) (snd demo_signed_in)"
    using login_signs_in [where lib = demo_lib and w = "demo_world demo_mailed" and nxt = handleLoginForm
        and v = "snd demo_signed_in" and rq = demo_browser and wq = new_writer, OF _ demo_signed_in_status]
      demo_signed_in_quiet by fastforce
  then show ?thesis by (simp add: handleLoginForm_def run_answer)
qed

definition demo_session_db :: db where
  "demo_session_db = empty_db\<lparr>users := [demo_user], sessions := [\<lparr>s_id = 8, s_session_hash = ''SESSION'',
     s_user_id = 3, s_created_at = 1000000, s_expires_at = 2592001000000, s_revoked_at = None\<rparr>]\<rparr>"

definition demo_logged_out :: "response \<times> web" where
  "demo_logged_out = run_state (handleLogout demo_lib demo_browser new_writer) (demo_world demo_session_db)"

lemma demo_logged_out_quiet: "c_faults (snd demo_logged_out) = []" "c_now (snd demo_logged_out) = 1000000"
  by code_simp+

lemma logout_ends_session_witness:
  "Status (fst (run_state (CurrentUser demo_lib handleLoginForm demo_browser new_writer) (snd demo_logged_out))) = 200"
proof -
  have "run_state (handleLogout demo_lib demo_browser new_writer) (demo_world demo_session_db)
      = (fst demo_logged_out, snd demo_logged_out)"
    by (simp add: demo_logged_out_def)
  moreover have "req_cookie demo_browser SessionCookieName = Some ''SESSION''"
    by (simp add: demo_browser_def req_cookie_def SessionCookieName_def)
  moreover have "session_plausibleToken ''SESSION''" by code_simp
  moreover have "session_inv 1000000 demo_session_db"
    by (simp add: session_inv_def demo_session_db_def empty_db_def session_check_def)
  ultimately have
    "run_state (CurrentUser demo_lib handleLoginForm demo_browser new_writer) (snd demo_logged_out) =
     run_state (handleLoginForm demo_browser new_writer) (snd demo_logged_out)"
    using logout_ends_session [where w = "demo_world demo_session_db" and v = "snd demo_logged_out"]
      demo_logged_out_quiet by fastforce
  then show ?thesis by (simp add: handleLoginForm_def run_answer UserFrom_def demo_browser_def blank_request_def)
qed

end
