(* ===== verification/Owner.thy ===== *)
theory Owner
  imports Home PhotoStore LoginWeb
begin

text \<open>
  The handlers of the signed-in owner: \<open>claim.go\<close>, \<open>mood.go\<close>, \<open>name.go\<close> and \<open>account.go\<close> of
  \<open>internal/web\<close>, with the small public ones of \<open>random.go\<close> and \<open>legal.go\<close>.
\<close>

section \<open>Guards\<close>

text \<open>The accented letters of the messages, as the bytes of the source.\<close>

abbreviation (input) a_ac :: string where "a_ac \<equiv> [CHR 0xC3, CHR 0xA1]"
abbreviation (input) e_ac :: string where "e_ac \<equiv> [CHR 0xC3, CHR 0xA9]"
abbreviation (input) i_ac :: string where "i_ac \<equiv> [CHR 0xC3, CHR 0xAD]"
abbreviation (input) o_ac :: string where "o_ac \<equiv> [CHR 0xC3, CHR 0xB3]"
abbreviation (input) u_ac :: string where "u_ac \<equiv> [CHR 0xC3, CHR 0xBA]"
abbreviation (input) n_ti :: string where "n_ti \<equiv> [CHR 0xC3, CHR 0xB1]"

text \<open>
  The guards the handlers open with: a visitor without a session goes to the login form, an
  account without a handle to the dashboard, a body that is no form is refused.
\<close>

definition signed_in :: "request \<Rightarrow> writer \<Rightarrow> (User \<Rightarrow> ('z, response) prog) \<Rightarrow> ('z, response) prog" where
  "signed_in r w k = (case UserFrom r of None \<Rightarrow> answer (http_Redirect ''/login'' 303 w) | Some u \<Rightarrow> k u)"

definition if_active :: "User \<Rightarrow> writer \<Rightarrow> ('z, response) prog \<Rightarrow> ('z, response) prog" where
  "if_active u w k = (if UState u \<noteq> StateActive then answer (http_Redirect ''/'' 303 w) else k)"

definition with_form :: "request \<Rightarrow> writer \<Rightarrow> (url_values \<Rightarrow> ('z, response) prog) \<Rightarrow> ('z, response) prog" where
  "with_form r w k = (case ParseForm r of None \<Rightarrow> answer (bad_request w) | Some form \<Rightarrow> k form)"

lemma keeps_guards [keeps_intros]:
  "(\<And>u. keeps I (k u)) \<Longrightarrow> keeps I (signed_in r w k)" "keeps I m \<Longrightarrow> keeps I (if_active v w m)"
  "(\<And>f. keeps I (j f)) \<Longrightarrow> keeps I (with_form r w j)"
  unfolding signed_in_def if_active_def with_form_def by (intro keeps_intros; assumption)+

lemma conn_only_guards [conn_only_intros]:
  "(\<And>u. conn_only (k u)) \<Longrightarrow> conn_only (signed_in r w k)" "conn_only m \<Longrightarrow> conn_only (if_active v w m)"
  "(\<And>f. conn_only (j f)) \<Longrightarrow> conn_only (with_form r w j)"
  unfolding signed_in_def if_active_def with_form_def by (intro conn_only_intros; assumption)+

lemma signed_in_simps [simp]:
  "UserFrom r = None \<Longrightarrow> signed_in r w k = answer (http_Redirect ''/login'' 303 w)"
  "UserFrom r = Some u \<Longrightarrow> signed_in r w k = k u"
  "UState u = StateActive \<Longrightarrow> if_active u w m = m"
  "UState u \<noteq> StateActive \<Longrightarrow> if_active u w m = answer (http_Redirect ''/'' 303 w)"
  "ParseForm r = Some form \<Longrightarrow> with_form r w j = j form"
  "ParseForm r = None \<Longrightarrow> with_form r w j = answer (bad_request w)"
  by (simp_all add: signed_in_def if_active_def with_form_def)

section \<open>Claiming a handle\<close>

definition msgAdultRequired :: string where
  "msgAdultRequired = ''Para usar retratar ten'' @ e_ac @ ''s que tener 18 a'' @ n_ti @ ''os o m'' @ a_ac @
     ''s y aceptar los t'' @ e_ac @ ''rminos.''"

definition handleClaimForm :: "'z handler" where
  "handleClaimForm r w = signed_in r w (\<lambda>u.
     if UState u = StateActive then answer (http_Redirect ''/'' 303 w)
     else answer (renderTemplate 200 (ClaimHandlePage \<lparr>ch_Error = [], ch_Handle = []\<rparr>) w))"

definition claim_refused :: "user_err \<Rightarrow> writer \<Rightarrow> response" where
  "claim_refused err w = (case err of
     ErrInvalidHandle \<Rightarrow> renderTemplate 422 (ClaimHandlePage
       \<lparr>ch_Error = ''Us'' @ a_ac @ '' solo min'' @ u_ac @ ''sculas, n'' @ u_ac @ ''meros y guiones.'', ch_Handle = []\<rparr>) w
   | ErrHandleTaken \<Rightarrow> renderTemplate 409 (ClaimHandlePage
       \<lparr>ch_Error = ''Esa direcci'' @ o_ac @ ''n ya est'' @ a_ac @ '' tomada. Prob'' @ a_ac @ '' otra.'', ch_Handle = []\<rparr>) w
   | ErrHandleAlreadySet \<Rightarrow> http_Redirect ''/'' 303 w
   | _ \<Rightarrow> internal_error w)"

definition handleClaimSubmit :: "lib \<Rightarrow> instant \<Rightarrow> 'z handler" where
  "handleClaimSubmit lib now r w = signed_in r w (\<lambda>u. with_form r w (\<lambda>form.
     let handle = FormValue r form ''handle'' in
     if FormValue r form ''adult'' \<noteq> ''yes''
     then answer (renderTemplate 422 (ClaimHandlePage \<lparr>ch_Error = msgAdultRequired, ch_Handle = handle\<rparr>) w)
     else on_result (ClaimHandle_service (l_fold lib) (ID u) handle now)
       (\<lambda>err. answer (claim_refused err w))
       (\<lambda>_. answer (http_Redirect ''/'' 303 w))))"

section \<open>Mood and name\<close>

definition mood_refused :: "lib \<Rightarrow> Config \<Rightarrow> instant \<Rightarrow> User \<Rightarrow> mood_err \<Rightarrow> writer \<Rightarrow> ('z, response) prog" where
  "mood_refused lib cfg now u err w =
     (if err = ErrInvalidMood then renderAppHome lib cfg now 422 u
        (''Eleg'' @ i_ac @ '' uno de los estados de la lista.'') w
      else if err = ErrInvalidNote then renderAppHome lib cfg now 422 u
        (''La nota puede tener hasta 60 caracteres, en una sola l'' @ i_ac @ ''nea.'') w
      else answer (internal_error w))"

text \<open>\<open>rid\<close> is the identifier the store will give the history entry.\<close>

definition handleMoodSubmit :: "lib \<Rightarrow> Config \<Rightarrow> instant \<Rightarrow> uuid \<Rightarrow> 'z handler" where
  "handleMoodSubmit lib cfg now rid r w = signed_in r w (\<lambda>u. if_active u w (with_form r w (\<lambda>form.
     on_result (SetMood rid (ID u) (FormValue r form ''mood_key'') (FormValue r form ''note''))
       (\<lambda>err. mood_refused lib cfg now u err w)
       (\<lambda>_. answer (http_Redirect ''/'' 303 w)))))"

definition handleNameSubmit :: "lib \<Rightarrow> Config \<Rightarrow> instant \<Rightarrow> 'z handler" where
  "handleNameSubmit lib cfg now r w = signed_in r w (\<lambda>u. if_active u w (with_form r w (\<lambda>form.
     let raw = FormValue r form ''name'' in
     on_result (SetDisplayName_service (l_fold lib) (ID u) raw)
       (\<lambda>err. if err = ErrInvalidDisplayName
          then renderAppHomeErrors lib cfg now 422 (u\<lparr>DisplayName := raw\<rparr>) []
            (''Escrib'' @ i_ac @ '' hasta 40 caracteres, sin saltos de l'' @ i_ac @ ''nea.'') w
          else answer (internal_error w))
       (\<lambda>_. answer (http_Redirect ''/'' 303 w)))))"

section \<open>Deleting the account\<close>

definition msgConfirmDelete :: string where
  "msgConfirmDelete = ''Marc'' @ a_ac @ '' la casilla para confirmar.''"

definition handleAccountDeleteForm :: "'z handler" where
  "handleAccountDeleteForm r w = signed_in r w (\<lambda>u.
     answer (renderTemplate 200 (AccountDelete \<lparr>ad_Handle = Handle u, ad_Error = []\<rparr>) w))"

text \<open>\<open>removePhotoFile\<close> of \<open>photo.go\<close>: a file that cannot be removed is only logged.\<close>

definition removePhotoFile :: "string \<Rightarrow> ('z, unit) web_prog" where
  "removePhotoFile key = do { _ \<leftarrow> Remove key; State_Monad.return () }"

definition handleAccountDelete :: "lib \<Rightarrow> instant \<Rightarrow> 'z web_handler" where
  "handleAccountDelete lib now r w = signed_in r w (\<lambda>u. with_form r w (\<lambda>form.
     if FormValue r form ''confirm'' \<noteq> ''yes''
     then answer (renderTemplate 422 (AccountDelete \<lparr>ad_Handle = Handle u, ad_Error = msgConfirmDelete\<rparr>) w)
     else on_result (DeleteAccount (l_fold lib) (ID u) now)
       (\<lambda>err. if err = ErrUserNotFound then answer (http_Redirect ''/account/deleted'' 303 (ClearSessionCookie w))
          else answer (internal_error w))
       (\<lambda>photoKey. do {
          _ \<leftarrow> (if photoKey \<noteq> [] then removePhotoFile photoKey else State_Monad.return ());
          answer (http_Redirect ''/account/deleted'' 303 (ClearSessionCookie w))
        })))"

definition handleAccountDeleted :: "'z handler" where
  "handleAccountDeleted r w = answer (renderTemplate 200 AccountDeleted w)"

section \<open>A random page, and the legal pages\<close>

text \<open>\<open>pick\<close> is the place the database's \<open>random()\<close> sorts first.\<close>

definition handleRandom :: "Config \<Rightarrow> nat \<Rightarrow> 'z handler" where
  "handleRandom cfg pick r w =
     (let exclude = map_option ID (UserFrom r) in
      on_result (RandomHandle pick exclude)
        (\<lambda>err. if err = ErrUserNotFound then answer (http_Redirect ''/'' 302 w) else answer (internal_error w))
        (\<lambda>handle. answer (http_Redirect (PageBaseURL cfg handle @ ''/'') 302 w)))"

definition legal_data :: "Config \<Rightarrow> legalData" where
  "legal_data cfg = \<lparr>lg_OperatorName = OperatorName cfg, lg_ContactEmail = ContactEmail cfg\<rparr>"

definition handlePrivacy :: "Config \<Rightarrow> 'z handler" where
  "handlePrivacy cfg r w = answer (renderTemplate 200 (Privacy (legal_data cfg)) w)"

definition handleTerms :: "Config \<Rightarrow> 'z handler" where
  "handleTerms cfg r w = answer (renderTemplate 200 (Terms (legal_data cfg)) w)"

section \<open>What they touch\<close>

lemma conn_only_owner [conn_only_intros]:
  "conn_only (handleClaimForm r w)" "conn_only (handleClaimSubmit lib now r w)"
  "conn_only (handleMoodSubmit lib cfg now rid r w)" "conn_only (handleNameSubmit lib cfg now r w)"
  "conn_only (handleAccountDeleteForm r w)" "conn_only (handleAccountDeleted r w)"
  "conn_only (handleRandom cfg pick r w)" "conn_only (handlePrivacy cfg r w)" "conn_only (handleTerms cfg r w)"
  unfolding mood_refused_def handleClaimForm_def handleClaimSubmit_def handleMoodSubmit_def handleNameSubmit_def
    handleAccountDeleteForm_def handleAccountDeleted_def handleRandom_def handlePrivacy_def handleTerms_def Let_def
  by (intro conn_only_intros)+

end
