(* ===== verification/GuestbookWeb.thy ===== *)
theory GuestbookWeb
  imports Owner
begin

text \<open>
  \<open>internal/web/guestbook.go\<close>: signing a guestbook, and hiding and showing entries of one's own.
\<close>

section \<open>The handlers\<close>

definition guestbookOwner :: "lib \<Rightarrow> request \<Rightarrow> writer \<Rightarrow> (User \<Rightarrow> ('z, response) prog) \<Rightarrow> ('z, response) prog" where
  "guestbookOwner lib r w k = on_result (GetByHandle (l_fold lib) (PathValue r ''handle''))
     (\<lambda>err. if err = ErrUserNotFound then answer (http_NotFound w) else answer (internal_error w)) k"

text \<open>What the visitor may do: the page's data, and the signer when they may write.\<close>

definition visitor_state :: "request \<Rightarrow> User \<Rightarrow> guestbookSignData \<Rightarrow> guestbookSignData \<times> User option" where
  "visitor_state r owner data = (case UserFrom r of
     None \<Rightarrow> (data\<lparr>gs_Message := ''Ingres'' @ a_ac @ '' para firmar el libro de '' @ Handle owner @ ''.'',
        gs_MessageURL := ''/login'', gs_MessageLink := ''Ingresar''\<rparr>, None)
   | Some signer \<Rightarrow>
       if UState signer \<noteq> StateActive then
         (data\<lparr>gs_Message := ''Eleg'' @ i_ac @ '' tu nombre de usuario para firmar.'',
            gs_MessageURL := ''/'', gs_MessageLink := ''Elegir nombre de usuario''\<rparr>, None)
       else if ID signer = ID owner then
         (data\<lparr>gs_Message := ''No pod'' @ e_ac @ ''s firmar tu propio libro.'',
            gs_MessageURL := gs_PageURL data, gs_MessageLink := ''Volver a tu p'' @ a_ac @ ''gina''\<rparr>, None)
       else (data\<lparr>gs_CanSign := True\<rparr>, Some signer))"

definition guestbookState :: "Config \<Rightarrow> request \<Rightarrow> User \<Rightarrow> ('z, guestbookSignData \<times> User option) prog" where
  "guestbookState cfg r owner = do {
     m \<leftarrow> CurrentMood (ID owner);
     let data = \<lparr>gs_Handle = Handle owner, gs_PageURL = PageBaseURL cfg (Handle owner) @ ''/'',
       gs_MoodClass = (case m of Inr md \<Rightarrow> md_Key md | Inl _ \<Rightarrow> []), gs_CanSign = False, gs_Message = [],
       gs_MessageURL = [], gs_MessageLink = [], gs_Body = [], gs_Error = []\<rparr>;
     State_Monad.return (visitor_state r owner data)
   }"

definition handleGuestbookForm :: "lib \<Rightarrow> Config \<Rightarrow> 'z handler" where
  "handleGuestbookForm lib cfg r w = guestbookOwner lib r w (\<lambda>owner. do {
     st \<leftarrow> guestbookState cfg r owner;
     answer (renderTemplate 200 (GuestbookSign (fst st)) w)
   })"

definition sign_refused :: "guestbookSignData \<Rightarrow> string \<Rightarrow> guestbook_err \<Rightarrow> writer \<Rightarrow> response" where
  "sign_refused data body err w =
     (if err = ErrInvalidBody then renderTemplate 422 (GuestbookSign
        (data\<lparr>gs_Body := body, gs_Error := ''Escrib'' @ i_ac @ '' entre 1 y 280 caracteres.''\<rparr>)) w
      else if err = ErrOwnPage then renderTemplate 403 (GuestbookSign data) w
      else internal_error w)"

definition handleGuestbookSign :: "lib \<Rightarrow> Config \<Rightarrow> uuid \<Rightarrow> 'z handler" where
  "handleGuestbookSign lib cfg rid r w = guestbookOwner lib r w (\<lambda>owner. do {
     st \<leftarrow> guestbookState cfg r owner;
     (case st of
        (data, None) \<Rightarrow>
          if gs_MessageURL data = ''/login'' \<or> gs_MessageURL data = ''/''
          then answer (http_Redirect (gs_MessageURL data) 303 w)
          else answer (renderTemplate 403 (GuestbookSign data) w)
      | (data, Some signer) \<Rightarrow> with_form r w (\<lambda>form.
          let body = FormValue r form ''body'' in
          on_result (Sign rid (ID owner) (ID signer) body)
            (\<lambda>err. answer (sign_refused data body err w))
            (\<lambda>_. answer (http_Redirect (gs_PageURL data) 303 w))))
   })"

definition setGuestbookEntryHidden ::
  "lib \<Rightarrow> (uuid \<Rightarrow> uuid \<Rightarrow> ('z, guestbook_err + unit) prog) \<Rightarrow> 'z handler" where
  "setGuestbookEntryHidden lib change r w = signed_in r w (\<lambda>u. if_active u w
     (case l_uuid_parse lib (PathValue r ''id'') of
        None \<Rightarrow> answer (http_NotFound w)
      | Some entry \<Rightarrow> on_result (change (ID u) entry)
          (\<lambda>err. if err = ErrEntryNotFound then answer (http_NotFound w) else answer (internal_error w))
          (\<lambda>_. answer (http_Redirect ''/'' 303 w))))"

definition handleGuestbookHide :: "lib \<Rightarrow> 'z handler" where
  "handleGuestbookHide lib r w = setGuestbookEntryHidden lib Hide r w"

definition handleGuestbookShow :: "lib \<Rightarrow> 'z handler" where
  "handleGuestbookShow lib r w = setGuestbookEntryHidden lib Show r w"

lemma conn_only_case_signer [conn_only_intros]:
  "(\<And>d. conn_only (f d)) \<Longrightarrow> (\<And>d s. conn_only (g d s)) \<Longrightarrow>
   conn_only (case st of (d, None) \<Rightarrow> f d | (d, Some s) \<Rightarrow> g d s)"
  by (cases st; cases "snd st") auto

lemma conn_only_guestbook_web [conn_only_intros]:
  "conn_only (guestbookState cfg r owner)" "conn_only (handleGuestbookForm lib cfg r w)"
  "conn_only (handleGuestbookSign lib cfg rid r w)" "conn_only (handleGuestbookHide lib r w)"
  "conn_only (handleGuestbookShow lib r w)"
  unfolding guestbookState_def handleGuestbookForm_def handleGuestbookSign_def guestbookOwner_def
    handleGuestbookHide_def handleGuestbookShow_def setGuestbookEntryHidden_def Let_def
  by (intro conn_only_intros)+

end
