(* ===== verification/Meter.thy ===== *)
theory Meter
  imports Prelude Complex_Main
begin

text \<open>
  The contract of a meter that allows requests per key: every key has a level that a request it
  allows lowers by one, that other keys' requests leave alone, and that grows back with time up to a
  cap.  What follows for whole stretches of traffic is proved once here.
\<close>

section \<open>Traffic\<close>

text \<open>Requests in the order they arrive: what the environment draws, when, and the key.\<close>

fun serve_with :: "('v \<Rightarrow> instant \<Rightarrow> 'k \<Rightarrow> 's \<Rightarrow> bool \<times> 's) \<Rightarrow> ('v \<times> instant \<times> 'k) list \<Rightarrow> 's \<Rightarrow> bool list \<times> 's" where
  "serve_with f [] s = ([], s)"
| "serve_with f ((v, tm, key) # rs) s =
     (case f v tm key s of (r, s1) \<Rightarrow> (case serve_with f rs s1 of (out, s2) \<Rightarrow> (r # out, s2)))"

fun arrives :: "instant \<Rightarrow> ('v \<times> instant \<times> 'k) list \<Rightarrow> instant \<Rightarrow> bool" where
  "arrives now [] stop = (now \<le> stop)"
| "arrives now ((v, tm, key) # rs) stop = (now \<le> tm \<and> arrives tm rs stop)"

definition allowed :: "'k \<Rightarrow> ('v \<times> instant \<times> 'k) list \<Rightarrow> bool list \<Rightarrow> nat" where
  "allowed key rs out = length (filter (\<lambda>((_, _, k), r). k = key \<and> r) (zip rs out))"

lemma arrives_le: "arrives now rs stop \<Longrightarrow> now \<le> stop"
  by (induction now rs stop rule: arrives.induct) auto

lemma length_serve: "serve_with f rs s = (out, s') \<Longrightarrow> length out = length rs"
  by (induction f rs s arbitrary: out rule: serve_with.induct) (auto split: prod.splits)

lemma allowed_one_key:
  "length out = length ks \<Longrightarrow> (\<And>v t k. (v, t, k) \<in> set ks \<Longrightarrow> k = key) \<Longrightarrow>
   allowed key ks out = length (filter (\<lambda>ok. ok) out)"
proof (induction out ks rule: list_induct2)
  case (Cons r out q ks)
  have "allowed key ks out = length (filter (\<lambda>ok. ok) out)"
    by (rule Cons.IH) (meson Cons.prems list.set_intros(2))
  moreover obtain v t k where "q = (v, t, k)" by (cases q)
  moreover then have "k = key" using Cons.prems [of v t k] by simp
  ultimately show ?case by (simp add: allowed_def)
qed (simp add: allowed_def)

section \<open>The contract\<close>

text \<open>\<open>gain d\<close> is what a level regains in the time \<open>d\<close>, \<open>cap\<close> where it stops.\<close>

locale meter =
  fixes request :: "'v \<Rightarrow> instant \<Rightarrow> 'k \<Rightarrow> 's \<Rightarrow> bool \<times> 's"
    and level :: "'s \<Rightarrow> instant \<Rightarrow> 'k \<Rightarrow> rat"
    and room :: "'v \<Rightarrow> instant \<Rightarrow> 'k \<Rightarrow> 's \<Rightarrow> bool"
    and inv :: "instant \<Rightarrow> 's \<Rightarrow> bool"
    and cap :: rat
    and gain :: "duration \<Rightarrow> rat"
  assumes decided: "inv now s \<Longrightarrow> request v now k s = (r, s') \<Longrightarrow> r = (room v now k s \<and> 1 \<le> level s now k)"
    and spent: "inv now s \<Longrightarrow> request v now k s = (r, s') \<Longrightarrow>
      level s' now k = level s now k - (if r then 1 else 0)"
    and others: "inv now s \<Longrightarrow> request v now k s = (r, s') \<Longrightarrow> k' \<noteq> k \<Longrightarrow> level s' now k' = level s now k'"
    and kept: "inv now s \<Longrightarrow> request v now k s = (r, s') \<Longrightarrow> inv now s'"
    and inv_later: "inv now s \<Longrightarrow> now \<le> t \<Longrightarrow> inv t s"
    and regained: "inv now s \<Longrightarrow> now \<le> t \<Longrightarrow> level s t k = min cap (level s now k + gain (t - now))"
    and level_range: "inv now s \<Longrightarrow> 0 \<le> level s now k \<and> level s now k \<le> cap"
    and one_fits: "1 \<le> cap"
    and gain_add: "gain (d + d') = gain d + gain d'"
    and gain_nonneg: "0 \<le> d \<Longrightarrow> 0 \<le> gain d"
begin

lemma gain_split: "gain (stop - now) = gain (tm - now) + gain (stop - tm)"
  using gain_add [of "tm - now" "stop - tm"] by simp

text \<open>What a key is allowed is paid for by its level and what it regains.\<close>

lemma serve_budget:
  assumes "inv now s" and "arrives now rs stop" and "serve_with request rs s = (out, s')"
  shows "of_nat (allowed key rs out) + level s' stop key \<le> level s now key + gain (stop - now)"
    and "inv stop s'"
proof -
  have "of_nat (allowed key rs out) + level s' stop key \<le> level s now key + gain (stop - now) \<and> inv stop s'"
    using assms
  proof (induction rs arbitrary: now s out)
    case Nil
    then show ?case using regained [of now s stop key] inv_later by (auto simp: allowed_def)
  next
    case (Cons q rs)
    obtain v tm k where q: "q = (v, tm, k)" by (cases q)
    obtain r s1 where step: "request v tm k s = (r, s1)" by fastforce
    obtain out1 where rest: "serve_with request rs s1 = (out1, s')" and out: "out = r # out1"
      using Cons.prems(3) q step by (auto split: prod.splits)
    have tm: "now \<le> tm" "arrives tm rs stop" using Cons.prems(2) q by auto
    have ok: "inv tm s" by (rule inv_later [OF Cons.prems(1) tm(1)])
    have IH: "of_nat (allowed key rs out1) + level s' stop key \<le> level s1 tm key + gain (stop - tm) \<and> inv stop s'"
      by (rule Cons.IH [OF kept [OF ok step] tm(2) rest])
    have later: "level s tm key \<le> level s now key + gain (tm - now)"
      using regained [OF Cons.prems(1) tm(1)] by simp
    have count: "allowed key (q # rs) out = (if k = key \<and> r then 1 else 0) + allowed key rs out1"
      by (simp add: allowed_def out q)
    have lev: "level s1 tm key = level s tm key - (if k = key \<and> r then 1 else 0)"
      using spent [OF ok step] others [OF ok step, of key] by (cases "k = key") auto
    show ?case
      using IH later gain_split [of stop now tm] unfolding count lev by auto
  qed
  then show "of_nat (allowed key rs out) + level s' stop key \<le> level s now key + gain (stop - now)"
    "inv stop s'" by blast+
qed

lemma meter_rate_bound:
  assumes "inv now s" and "arrives now rs stop" and "serve_with request rs s = (out, s')"
  shows "of_nat (allowed key rs out) \<le> cap + gain (stop - now)"
  using serve_budget(1) [OF assms, of key] level_range [OF assms(1), of key]
    level_range [OF serve_budget(2) [OF assms], of key] by linarith

text \<open>A key left alone regains its level whatever the others do.\<close>

lemma serve_others:
  assumes "inv now s" and "arrives now rs stop" and "key \<notin> (snd \<circ> snd) ` set rs"
    and "serve_with request rs s = (out, s')"
  shows "level s' stop key = min cap (level s now key + gain (stop - now))"
  using assms
proof (induction rs arbitrary: now s out)
  case Nil
  then show ?case using regained [of now s stop key] by (auto simp: min_def)
next
  case (Cons q rs)
  obtain v tm k where q: "q = (v, tm, k)" by (cases q)
  obtain r s1 where step: "request v tm k s = (r, s1)" by fastforce
  obtain out1 where rest: "serve_with request rs s1 = (out1, s')"
    using Cons.prems(4) q step by (auto split: prod.splits)
  have tm: "now \<le> tm" "arrives tm rs stop" and k: "key \<noteq> k" "key \<notin> (snd \<circ> snd) ` set rs"
    using Cons.prems(2,3) q by auto
  have ok: "inv tm s" by (rule inv_later [OF Cons.prems(1) tm(1)])
  have "level s' stop key = min cap (level s tm key + gain (stop - tm))"
    using Cons.IH [OF kept [OF ok step] tm(2) k(2) rest] others [OF ok step k(1)] by simp
  moreover have "0 \<le> gain (stop - tm)" using arrives_le [OF tm(2)] by (simp add: gain_nonneg)
  ultimately show ?case
    using regained [OF Cons.prems(1) tm(1), of key] gain_split [of stop now tm] by (auto simp: min_def)
qed

lemma waiting_served:
  assumes "inv now s" and "arrives now rs t" and "key \<notin> (snd \<circ> snd) ` set rs"
    and "serve_with request rs s = (out, s')" and "1 \<le> gain (t - now)" and "room v t key s'"
  shows "\<exists>s''. request v t key s' = (True, s'')"
proof -
  obtain r s'' where run: "request v t key s' = (r, s'')" by fastforce
  have "1 \<le> level s' t key"
    using serve_others [OF assms(1-4)] level_range [OF assms(1), of key] one_fits assms(5) by simp
  then have "r = True"
    using decided [OF serve_budget(2) [OF assms(1,2,4)] run] assms(6) by blast
  then show ?thesis using run by blast
qed

end

end
