(* ===== verification/RateLimit.thy ===== *)
theory RateLimit
  imports Http NetAddr Meter "HOL-Library.AList"
begin

text \<open>
  \<open>internal/web/ratelimit.go\<close>: the token buckets, their eviction, and the keys requests are charged
  to.  A bucket's \<open>float64\<close> count is an exact rational here.  The map of buckets is an association
  list; the entries an eviction visits, which Go's runtime picks at random, are an argument.
  Addresses are those of \<open>NetAddr\<close>.
\<close>

section \<open>Keys\<close>

text \<open>
  \<open>clientAddr\<close>: the peer's address, or the one its header forwards when the peer is the local
  proxy; the text alone when the peer is not an address.
\<close>

definition clientAddr :: "request \<Rightarrow> netip option \<times> string" where
  "clientAddr r =
     (let peer = (case SplitHostPort (RemoteAddr r) of Some (host, _) \<Rightarrow> host | None \<Rightarrow> RemoteAddr r) in
      case ParseAddr peer of
        None \<Rightarrow> (None, peer)
      | Some peerAddr \<Rightarrow>
          (let cf = trim_space (req_header r ''CF-Connecting-IP'') in
           if IsLoopback peerAddr \<and> cf \<noteq> [] then
             (case ParseAddr cf of Some forwarded \<Rightarrow> (Some forwarded, peer) | None \<Rightarrow> (Some peerAddr, peer))
           else (Some peerAddr, peer)))"

definition rateLimitKey :: "netip \<Rightarrow> string" where
  "rateLimitKey addr = (case Unmap addr of
     V6 w _ \<Rightarrow> prefix_text 64 w | V4 w \<Rightarrow> addr_text (V4 w))"

definition clientIP :: "request \<Rightarrow> string" where
  "clientIP r = (case clientAddr r of (None, raw) \<Rightarrow> raw | (Some addr, _) \<Rightarrow> rateLimitKey addr)"

definition clientNetwork48 :: "request \<Rightarrow> string" where
  "clientNetwork48 r = (case clientAddr r of
     (None, raw) \<Rightarrow> raw
   | (Some addr, _) \<Rightarrow> (case Unmap addr of V6 w _ \<Rightarrow> prefix_text 48 w | V4 w \<Rightarrow> addr_text (V4 w)))"

text \<open>The address blocks a client draws its addresses from.\<close>

definition same_block :: "nat \<Rightarrow> netip \<Rightarrow> netip \<Rightarrow> bool" where
  "same_block n a b = (case (Unmap a, Unmap b) of
     (V4 v, V4 w) \<Rightarrow> v = w
   | (V6 v _, V6 w _) \<Rightarrow> drop_bit (128 - n) v = drop_bit (128 - n) w
   | _ \<Rightarrow> False)"

lemma same_block_prefix: "same_block n a b \<Longrightarrow>
    (case Unmap a of V6 w _ \<Rightarrow> prefix_text n w | V4 w \<Rightarrow> addr_text (V4 w)) =
    (case Unmap b of V6 w _ \<Rightarrow> prefix_text n w | V4 w \<Rightarrow> addr_text (V4 w))"
  unfolding same_block_def prefix_text_def v6_prefix_def
  by (cases "Unmap a"; cases "Unmap b") (simp_all only: netip.case prod.case)

lemma rateLimitKey_block: "same_block 64 a b \<Longrightarrow> rateLimitKey a = rateLimitKey b"
  unfolding rateLimitKey_def by (rule same_block_prefix)

text \<open>A peer that is not on the loopback interface is charged by its own address.\<close>

lemma clientAddr_remote:
  assumes "SplitHostPort (RemoteAddr r) = Some (host, port)" and "ParseAddr host = Some a"
    and "\<not> IsLoopback a"
  shows "clientAddr r = (Some a, host)"
  using assms by (simp add: clientAddr_def Let_def)

section \<open>Constants and state\<close>

definition writeRateBurst :: rat where "writeRateBurst = 5"
definition writeRateRefill :: duration where "writeRateRefill = 20 * second"
definition limiterIdleTTL :: duration where "limiterIdleTTL = 10 * minute"
definition ogRateBurst :: rat where "ogRateBurst = 30"
definition ogRateRefill :: duration where "ogRateRefill = 5 * second"
definition limiterMaxBuckets :: nat where "limiterMaxBuckets = 65536"
definition limiterReapSample :: nat where "limiterReapSample = 8"
definition loginNetworkBurst :: rat where "loginNetworkBurst = 20"
definition loginNetworkRefill :: duration where "loginNetworkRefill = 10 * second"

record tokenBucket =
  tokens :: rat
  last_at :: instant

record rateLimiter =
  limiter_key :: "request \<Rightarrow> string"
  refillPerSec :: rat
  burst :: rat
  idleTTL :: duration
  maxBuckets :: nat
  buckets :: "(string \<times> tokenBucket) list"

definition seconds_of :: "duration \<Rightarrow> rat" where
  "seconds_of d = of_int d / 1000000"

definition newRateLimiter :: "rat \<Rightarrow> duration \<Rightarrow> duration \<Rightarrow> rateLimiter" where
  "newRateLimiter b refill idle =
     \<lparr>limiter_key = clientIP, refillPerSec = 1 / seconds_of refill, burst = b, idleTTL = idle,
      maxBuckets = limiterMaxBuckets, buckets = []\<rparr>"

definition newNetworkLimiter :: rateLimiter where
  "newNetworkLimiter =
     (let l = newRateLimiter loginNetworkBurst loginNetworkRefill limiterIdleTTL
      in l\<lparr>limiter_key := clientNetwork48\<rparr>)"

section \<open>Operations\<close>

definition expired :: "rateLimiter \<Rightarrow> instant \<Rightarrow> tokenBucket \<Rightarrow> bool" where
  "expired l now b = (now - last_at b > idleTTL l)"

definition reap :: "string list \<Rightarrow> instant \<Rightarrow> rateLimiter \<Rightarrow> rateLimiter" where
  "reap visited now l = l\<lparr>buckets := fold (\<lambda>k bs.
     case map_of bs k of None \<Rightarrow> bs
     | Some b \<Rightarrow> if expired l now b then AList.delete k bs else bs)
     (take limiterReapSample visited) (buckets l)\<rparr>"

definition allow :: "string list \<Rightarrow> instant \<Rightarrow> string \<Rightarrow> rateLimiter \<Rightarrow> bool \<times> rateLimiter" where
  "allow visited now key l0 =
     (let l = reap visited now l0 in
      case map_of (buckets l) key of
        None \<Rightarrow>
          if length (buckets l) \<ge> maxBuckets l then (False, l)
          else (True, l\<lparr>buckets := AList.update key \<lparr>tokens = burst l - 1, last_at = now\<rparr> (buckets l)\<rparr>)
      | Some b \<Rightarrow>
          (let t = min (burst l) (tokens b + seconds_of (now - last_at b) * refillPerSec l)
           in if t < 1 then (False, l\<lparr>buckets := AList.update key \<lparr>tokens = t, last_at = now\<rparr> (buckets l)\<rparr>)
              else (True, l\<lparr>buckets := AList.update key \<lparr>tokens = t - 1, last_at = now\<rparr> (buckets l)\<rparr>)))"

section \<open>The level of a key\<close>

text \<open>
  What a key could spend at an instant: its bucket's tokens with their refill, or a full burst
  when it has no bucket.
\<close>

definition level_of :: "rateLimiter \<Rightarrow> instant \<Rightarrow> tokenBucket option \<Rightarrow> rat" where
  "level_of l now b = (case b of None \<Rightarrow> burst l
     | Some b \<Rightarrow> min (burst l) (tokens b + seconds_of (now - last_at b) * refillPerSec l))"

definition level :: "rateLimiter \<Rightarrow> instant \<Rightarrow> string \<Rightarrow> rat" where
  "level l now key = level_of l now (map_of (buckets l) key)"

definition same_settings :: "rateLimiter \<Rightarrow> rateLimiter \<Rightarrow> bool" where
  "same_settings l l' = (refillPerSec l' = refillPerSec l \<and> burst l' = burst l \<and>
     idleTTL l' = idleTTL l \<and> maxBuckets l' = maxBuckets l)"

text \<open>
  A limiter that works: it refills, and a bucket left alone for the idle time is full again, so
  that dropping it changes nothing.
\<close>

definition limiter_ok :: "instant \<Rightarrow> rateLimiter \<Rightarrow> bool" where
  "limiter_ok now l = (1 \<le> burst l \<and> 0 < refillPerSec l \<and>
     burst l \<le> seconds_of (idleTTL l) * refillPerSec l \<and>
     distinct (map fst (buckets l)) \<and> length (buckets l) \<le> maxBuckets l \<and>
     (\<forall>(k, b)\<in>set (buckets l). 0 \<le> tokens b \<and> last_at b \<le> now))"

lemma seconds_of_mono: "a \<le> b \<Longrightarrow> seconds_of a \<le> seconds_of b"
  by (simp add: seconds_of_def divide_right_mono)

lemma seconds_of_add: "seconds_of (a + b) = seconds_of a + seconds_of b"
  by (simp add: seconds_of_def add_divide_distrib)

lemma seconds_of_nonneg [simp]: "0 \<le> d \<Longrightarrow> 0 \<le> seconds_of d"
  by (simp add: seconds_of_def)

lemma limiter_ok_later: "limiter_ok now l \<Longrightarrow> now \<le> t \<Longrightarrow> limiter_ok t l"
  by (fastforce simp: limiter_ok_def)

lemma map_of_delete: "map_of (AList.delete k bs) = (map_of bs)(k := None)"
  by (rule AList.delete_conv')

lemma expired_full:
  assumes "limiter_ok now l" and "(k, b) \<in> set (buckets l)" and "expired l now b"
  shows "level_of l now (Some b) = burst l"
proof -
  have t: "0 \<le> tokens b" "0 < refillPerSec l" "burst l \<le> seconds_of (idleTTL l) * refillPerSec l"
    using assms(1,2) by (auto simp: limiter_ok_def)
  have "seconds_of (idleTTL l) * refillPerSec l \<le> seconds_of (now - last_at b) * refillPerSec l"
    using assms(3) t(2) by (intro mult_right_mono seconds_of_mono) (auto simp: expired_def)
  with t(1,3) have "burst l \<le> tokens b + seconds_of (now - last_at b) * refillPerSec l"
    by (meson add_increasing order_trans)
  then show ?thesis by (simp add: level_of_def min_def)
qed

definition reap1 :: "instant \<Rightarrow> rateLimiter \<Rightarrow> string \<Rightarrow> (string \<times> tokenBucket) list \<Rightarrow> (string \<times> tokenBucket) list" where
  "reap1 now l k bs = (case map_of bs k of None \<Rightarrow> bs
     | Some b \<Rightarrow> if expired l now b then AList.delete k bs else bs)"

lemma reap1_sub: "set (reap1 now l k bs) \<subseteq> set bs" "length (reap1 now l k bs) \<le> length bs"
  "distinct (map fst bs) \<Longrightarrow> distinct (map fst (reap1 now l k bs))"
  by (auto simp: reap1_def AList.delete_eq distinct_map_filter_sub split: option.splits)

lemma reap1_level:
  assumes "distinct (map fst bs)" and "\<And>k b. (k, b) \<in> set bs \<Longrightarrow> expired l now b \<Longrightarrow> level_of l now (Some b) = burst l"
  shows "level_of l now (map_of (reap1 now l k bs) key) = level_of l now (map_of bs key)"
proof (cases "\<exists>b. map_of bs k = Some b \<and> expired l now b \<and> key = k")
  case True
  then obtain b where b: "map_of bs k = Some b" "expired l now b" "key = k" by blast
  then have "level_of l now (Some b) = burst l" using assms(2) [OF map_of_SomeD] by blast
  then show ?thesis using b by (simp add: reap1_def map_of_delete level_of_def)
next
  case False
  then show ?thesis by (auto simp: reap1_def map_of_delete split: option.splits)
qed

lemma fold_reap1:
  assumes "distinct (map fst bs)" and "\<And>k b. (k, b) \<in> set bs \<Longrightarrow> expired l now b \<Longrightarrow> level_of l now (Some b) = burst l"
  shows "set (fold (reap1 now l) ks bs) \<subseteq> set bs \<and> length (fold (reap1 now l) ks bs) \<le> length bs \<and>
    distinct (map fst (fold (reap1 now l) ks bs)) \<and>
    level_of l now (map_of (fold (reap1 now l) ks bs) key) = level_of l now (map_of bs key)"
  using assms
proof (induction ks arbitrary: bs)
  case (Cons k ks)
  let ?bs = "reap1 now l k bs"
  have sub: "set ?bs \<subseteq> set bs" "length ?bs \<le> length bs" "distinct (map fst ?bs)"
    using reap1_sub [where bs = bs] Cons.prems(1) by blast+
  have full: "(k', b) \<in> set ?bs \<Longrightarrow> expired l now b \<Longrightarrow> level_of l now (Some b) = burst l" for k' b
    using sub(1) Cons.prems(2) by blast
  show ?case
    using Cons.IH [OF sub(3) full] sub reap1_level [OF Cons.prems] by fastforce
qed simp

lemma reap_fold: "reap visited now l = l\<lparr>buckets := fold (reap1 now l) (take limiterReapSample visited) (buckets l)\<rparr>"
  by (simp add: reap_def reap1_def [abs_def])

text \<open>Eviction is invisible: no key's level changes, whichever buckets it visits.\<close>

lemma reap_level:
  assumes "limiter_ok now l"
  shows "level (reap visited now l) now key = level l now key"
    and "limiter_ok now (reap visited now l)" and "same_settings l (reap visited now l)"
proof -
  have d: "distinct (map fst (buckets l))" using assms by (simp add: limiter_ok_def)
  have full: "(k, b) \<in> set (buckets l) \<Longrightarrow> expired l now b \<Longrightarrow> level_of l now (Some b) = burst l" for k b
    by (rule expired_full [OF assms])
  note f = fold_reap1 [where ks = "take limiterReapSample visited", OF d full]
  have lv: "level_of (l\<lparr>buckets := x\<rparr>) t b = level_of l t b" for x t b
    by (cases b) (simp_all add: level_of_def)
  show "level (reap visited now l) now key = level l now key"
    using f by (simp add: level_def reap_fold lv)
  show "limiter_ok now (reap visited now l)"
    using assms f by (fastforce simp: limiter_ok_def reap_fold)
  show "same_settings l (reap visited now l)" by (simp add: same_settings_def reap_fold)
qed

section \<open>One request\<close>

definition has_room :: "string \<Rightarrow> rateLimiter \<Rightarrow> bool" where
  "has_room key l = (map_of (buckets l) key \<noteq> None \<or> length (buckets l) < maxBuckets l)"

lemma length_update: "length (AList.update k v bs) = (if k \<in> fst ` set bs then length bs else Suc (length bs))"
  by (induction bs) auto

lemma distinct_update: "distinct (map fst bs) \<Longrightarrow> distinct (map fst (AList.update k v bs))"
  by (rule AList.distinct_update)

lemma set_update_sub: "set (AList.update k v bs) \<subseteq> insert (k, v) (set bs)"
  by (induction bs) auto

lemma level_of_settings: "same_settings l l' \<Longrightarrow> level_of l' t b = level_of l t b"
  by (simp add: level_of_def same_settings_def split: option.splits)

text \<open>
  A request spends one token of its key's level when there is one and the key has a bucket or
  the map has room for it; it touches no other key.
\<close>

lemma allow_spec:
  assumes ok: "limiter_ok now l0" and run: "allow visited now key l0 = (r, l')"
  defines "l \<equiv> reap visited now l0"
  shows "r = (has_room key l \<and> 1 \<le> level l0 now key)"
    and "level l' now key = level l0 now key - (if r then 1 else 0)"
    and "k \<noteq> key \<Longrightarrow> level l' now k = level l0 now k"
    and "limiter_ok now l'" and "same_settings l0 l'"
proof -
  have l: "limiter_ok now l" "same_settings l0 l" "\<And>k. level l now k = level l0 now k"
    using reap_level [OF ok] by (auto simp: l_def)
  have b1: "1 \<le> burst l" using l(1) by (simp add: limiter_ok_def)
  have ok': "limiter_ok now (l\<lparr>buckets := AList.update key \<lparr>tokens = t, last_at = now\<rparr> (buckets l)\<rparr>)"
    if "0 \<le> t" "map_of (buckets l) key \<noteq> None \<or> length (buckets l) < maxBuckets l" for t
  proof -
    have "length (AList.update key \<lparr>tokens = t, last_at = now\<rparr> (buckets l)) \<le> maxBuckets l"
      using that(2) l(1) by (auto simp: length_update limiter_ok_def map_of_eq_None_iff)
    moreover have "\<forall>(k, b)\<in>set (AList.update key \<lparr>tokens = t, last_at = now\<rparr> (buckets l)).
        0 \<le> tokens b \<and> last_at b \<le> now"
      using set_update_sub [of key "\<lparr>tokens = t, last_at = now\<rparr>" "buckets l"] l(1) that(1)
      by (auto simp: limiter_ok_def)
    ultimately show ?thesis
      using l(1) by (simp add: limiter_ok_def distinct_update)
  qed
  have lv: "level (l\<lparr>buckets := AList.update key \<lparr>tokens = t, last_at = now\<rparr> (buckets l)\<rparr>) now k =
      (if k = key then min (burst l) t else level l now k)" for t k
    by (auto simp: level_def level_of_def AList.update_conv' seconds_of_def split: option.splits)
  have "r = (has_room key l \<and> 1 \<le> level l now key) \<and>
    level l' now key = level l now key - (if r then 1 else 0) \<and>
    (k \<noteq> key \<longrightarrow> level l' now k = level l now k) \<and> limiter_ok now l' \<and> same_settings l l'"
  proof (cases "map_of (buckets l) key")
    case None
    then have full: "level l now key = burst l" by (simp add: level_def level_of_def)
    show ?thesis
    proof (cases "length (buckets l) \<ge> maxBuckets l")
      case True
      then have "r = False" "l' = l" using run None by (simp_all add: allow_def l_def [symmetric] Let_def)
      then show ?thesis using None True l(1) by (simp add: has_room_def same_settings_def)
    next
      case False
      then have r: "r = True"
        and l': "l' = l\<lparr>buckets := AList.update key \<lparr>tokens = burst l - 1, last_at = now\<rparr> (buckets l)\<rparr>"
        using run None by (simp_all add: allow_def l_def [symmetric] Let_def)
      show ?thesis
        unfolding l' lv r using None False b1 full ok' [of "burst l - 1"]
        by (simp add: has_room_def same_settings_def)
    qed
  next
    case (Some b)
    let ?t = "min (burst l) (tokens b + seconds_of (now - last_at b) * refillPerSec l)"
    have level: "level l now key = ?t" using Some by (simp add: level_def level_of_def)
    have "(key, b) \<in> set (buckets l)" using Some by (rule map_of_SomeD)
    then have "0 \<le> tokens b" "last_at b \<le> now" "0 < refillPerSec l"
      using l(1) by (auto simp: limiter_ok_def)
    then have nonneg: "0 \<le> ?t" using b1 by simp
    show ?thesis
    proof (cases "?t < 1")
      case True
      then have r: "r = False"
        and l': "l' = l\<lparr>buckets := AList.update key \<lparr>tokens = ?t, last_at = now\<rparr> (buckets l)\<rparr>"
        using run Some by (simp_all add: allow_def l_def [symmetric] Let_def)
      show ?thesis
        unfolding l' lv r using True Some level ok' [OF nonneg] by (auto simp: same_settings_def min_less_iff_disj)
    next
      case False
      then have r: "r = True"
        and l': "l' = l\<lparr>buckets := AList.update key \<lparr>tokens = ?t - 1, last_at = now\<rparr> (buckets l)\<rparr>"
        using run Some by (simp_all add: allow_def l_def [symmetric] Let_def)
      have "0 \<le> ?t - 1" "min (burst l) (?t - 1) = ?t - 1" using False by linarith+
      then show ?thesis
        unfolding l' lv r using False Some level ok' [of "?t - 1"]
        by (simp add: has_room_def same_settings_def)
    qed
  qed
  then show "r = (has_room key l \<and> 1 \<le> level l0 now key)"
    "level l' now key = level l0 now key - (if r then 1 else 0)"
    "k \<noteq> key \<Longrightarrow> level l' now k = level l0 now k" "limiter_ok now l'" "same_settings l0 l'"
    using l by (auto simp: same_settings_def)
qed

text \<open>Between two requests a level grows by the refill, up to the burst.\<close>

lemma level_nonneg: "limiter_ok now l \<Longrightarrow> 0 \<le> level l now key"
  by (auto simp: level_def level_of_def limiter_ok_def dest!: map_of_SomeD
      intro!: add_nonneg_nonneg mult_nonneg_nonneg split: option.splits)

lemma level_regained:
  assumes "limiter_ok now l" "now \<le> t"
  shows "level l t key = min (burst l) (level l now key + seconds_of (t - now) * refillPerSec l)"
proof -
  have pos: "0 \<le> seconds_of (t - now) * refillPerSec l"
    using assms by (auto simp: limiter_ok_def intro!: mult_nonneg_nonneg)
  have split: "seconds_of (t - last_at b) = seconds_of (now - last_at b) + seconds_of (t - now)" for b
    by (simp add: seconds_of_add [symmetric])
  show ?thesis
    using pos by (auto simp: level_def level_of_def split distrib_right min_def split: option.splits)
qed

section \<open>Any traffic\<close>

abbreviation serve :: "(string list \<times> instant \<times> string) list \<Rightarrow> rateLimiter \<Rightarrow> bool list \<times> rateLimiter" where
  "serve \<equiv> serve_with allow"

text \<open>A limiter meets the contract of a meter, with its burst and its refill, as long as it works.\<close>

definition limiter_like :: "rateLimiter \<Rightarrow> instant \<Rightarrow> rateLimiter \<Rightarrow> bool" where
  "limiter_like l0 now l = (limiter_ok now l \<and> same_settings l0 l)"

interpretation limiter: meter allow level "\<lambda>visited now key l. has_room key (reap visited now l)"
    "limiter_like l0" "max 1 (burst l0)" "\<lambda>d. seconds_of d * max 0 (refillPerSec l0)"
  for l0 :: rateLimiter
proof
  fix now t :: instant and l l' :: rateLimiter and v :: "string list" and k k' :: string and r :: bool and d d' :: duration
  assume "limiter_like l0 now l"
  then have ok: "limiter_ok now l" and same: "same_settings l0 l" by (simp_all add: limiter_like_def)
  have set: "max 1 (burst l0) = burst l" "max 0 (refillPerSec l0) = refillPerSec l"
    using ok same by (auto simp: same_settings_def limiter_ok_def)
  show "limiter_like l0 t l" if "now \<le> t"
    using limiter_ok_later [OF ok that] same by (simp add: limiter_like_def)
  show "level l t k = min (max 1 (burst l0)) (level l now k + seconds_of (t - now) * max 0 (refillPerSec l0))"
    if "now \<le> t"
    unfolding set by (rule level_regained [OF ok that])
  show "0 \<le> level l now k \<and> level l now k \<le> max 1 (burst l0)"
    unfolding set using level_nonneg [OF ok] by (simp add: level_def level_of_def split: option.splits)
  assume run: "allow v now k l = (r, l')"
  note spec = allow_spec [OF ok run]
  show "r = (has_room k (reap v now l) \<and> 1 \<le> level l now k)" by (rule spec(1))
  show "level l' now k = level l now k - (if r then 1 else 0)" by (rule spec(2))
  show "k' \<noteq> k \<Longrightarrow> level l' now k' = level l now k'" by (rule spec(3))
  show "limiter_like l0 now l'"
    using spec(4,5) same by (simp add: limiter_like_def same_settings_def)
qed (simp_all add: seconds_of_add distrib_right)

lemma limiter_like_self: "limiter_ok now l \<Longrightarrow> limiter_like l now l"
  by (simp add: limiter_like_def same_settings_def)

lemma limiter_settings:
  "limiter_ok now l \<Longrightarrow> max 1 (burst l) = burst l" "limiter_ok now l \<Longrightarrow> max 0 (refillPerSec l) = refillPerSec l"
  by (simp_all add: limiter_ok_def)

lemma serve_keeps:
  assumes "limiter_ok now l" and "arrives now rs stop" and "serve rs l = (out, l')"
  shows "limiter_ok stop l'" "same_settings l l'" "length (buckets l') \<le> maxBuckets l"
  using limiter.serve_budget(2) [OF limiter_like_self [OF assms(1)] assms(2,3)]
  by (auto simp: limiter_like_def same_settings_def limiter_ok_def)

section \<open>The limiters the server builds\<close>

lemma limiter_ok_new:
  assumes "1 \<le> b" "0 < refill" "b \<le> seconds_of idle / seconds_of refill"
  shows "limiter_ok now (newRateLimiter b refill idle)"
  using assms by (simp add: limiter_ok_def newRateLimiter_def limiterMaxBuckets_def seconds_of_def)

lemma limiters_ok:
  "limiter_ok now (newRateLimiter writeRateBurst writeRateRefill limiterIdleTTL)"
  "limiter_ok now (newRateLimiter ogRateBurst ogRateRefill limiterIdleTTL)"
  "limiter_ok now newNetworkLimiter"
proof -
  show "limiter_ok now (newRateLimiter writeRateBurst writeRateRefill limiterIdleTTL)"
    "limiter_ok now (newRateLimiter ogRateBurst ogRateRefill limiterIdleTTL)"
    by (rule limiter_ok_new; simp add: writeRateBurst_def writeRateRefill_def ogRateBurst_def
        ogRateRefill_def limiterIdleTTL_def seconds_of_def)+
  have "limiter_ok now (newRateLimiter loginNetworkBurst loginNetworkRefill limiterIdleTTL)"
    by (rule limiter_ok_new; simp add: loginNetworkBurst_def loginNetworkRefill_def
        limiterIdleTTL_def seconds_of_def)
  then show "limiter_ok now newNetworkLimiter"
    by (simp add: newNetworkLimiter_def limiter_ok_def Let_def)
qed

section \<open>Properties\<close>

lemma limiter_rate_bound:
  assumes "limiter_ok now l" and "arrives now rs stop" and "serve rs l = (out, l')"
  shows "of_nat (allowed key rs out) \<le> burst l + seconds_of (stop - now) * refillPerSec l"
  using limiter.meter_rate_bound [OF limiter_like_self [OF assms(1)] assms(2,3), of key]
  unfolding limiter_settings [OF assms(1)] .

text \<open>C31: In any stretch of traffic, whatever the other keys do and whichever buckets eviction visits,
  a key is allowed at most its burst plus one request per refill interval of the stretch, and the
  map of buckets never outgrows its ceiling.\<close>

theorem rate_bound:
  assumes "limiter_ok now l" and "arrives now rs stop" and "serve rs l = (out, l')"
  shows "of_nat (allowed key rs out) \<le> burst l + seconds_of (stop - now) * refillPerSec l \<and>
    length (buckets l') \<le> maxBuckets l"
  using limiter_rate_bound [OF assms] serve_keeps(3) [OF assms] by blast

definition demo_limiter :: rateLimiter where
  "demo_limiter = \<lparr>limiter_key = clientIP, refillPerSec = 1 / 2, burst = 2, idleTTL = 10000000,
     maxBuckets = 3, buckets = []\<rparr>"

definition demo_traffic :: "(string list \<times> instant \<times> string) list" where
  "demo_traffic = [([], 0, ''a''), ([], 0, ''a''), ([''a''], 0, ''a''), ([], 0, ''b''),
     ([''a''], 2000000, ''a''), ([''a''], 2000000, ''a'')]"

lemma demo_limiter_ok: "limiter_ok t demo_limiter"
  by (simp add: limiter_ok_def demo_limiter_def seconds_of_def)

lemma demo_served: "fst (serve demo_traffic demo_limiter) = [True, True, False, True, True, False]"
  by code_simp

lemma demo_arrives: "arrives 0 demo_traffic 2000000"
  by (simp add: demo_traffic_def)

lemma rate_bound_witness:
  "of_nat (allowed ''a'' demo_traffic [True, True, False, True, True, False]) \<le>
     burst demo_limiter + seconds_of 2000000 * refillPerSec demo_limiter"
proof -
  have "serve demo_traffic demo_limiter =
      ([True, True, False, True, True, False], snd (serve demo_traffic demo_limiter))"
    using demo_served by (metis prod.collapse)
  from rate_bound [OF demo_limiter_ok demo_arrives this, of "''a''"] show ?thesis by simp
qed

text \<open>The limiter without a map: a level for every key, spent one at a time.\<close>

definition spend :: "string \<Rightarrow> (string \<Rightarrow> rat) \<Rightarrow> bool \<times> (string \<Rightarrow> rat)" where
  "spend key f = (if 1 \<le> f key then (True, f(key := f key - 1)) else (False, f))"

text \<open>C32: The limiter's buckets refine a level per key: a request that has a bucket, or room for one,
  is decided by its key's level alone and spends from that level alone.  Which buckets exist and
  which of them eviction drops is invisible.\<close>

theorem allow_refines:
  assumes "limiter_ok now l" and "allow visited now key l = (r, l')"
    and "has_room key (reap visited now l)"
  shows "(r, level l' now) = spend key (level l now) \<and> limiter_ok now l'"
proof -
  have "level l' now k = (if k = key \<and> r then level l now key - 1 else level l now k)" for k
    using allow_spec(2,3) [OF assms(1,2)] by (cases "k = key") auto
  then have "level l' now = (if r then (level l now)(key := level l now key - 1) else level l now)"
    by (auto simp: fun_eq_iff)
  moreover have "r = (1 \<le> level l now key)"
    using allow_spec(1) [OF assms(1,2)] assms(3) by blast
  ultimately show ?thesis
    using allow_spec(4) [OF assms(1,2)] by (simp add: spend_def)
qed

lemma allow_refines_witness:
  "level (snd (allow [''z''] 5 ''a'' demo_limiter)) 5 = snd (spend ''a'' (level demo_limiter 5))"
proof -
  have "has_room ''a'' (reap [''z''] 5 demo_limiter)"
    by (simp add: has_room_def demo_limiter_def reap_def limiterReapSample_def)
  moreover have "allow [''z''] 5 ''a'' demo_limiter =
      (fst (allow [''z''] 5 ''a'' demo_limiter), snd (allow [''z''] 5 ''a'' demo_limiter))"
    by simp
  ultimately show ?thesis
    using allow_refines [OF demo_limiter_ok] by (metis snd_conv)
qed

text \<open>A client that waits is served: whatever the other keys do meanwhile and whatever its past, a
  key that has sent nothing for one refill interval is allowed its next request, as long as it has
  a bucket or the map has room for one.\<close>

theorem patient_client_served:
  assumes "limiter_ok now l" and "arrives now rs t" and "key \<notin> (snd \<circ> snd) ` set rs"
    and "serve rs l = (out, l')" and "1 \<le> seconds_of (t - now) * refillPerSec l"
    and "has_room key (reap visited t l')"
  shows "\<exists>l''. allow visited t key l' = (True, l'')"
  using limiter.waiting_served [OF limiter_like_self [OF assms(1)] assms(2-4) _ assms(6)] assms(5)
  unfolding limiter_settings [OF assms(1)] by blast

definition demo_burst :: "(string list \<times> instant \<times> string) list" where
  "demo_burst = [([], 0, ''a''), ([], 0, ''a''), ([], 0, ''a'')]"

definition demo_others :: "(string list \<times> instant \<times> string) list" where
  "demo_others = [([], 1000000, ''b''), ([''a''], 1500000, ''b'')]"

lemma demo_burst_served: "fst (serve demo_burst demo_limiter) = [True, True, False]"
  by code_simp

lemma demo_room:
  "has_room ''a'' (reap [''a''] 2000000 (snd (serve demo_others (snd (serve demo_burst demo_limiter)))))"
  by code_simp

lemma patient_client_served_witness:
  "\<exists>l''. allow [''a''] 2000000 ''a'' (snd (serve demo_others (snd (serve demo_burst demo_limiter)))) =
     (True, l'')"
proof -
  let ?l = "snd (serve demo_burst demo_limiter)"
  have burst: "serve demo_burst demo_limiter = ([True, True, False], ?l)"
    using demo_burst_served by (metis prod.collapse)
  have arr: "arrives 0 demo_burst 0" by (simp add: demo_burst_def)
  note kept = serve_keeps(1,2) [OF demo_limiter_ok arr burst]
  have "serve demo_others ?l = (fst (serve demo_others ?l), snd (serve demo_others ?l))" by simp
  moreover have "arrives 0 demo_others 2000000" "''a'' \<notin> (snd \<circ> snd) ` set demo_others"
    by (simp_all add: demo_others_def)
  moreover have "1 \<le> seconds_of (2000000 - 0) * refillPerSec ?l"
    using kept(2) by (simp add: same_settings_def demo_limiter_def seconds_of_def)
  ultimately show ?thesis
    by (intro patient_client_served [OF kept(1)] demo_room)
qed

text \<open>
  Requests that reach the server from an address block without passing the local proxy, whatever
  they put in their headers.
\<close>

definition direct_from :: "nat \<Rightarrow> netip \<Rightarrow> request \<Rightarrow> bool" where
  "direct_from n a r = (case SplitHostPort (RemoteAddr r) of
     None \<Rightarrow> False
   | Some (host, _) \<Rightarrow> (case ParseAddr host of
       None \<Rightarrow> False | Some b \<Rightarrow> \<not> IsLoopback b \<and> same_block n a b))"

definition charged :: "rateLimiter \<Rightarrow> (string list \<times> instant \<times> request) list \<Rightarrow>
    (string list \<times> instant \<times> string) list" where
  "charged l rs = map (\<lambda>(visited, t, r). (visited, t, limiter_key l r)) rs"

lemma direct_key:
  assumes "direct_from n a r" and "direct_from n a r'"
  shows "n = 64 \<Longrightarrow> clientIP r = clientIP r'" and "n = 48 \<Longrightarrow> clientNetwork48 r = clientNetwork48 r'"
proof -
  obtain h p b where b: "SplitHostPort (RemoteAddr r) = Some (h, p)" "ParseAddr h = Some b"
      "\<not> IsLoopback b" "same_block n a b"
    using assms(1) by (auto simp: direct_from_def split: option.splits)
  obtain h' p' b' where b': "SplitHostPort (RemoteAddr r') = Some (h', p')" "ParseAddr h' = Some b'"
      "\<not> IsLoopback b'" "same_block n a b'"
    using assms(2) by (auto simp: direct_from_def split: option.splits)
  note addr = clientAddr_remote [OF b(1,2,3)] clientAddr_remote [OF b'(1,2,3)]
  show "n = 64 \<Longrightarrow> clientIP r = clientIP r'"
    using rateLimitKey_block [of a b] rateLimitKey_block [of a b'] b(4) b'(4)
    unfolding clientIP_def addr prod.case option.case by metis
  show "n = 48 \<Longrightarrow> clientNetwork48 r = clientNetwork48 r'"
    using same_block_prefix [of n a b] same_block_prefix [of n a b'] b(4) b'(4)
    unfolding clientNetwork48_def addr prod.case option.case by metis
qed

text \<open>A client outside the loopback interface has one budget however it varies its requests: all
  the requests coming straight from one IPv6 /64 (one /48 for the sign-in limiter) or one IPv4
  address, with any forwarding header, are together allowed one burst plus one request per refill
  interval.\<close>

theorem block_budget:
  assumes "limiter_ok now l"
    and "limiter_key l = clientIP \<and> n = 64 \<or> limiter_key l = clientNetwork48 \<and> n = 48"
    and "\<And>v t r. (v, t, r) \<in> set rs \<Longrightarrow> direct_from n a r"
    and "arrives now (charged l rs) stop" and "serve (charged l rs) l = (out, l')"
  shows "of_nat (length (filter (\<lambda>ok. ok) out)) \<le> burst l + seconds_of (stop - now) * refillPerSec l"
proof (cases rs)
  case Nil
  then show ?thesis
    using assms(1,4,5) limiter_rate_bound [OF assms(1,4,5)] by (simp add: charged_def allowed_def)
next
  case (Cons q rs')
  obtain v0 t0 r0 where q: "q = (v0, t0, r0)" by (cases q)
  have r0: "direct_from n a r0" using assms(3) Cons q by auto
  have key: "limiter_key l r = limiter_key l r0" if "direct_from n a r" for r
    using assms(2) direct_key [OF that r0] by auto
  have "k = limiter_key l r0" if "(v, t, k) \<in> set (charged l rs)" for v t k
    using that assms(3) key by (auto simp: charged_def)
  then have "allowed (limiter_key l r0) (charged l rs) out = length (filter (\<lambda>ok. ok) out)"
    using length_serve [OF assms(5)] by (intro allowed_one_key) auto
  then show ?thesis
    using limiter_rate_bound [OF assms(1,4,5), of "limiter_key l r0"] by simp
qed


definition demo_request :: "string \<Rightarrow> string \<Rightarrow> request" where
  "demo_request peer forwarded = blank_request\<lparr>RemoteAddr := peer,
     ReqHeaders := [(''CF-Connecting-IP'', forwarded)]\<rparr>"

definition demo_flood :: "(string list \<times> instant \<times> request) list" where
  "demo_flood =
     [([], 0, demo_request ''[2001:db8:0:1::a]:4000'' ''1.1.1.1''),
      ([], 0, demo_request ''[2001:db8:0:1::b]:4000'' ''2.2.2.2''),
      ([], 0, demo_request ''[2001:db8:0:1::c]:4000'' ''3.3.3.3'')]"

lemma demo_flood_keys:
  "charged demo_limiter demo_flood =
     map (\<lambda>_. ([], 0, ''2001:db8:0:1::/64'')) demo_flood"
  by code_simp

lemma demo_flood_direct:
  "list_all (\<lambda>(v, t, r). direct_from 64 (V6 (groups_word [0x2001, 0xdb8, 0, 1, 0, 0, 0, 0]) []) r) demo_flood"
  by code_simp

lemma demo_flood_served:
  "fst (serve (charged demo_limiter demo_flood) demo_limiter) = [True, True, False]"
  by code_simp

lemma block_budget_witness:
  "of_nat (length (filter (\<lambda>ok. ok) [True, True, False])) \<le>
     burst demo_limiter + seconds_of 0 * refillPerSec demo_limiter"
proof -
  let ?a = "V6 (groups_word [0x2001, 0xdb8, 0, 1, 0, 0, 0, 0]) []"
  have "serve (charged demo_limiter demo_flood) demo_limiter =
      ([True, True, False], snd (serve (charged demo_limiter demo_flood) demo_limiter))"
    using demo_flood_served by (metis prod.collapse)
  moreover have "direct_from 64 ?a r" if "(v, t, r) \<in> set demo_flood" for v t r
    using demo_flood_direct that by (auto simp: list_all_iff)
  moreover have "arrives 0 (charged demo_limiter demo_flood) 0"
    unfolding demo_flood_keys by (simp add: demo_flood_def)
  moreover have "limiter_key demo_limiter = clientIP \<and> (64::nat) = 64 \<or>
      limiter_key demo_limiter = clientNetwork48 \<and> (64::nat) = 48"
    by (simp add: demo_limiter_def)
  ultimately have "of_nat (length (filter (\<lambda>ok. ok) [True, True, False])) \<le>
      burst demo_limiter + seconds_of (0 - 0) * refillPerSec demo_limiter"
    by (intro block_budget [OF demo_limiter_ok, where n = 64 and rs = demo_flood]) blast+
  then show ?thesis by simp
qed

end
