(* ===== verification/Middleware.thy ===== *)
theory Middleware
  imports RateLimit Outside
begin

text \<open>
  \<open>internal/web/middleware.go\<close>, the limiter as middleware, and the standard library's
  cross-origin check.  The server's own state joins the world here: its clock and its three
  limiters, with the buckets the next evictions will visit.
\<close>

section \<open>Composition\<close>

definition Chain :: "'h \<Rightarrow> ('h \<Rightarrow> 'h) list \<Rightarrow> 'h" where
  "Chain h middlewares = foldr (\<lambda>m h. m h) middlewares h"

text \<open>\<open>hex.EncodeToString\<close> of the random bytes of a request's identifier.\<close>

definition hex_bytes :: "string \<Rightarrow> string" where
  "hex_bytes bs = concat (map (\<lambda>c. [hex_digit (code c div 16), hex_digit (code c mod 16)]) bs)"

definition RequestID :: "bytes \<Rightarrow> 'z web_handler \<Rightarrow> 'z web_handler" where
  "RequestID buf nxt r w = nxt (r\<lparr>CtxRequestID := hex_bytes buf\<rparr>) w"

section \<open>What is logged\<close>

definition redactedPath :: "string \<Rightarrow> string" where
  "redactedPath path0 =
     (let path = remove_byte CR (remove_byte LF path0) in
      case cut_prefix path ''/login/'' of
        None \<Rightarrow> path
      | Some rest \<Rightarrow>
          if rest = [] then path
          else (case cut_at (CHR ''/'') rest of
              Some (token, remainder) \<Rightarrow>
                if token = [] then path else ''/login/'' @ ''{token}/'' @ remainder
            | None \<Rightarrow> ''/login/'' @ ''{token}''))"

record log_line =
  ll_RequestID :: string
  ll_Method :: string
  ll_Host :: string
  ll_Path :: string
  ll_Status :: int

text \<open>
  \<open>RequestLogger\<close> with its \<open>statusRecorder\<close>: the line for a finished request.  A handler that
  never wrote a status has answered 200.  The numbers of bytes and microseconds are left out.
\<close>

definition RequestLogger_line :: "request \<Rightarrow> response \<Rightarrow> log_line" where
  "RequestLogger_line r resp =
     \<lparr>ll_RequestID = RequestIDFrom r, ll_Method = Method r, ll_Host = Host r,
      ll_Path = redactedPath (Path r),
      ll_Status = (if Status resp = 0 then 200 else Status resp)\<rparr>"

section \<open>Headers\<close>

definition PrivateCache :: "'z web_handler \<Rightarrow> 'z web_handler" where
  "PrivateCache nxt r w =
     nxt r (add_header ''Vary'' ''Cookie'' (set_header ''Cache-Control'' ''private, no-store'' w))"

definition SecurityHeaders :: "bool \<Rightarrow> 'z web_handler \<Rightarrow> 'z web_handler" where
  "SecurityHeaders production nxt r w =
     (let h = set_header ''Permissions-Policy'' ''camera=(), microphone=(), geolocation=(), interest-cohort=()''
            (set_header ''Cross-Origin-Resource-Policy'' ''same-site''
              (set_header ''Cross-Origin-Opener-Policy'' ''same-origin''
                (set_header ''Referrer-Policy'' ''strict-origin-when-cross-origin''
                  (set_header ''X-Content-Type-Options'' ''nosniff'' w))));
          h1 = (if production
            then set_header ''Strict-Transport-Security'' ''max-age=31536000; includeSubDomains; preload'' h
            else h)
      in nxt r h1)"

definition sq :: "string \<Rightarrow> string" where "sq s = [CHR 0x27] @ s @ [CHR 0x27]"

definition appCSP :: string where
  "appCSP = ''default-src '' @ sq ''none'' @ ''; '' @ ''script-src '' @ sq ''self'' @ ''; '' @
     ''style-src '' @ sq ''self'' @ ''; '' @ ''img-src '' @ sq ''self'' @ '' data:; '' @
     ''font-src '' @ sq ''self'' @ ''; '' @ ''connect-src '' @ sq ''self'' @ ''; '' @
     ''form-action '' @ sq ''self'' @ ''; '' @ ''base-uri '' @ sq ''none'' @ ''; '' @
     ''frame-ancestors '' @ sq ''none''"

definition pagesCSP :: string where
  "pagesCSP = ''default-src '' @ sq ''none'' @ ''; '' @ ''style-src '' @ sq ''self'' @ ''; '' @
     ''img-src '' @ sq ''self'' @ '' https: data:; '' @ ''font-src '' @ sq ''self'' @ ''; '' @
     ''form-action '' @ sq ''self'' @ ''; '' @ ''base-uri '' @ sq ''none'' @ ''; '' @
     ''frame-ancestors '' @ sq ''none'' @ ''; '' @ ''sandbox allow-forms allow-same-origin''"

definition csp :: "string \<Rightarrow> 'z web_handler \<Rightarrow> 'z web_handler" where
  "csp policy nxt r w = nxt r (set_header ''Content-Security-Policy'' policy w)"

definition AppCSP :: "'z web_handler \<Rightarrow> 'z web_handler" where
  "AppCSP nxt = csp appCSP nxt"

definition PagesCSP :: "'z web_handler \<Rightarrow> 'z web_handler" where
  "PagesCSP nxt = csp pagesCSP nxt"

section \<open>Refusals\<close>

definition maxFormBody :: int where "maxFormBody = 4096"
definition photoUploadPath :: string where "photoUploadPath = ''/photo''"

definition BodyLimit :: "'z web_handler \<Rightarrow> 'z web_handler" where
  "BodyLimit nxt r w =
     (if Method r = ''POST'' \<and> Path r = photoUploadPath then nxt r w
      else if HasBody r then
        (if ContentLength r > maxFormBody then answer (http_Error ''request body too large'' 413 w)
         else nxt (r\<lparr>BodyCap := Some maxFormBody\<rparr>) w)
      else nxt r w)"

text \<open>
  \<open>http.CrossOriginProtection\<close> as the server sets it up: no exemptions, and a deny handler that
  says nothing.
\<close>

definition cross_origin :: "lib \<Rightarrow> request \<Rightarrow> bool" where
  "cross_origin lib r =
     (if Method r \<in> {''GET'', ''HEAD'', ''OPTIONS''} then False
      else let site = req_header r ''Sec-Fetch-Site'' in
        if site = ''same-origin'' \<or> site = ''none'' then False
        else if site \<noteq> [] then True
        else let origin = req_header r ''Origin'' in
          if origin = [] then False
          else l_origin_host lib origin \<noteq> Some (Host r))"

definition CrossOrigin :: "lib \<Rightarrow> 'z web_handler \<Rightarrow> 'z web_handler" where
  "CrossOrigin lib nxt r w =
     (if cross_origin lib r then answer (http_Error ''forbidden'' 403 w) else nxt r w)"

section \<open>The limiters\<close>

record site = web +
  s_clock :: instant
  s_visits :: "string list list"
  s_writes :: rateLimiter
  s_logins48 :: rateLimiter
  s_reads :: rateLimiter
  s_log :: "log_line list"

datatype which = Writes | Logins48 | Reads

definition limiter_of :: "which \<Rightarrow> 'z site_scheme \<Rightarrow> rateLimiter" where
  "limiter_of x s = (case x of Writes \<Rightarrow> s_writes s | Logins48 \<Rightarrow> s_logins48 s | Reads \<Rightarrow> s_reads s)"

definition put_limiter :: "which \<Rightarrow> rateLimiter \<Rightarrow> 'z site_scheme \<Rightarrow> 'z site_scheme" where
  "put_limiter x l s = (case x of Writes \<Rightarrow> s\<lparr>s_writes := l\<rparr> | Logins48 \<Rightarrow> s\<lparr>s_logins48 := l\<rparr>
     | Reads \<Rightarrow> s\<lparr>s_reads := l\<rparr>)"

type_synonym ('z, 'r) site_prog = "('z site_scheme, 'r) state"
type_synonym 'z site_handler = "request \<Rightarrow> writer \<Rightarrow> ('z, response) site_prog"

definition take_token :: "which \<Rightarrow> request \<Rightarrow> ('z, bool) site_prog" where
  "take_token x r = State (\<lambda>s.
     let l = limiter_of x s; visited = (case s_visits s of [] \<Rightarrow> [] | v # _ \<Rightarrow> v) in
     case allow visited (s_clock s) (limiter_key l r) l of
       (ok, l') \<Rightarrow> (ok, (put_limiter x l' s)\<lparr>s_visits := tl (s_visits s)\<rparr>))"

definition rateLimit :: "which \<Rightarrow> 'z site_handler \<Rightarrow> 'z site_handler" where
  "rateLimit x nxt r w = do {
     ok \<leftarrow> take_token x r;
     if \<not> ok then answer (http_Error ''rate limited'' 429 w) else nxt r w
   }"

lemma keeps_take_token [keeps_intros]: "keeps I (take_token x r)"
  by (rule keepsI) (simp add: take_token_def Let_def put_limiter_def split: prod.splits which.splits)

lemma keeps_rateLimit [keeps_intros]: "keeps I (nxt r w) \<Longrightarrow> keeps I (rateLimit x nxt r w)"
  unfolding rateLimit_def by (intro keeps_intros)

text \<open>The request logger writes its line once the request is served.\<close>

definition RequestLogger :: "'z site_handler \<Rightarrow> 'z site_handler" where
  "RequestLogger nxt r w = do {
     resp \<leftarrow> nxt r w;
     State (\<lambda>s. (resp, s\<lparr>s_log := s_log s @ [RequestLogger_line r resp]\<rparr>))
   }"

lemma run_RequestLogger [run_simps]:
  "run_state (RequestLogger nxt r w) s = (case run_state (nxt r w) s of (resp, s') \<Rightarrow>
     (resp, s'\<lparr>s_log := s_log s' @ [RequestLogger_line r resp]\<rparr>))"
  by (simp add: RequestLogger_def split: prod.splits)

text \<open>The token is spent before the request is served, and only the limiter's state is touched.\<close>

lemma run_take_token:
  assumes "run_state (take_token x r) s = (ok, s')"
  shows "c_db s' = c_db s" "w_sent s' = w_sent s" "w_files s' = w_files s" "s_clock s' = s_clock s"
    and "\<exists>visited. allow visited (s_clock s) (limiter_key (limiter_of x s) r) (limiter_of x s) = (ok, limiter_of x s')"
    and "y \<noteq> x \<Longrightarrow> limiter_of y s' = limiter_of y s"
  using assms
  by (auto simp: take_token_def Let_def put_limiter_def limiter_of_def split: prod.splits which.splits)

section \<open>Properties\<close>

lemma remove_byte_id: "c \<notin> set s \<Longrightarrow> remove_byte c s = s"
  by (simp add: remove_byte_def filter_id_conv) (metis)

lemma remove_byte_append [simp]: "remove_byte c (s @ t) = remove_byte c s @ remove_byte c t"
  by (simp add: remove_byte_def)

lemma cut_at_here: "c \<notin> set a \<Longrightarrow> cut_at c (a @ c # b) = Some (a, b)"
  by (simp add: cut_at_Some)

lemma cut_login: "cut_prefix (''/login/'' @ t) ''/login/'' = Some t"
  by (simp only: cut_prefix_Some)

definition after_token :: "string \<Rightarrow> bool" where
  "after_token rest = (rest = [] \<or> take 1 rest = ''/'')"

text \<open>C34: The request log never tells which link was followed: the logged path is the same whatever
  token follows \<open>/login/\<close>, with or without anything after the token, and no logged path holds a line
  break.\<close>

theorem logged_path_hides_token:
  assumes "after_token rest" and "t1 \<noteq> []" "t2 \<noteq> []"
    and "set t1 \<inter> {CHR ''/'', CR, LF} = {}" "set t2 \<inter> {CHR ''/'', CR, LF} = {}"
  shows "ll_Path (RequestLogger_line (r\<lparr>Path := ''/login/'' @ t1 @ rest\<rparr>) resp) =
      ll_Path (RequestLogger_line (r\<lparr>Path := ''/login/'' @ t2 @ rest\<rparr>) resp) \<and>
    CR \<notin> set (ll_Path (RequestLogger_line r resp)) \<and> LF \<notin> set (ll_Path (RequestLogger_line r resp))"
proof -
  define clean where "clean = remove_byte CR (remove_byte LF rest)"
  have path: "redactedPath (''/login/'' @ t @ rest) = ''/login/'' @ ''{token}'' @ clean"
    if "t \<noteq> []" "set t \<inter> {CHR ''/'', CR, LF} = {}" for t
  proof -
    have "remove_byte CR (remove_byte LF (''/login/'' @ t @ rest)) = ''/login/'' @ t @ clean"
    proof -
      have "remove_byte LF t = t" "remove_byte CR t = t"
        using that(2) by (auto intro!: remove_byte_id)
      moreover have "remove_byte CR (remove_byte LF ''/login/'') = ''/login/''"
        by (simp add: remove_byte_def)
      ultimately show ?thesis by (simp only: remove_byte_append clean_def)
    qed
    then have path: "redactedPath (''/login/'' @ t @ rest) = (case cut_at (CHR ''/'') (t @ clean) of
        Some (token, remainder) \<Rightarrow> if token = [] then ''/login/'' @ t @ clean
          else ''/login/'' @ ''{token}/'' @ remainder
      | None \<Rightarrow> ''/login/'' @ ''{token}'')"
      using that(1) unfolding redactedPath_def Let_def
      by (simp only: cut_login option.case append_is_Nil_conv if_False simp_thms)
    consider "clean = []" | more where "clean = CHR ''/'' # more"
      using assms(1) unfolding after_token_def clean_def
      by (cases rest) (auto simp: remove_byte_def)
    then show ?thesis
    proof cases
      case 1
      have "cut_at (CHR ''/'') t = None" using that(2) by (simp add: cut_at_None)
      with 1 show ?thesis unfolding path by simp
    next
      case 2
      then have "cut_at (CHR ''/'') (t @ clean) = Some (t, more)"
        using that(2) by (simp add: cut_at_here)
      then show ?thesis using that(1) unfolding path by (simp add: 2)
    qed
  qed
  have sub: "set (redactedPath p) \<subseteq> set (remove_byte CR (remove_byte LF p)) \<union> set ''/login/{token}/''" for p
    by (auto simp: redactedPath_def Let_def cut_prefix_Some cut_at_Some split: option.splits if_splits)
  have "CR \<notin> set (redactedPath p) \<and> LF \<notin> set (redactedPath p)" for p
    using sub [of p] by (auto simp: remove_byte_def)
  then show ?thesis
    using path [OF assms(2,4)] path [OF assms(3,5)] by (simp add: RequestLogger_line_def)
qed

lemma logged_path_hides_token_witness:
  "ll_Path (RequestLogger_line (blank_request\<lparr>Path := ''/login/'' @ ''AAAA'' @ ''/x''\<rparr>) (http_NotFound new_writer)) =
   ll_Path (RequestLogger_line (blank_request\<lparr>Path := ''/login/'' @ ''BB'' @ ''/x''\<rparr>) (http_NotFound new_writer))"
  using logged_path_hides_token [of "''/x''" "''AAAA''" "''BB''" blank_request "http_NotFound new_writer"]
  by (simp add: after_token_def)

text \<open>
  A token that an empty segment separates from \<open>/login/\<close> does not lead the remainder, and is
  logged as it came.
\<close>

lemma token_after_empty_segment_logged: "redactedPath (''/login//'' @ t) =
    ''/login//'' @ remove_byte CR (remove_byte LF t)"
proof -
  have "remove_byte CR (remove_byte LF (''/login//'' @ t)) =
      ''/login/'' @ CHR ''/'' # remove_byte CR (remove_byte LF t)"
    by (simp add: remove_byte_def)
  then show ?thesis
    using cut_at_here [of "CHR ''/''" "[]"] by (simp add: redactedPath_def cut_prefix_def Let_def)
qed

end
