(* ===== verification/Page.thy ===== *)
theory Page
  imports Middleware Owner
begin

text \<open>
  \<open>internal/web/page.go\<close> and \<open>og.go\<close>: the public page of a handle, its stylesheets and fonts, and
  its preview image.  The embedded files and the rasteriser of \<open>internal/ogcard\<close> are arguments.
\<close>

section \<open>Embedded files\<close>

record Card =
  cd_Handle :: string
  cd_Name :: string
  cd_MoodClass :: string
  cd_MoodLabel :: string
  cd_MoodNote :: string

record assets =
  themeCSS :: string
  appCSS :: string
  previewCSS :: string
  fontFiles :: "(string \<times> string) list"
  ogRender :: "Card \<Rightarrow> string option"

section \<open>The page\<close>

definition EmptyStateText :: string where
  "EmptyStateText = ''Todav'' @ i_ac @ ''a no eligi'' @ o_ac @ '' un estado de '' @ a_ac @ ''nimo.''"

definition initialOf :: "(nat \<Rightarrow> nat) \<Rightarrow> string \<Rightarrow> string" where
  "initialOf upper s = (case runes s of [] \<Rightarrow> [] | r # _ \<Rightarrow> encode_rune (upper r))"

text \<open>\<open>UpdatedAt.UnixMicro()\<close>; the zero time is the first day of year 1.\<close>

definition unix_micro :: "instant option \<Rightarrow> int" where
  "unix_micro t = (case t of None \<Rightarrow> - 62135596800 * second | Some t \<Rightarrow> t)"

definition page_account :: "lib \<Rightarrow> Config \<Rightarrow> User \<Rightarrow> Style \<Rightarrow> pageData" where
  "page_account lib cfg u st =
     (let base = PageBaseURL cfg (Handle u) in
      \<lparr>pd_Handle = Handle u, pd_Name = ShownName u, pd_Initial = initialOf (l_upper lib) (ShownName u),
       pd_Address = PageHostFor (PagesHost cfg) (Handle u), pd_HasMood = False, pd_MoodClass = ''none'',
       pd_MoodLabel = [], pd_MoodNote = [], pd_OGURL = base @ ''/'', pd_OGImageURL = base @ ''/og.png'',
       pd_OGDescription = EmptyStateText, pd_Guestbook = [],
       pd_SignURL = BaseURL cfg @ ''/sign/'' @ Handle u, pd_RandomURL = BaseURL cfg @ ''/random'',
       pd_AppURL = BaseURL cfg @ ''/'', pd_PrivacyURL = BaseURL cfg @ ''/privacy'',
       pd_TermsURL = BaseURL cfg @ ''/terms'',
       pd_PhotoURL = (if PhotoKey u \<noteq> [] then photoURL (PhotoKey u) else []),
       pd_PhotoWidth = (if PhotoKey u \<noteq> [] then PhotoWidth u else 0),
       pd_PhotoHeight = (if PhotoKey u \<noteq> [] then PhotoHeight u else 0),
       pd_OwnMoodBox = OwnMoodBox st,
       pd_StyleVersion = (if CSS st \<noteq> [] then unix_micro (UpdatedAt st) else 0),
       pd_Preview = False, pd_PreviewCSSURL = [], pd_PreviewFields = []\<rparr>)"

definition page_mood :: "Mood \<Rightarrow> pageData \<Rightarrow> pageData" where
  "page_mood m data = data\<lparr>pd_HasMood := True, pd_MoodClass := md_Key m, pd_MoodLabel := Label (md_Key m),
     pd_MoodNote := md_Note m,
     pd_OGDescription := (if md_Note m \<noteq> [] then Label (md_Key m) @ '': '' @ md_Note m else Label (md_Key m))\<rparr>"

definition page_entry :: "Config \<Rightarrow> Entry \<Rightarrow> guestbookEntryView" where
  "page_entry cfg e = \<lparr>ge_AuthorHandle = e_AuthorHandle e, ge_AuthorURL = PageBaseURL cfg (e_AuthorHandle e) @ ''/'',
     ge_Date = guestbook_date (e_CreatedAt e), ge_Body = e_Body e\<rparr>"

definition page_guestbook :: "Config \<Rightarrow> User \<Rightarrow> pageData \<Rightarrow> ('z, mood_err + pageData) prog" where
  "page_guestbook cfg u data = do {
     r \<leftarrow> Visible (ID u) PageLimit;
     State_Monad.return (Inr (data\<lparr>pd_Guestbook :=
       (case r of Inl _ \<Rightarrow> [] | Inr entries \<Rightarrow> map (page_entry cfg) entries)\<rparr>))
   }"

definition pageFor :: "lib \<Rightarrow> Config \<Rightarrow> User \<Rightarrow> Style \<Rightarrow> ('z, mood_err + pageData) prog" where
  "pageFor lib cfg u st = do {
     r \<leftarrow> CurrentMood (ID u);
     (let data = page_account lib cfg u st in
      case r of
        Inr m \<Rightarrow> page_guestbook cfg u (page_mood m data)
      | Inl err \<Rightarrow> if err = ErrNoMood then page_guestbook cfg u data else State_Monad.return (Inl err))
   }"

text \<open>The handlers of the pages surface open by resolving the handle of the host name.\<close>

definition page_owner :: "lib \<Rightarrow> request \<Rightarrow> writer \<Rightarrow> (User \<Rightarrow> ('z, response) prog) \<Rightarrow> ('z, response) prog" where
  "page_owner lib r w k = (case HandleFrom r of
     None \<Rightarrow> answer (http_NotFound w)
   | Some handle \<Rightarrow> on_result (GetByHandle (l_fold lib) handle)
       (\<lambda>err. if err = ErrUserNotFound then answer (http_NotFound w) else answer (internal_error w)) k)"

definition handlePage :: "lib \<Rightarrow> Config \<Rightarrow> 'z handler" where
  "handlePage lib cfg r w = page_owner lib r w (\<lambda>u. do {
     s \<leftarrow> GetStyle (ID u);
     on_result (pageFor lib cfg u (case s of Inl _ \<Rightarrow> zero_style | Inr st \<Rightarrow> st))
       (\<lambda>_. answer (internal_error w)) (\<lambda>data. answer (renderTemplate 200 (PublicPage data) w))
   })"

section \<open>Stylesheets and fonts\<close>

definition immutable :: string where "immutable = ''public, max-age=31536000, immutable''"

definition css_headers :: "string \<Rightarrow> writer \<Rightarrow> writer" where
  "css_headers cache w = set_header ''Cache-Control'' cache (set_header ''Content-Type'' ''text/css; charset=utf-8'' w)"

definition handleStyleCSS :: "lib \<Rightarrow> 'z handler" where
  "handleStyleCSS lib r w = page_owner lib r w (\<lambda>u.
     on_result (GetStyle (ID u)) (\<lambda>_. answer (internal_error w)) (\<lambda>st.
       let css = CSS st in
       if css = [] then answer (http_NotFound w)
       else answer (respond 200 (Bytes css)
         (css_headers (if values_has (Query r) ''v'' then immutable else ''no-cache'') w))))"

definition handleTheme :: "assets \<Rightarrow> 'z handler" where
  "handleTheme as r w = answer (respond 200 (Bytes (themeCSS as)) (css_headers ''public, max-age=3600'' w))"

definition handleAppCSS :: "assets \<Rightarrow> 'z handler" where
  "handleAppCSS as r w = answer (respond 200 (Bytes (appCSS as)) (css_headers ''public, max-age=3600'' w))"

definition handlePreviewCSS :: "assets \<Rightarrow> 'z handler" where
  "handlePreviewCSS as r w = answer (respond 200 (Bytes (previewCSS as)) (css_headers ''public, max-age=3600'' w))"

definition handleFont :: "assets \<Rightarrow> 'z handler" where
  "handleFont as r w = (case map_of (fontFiles as) (PathValue r ''file'') of
     None \<Rightarrow> answer (http_NotFound w)
   | Some data \<Rightarrow> answer (respond 200 (Bytes data)
       (set_header ''Cache-Control'' immutable (set_header ''Content-Type'' ''font/woff2'' w))))"

section \<open>The preview image\<close>

text \<open>\<open>updatedAt.UTC().Format(time.RFC3339Nano)\<close>: the fraction without its trailing zeros.\<close>

definition fraction :: "int \<Rightarrow> string" where
  "fraction us = (if us = 0 then [] else ''.'' @ rev (dropWhile (\<lambda>c. c = CHR ''0'') (rev (padded 6 us))))"

definition rfc3339 :: "int \<Rightarrow> string" where
  "rfc3339 t = (case civil (t div day) of (y, m, d) \<Rightarrow>
     let s = t mod day in
     padded 4 y @ ''-'' @ padded 2 m @ ''-'' @ padded 2 d @ ''T'' @ padded 2 (s div hour) @ '':'' @
     padded 2 (s mod hour div minute) @ '':'' @ padded 2 (s mod minute div second) @
     fraction (s mod second) @ ''Z'')"

definition NUL :: char where "NUL = CHR 0x00"

definition ogETag :: "(string \<Rightarrow> bytes) \<Rightarrow> string \<Rightarrow> string \<Rightarrow> string \<Rightarrow> string \<Rightarrow> instant option \<Rightarrow> string" where
  "ogETag sha handle name moodClass note updatedAt =
     [CHR 0x22] @ hex_bytes (take 16 (sha (handle @ [NUL] @ name @ [NUL] @ moodClass @ [NUL] @ note @ [NUL] @
       rfc3339 (unix_micro updatedAt)))) @ [CHR 0x22]"

definition og_card :: "User \<Rightarrow> Mood option \<Rightarrow> Card" where
  "og_card u m =
     (let card = \<lparr>cd_Handle = Handle u, cd_Name = DisplayName u, cd_MoodClass = ''none'', cd_MoodLabel = [],
            cd_MoodNote = []\<rparr>
      in case m of None \<Rightarrow> card
         | Some md \<Rightarrow> card\<lparr>cd_MoodClass := md_Key md, cd_MoodLabel := Label (md_Key md), cd_MoodNote := md_Note md\<rparr>)"

definition og_answer :: "lib \<Rightarrow> assets \<Rightarrow> User \<Rightarrow> Mood option \<Rightarrow> request \<Rightarrow> writer \<Rightarrow> response" where
  "og_answer lib as u m r w =
     (let card = og_card u m;
          etag = ogETag (l_hash lib) (Handle u) (cd_Name card) (cd_MoodClass card) (cd_MoodNote card)
            (map_option md_UpdatedAt m);
          w1 = set_header ''ETag'' etag (set_header ''Cache-Control'' ''public, max-age=300'' w)
      in if req_header r ''If-None-Match'' = etag then respond 304 NoBody w1
         else case ogRender as card of
             None \<Rightarrow> internal_error w1
           | Some png \<Rightarrow> respond 200 (Bytes png)
               (set_header ''Content-Length'' (dec_text (int (length png))) (set_header ''Content-Type'' ''image/png'' w1)))"

definition handleOGImage :: "lib \<Rightarrow> assets \<Rightarrow> 'z handler" where
  "handleOGImage lib as r w =
     (if RawQuery r \<noteq> [] \<or> ForceQuery r then answer (http_NotFound w)
      else page_owner lib r w (\<lambda>u.
        on_result (CurrentMood (ID u))
          (\<lambda>err. if err = ErrNoMood then answer (og_answer lib as u None r w) else answer (internal_error w))
          (\<lambda>m. answer (og_answer lib as u (Some m) r w))))"

text \<open>
  The tag hashes the card's texts and its mood's class, not the colours or the label they are drawn
  with: a request that revalidates is answered 304 whatever the assets have become.  A card that
  cannot be drawn is a 500 that keeps the tag and the \<open>Cache-Control\<close> of the image.
\<close>

definition card_tag :: "lib \<Rightarrow> User \<Rightarrow> Mood option \<Rightarrow> string" where
  "card_tag lib u m = ogETag (l_hash lib) (Handle u) (cd_Name (og_card u m)) (cd_MoodClass (og_card u m))
     (cd_MoodNote (og_card u m)) (map_option md_UpdatedAt m)"

lemma revalidation_ignores_assets:
  "req_header r ''If-None-Match'' = card_tag lib u m \<Longrightarrow> Status (og_answer lib as u m r w) = 304"
  by (simp add: og_answer_def card_tag_def Let_def)

lemma failed_card_cacheable:
  assumes "req_header r ''If-None-Match'' \<noteq> card_tag lib u m" and "ogRender as (og_card u m) = None"
  shows "Status (og_answer lib as u m r w) = 500"
    and "RHeader (og_answer lib as u m r w) ''Cache-Control'' = [''public, max-age=300'']"
  using assms
  by (simp_all add: og_answer_def card_tag_def Let_def internal_error_def http_Error_def set_header_def respond_def)

section \<open>What they touch\<close>

lemma page_reads [keeps_intros]:
  "keeps I (pageFor lib cfg u st)" "keeps I (page_guestbook cfg u d)"
  "(\<And>u. keeps I (k u)) \<Longrightarrow> keeps I (page_owner lib r w k)"
  unfolding pageFor_def page_guestbook_def page_owner_def Let_def GetByHandle_def
  by (intro keeps_intros stmt_intros; assumption?)+

lemma keeps_pages [keeps_intros]:
  "keeps I (handlePage lib cfg r w)" "keeps I (handleStyleCSS lib r w)" "keeps I (handleTheme as r w)"
  "keeps I (handleAppCSS as r w)" "keeps I (handlePreviewCSS as r w)" "keeps I (handleFont as r w)"
  "keeps I (handleOGImage lib as r w)"
  unfolding handlePage_def handleStyleCSS_def handleTheme_def handleAppCSS_def handlePreviewCSS_def handleFont_def
    handleOGImage_def Let_def
  by (intro keeps_intros)+

lemma conn_only_page [conn_only_intros]:
  "conn_only (pageFor lib cfg u st)" "conn_only (page_guestbook cfg u d)"
  "(\<And>u. conn_only (k u)) \<Longrightarrow> conn_only (page_owner lib r w k)"
  unfolding pageFor_def page_guestbook_def page_owner_def Let_def
  by (intro conn_only_intros; assumption?)+

lemma conn_only_pages [conn_only_intros]:
  "conn_only (handlePage lib cfg r w)" "conn_only (handleStyleCSS lib r w)" "conn_only (handleTheme as r w)"
  "conn_only (handleAppCSS as r w)" "conn_only (handlePreviewCSS as r w)" "conn_only (handleFont as r w)"
  "conn_only (handleOGImage lib as r w)"
  unfolding handlePage_def handleStyleCSS_def handleTheme_def handleAppCSS_def handlePreviewCSS_def handleFont_def
    handleOGImage_def Let_def
  by (intro conn_only_intros)+

end
