(* ===== verification/StyleWeb.thy ===== *)
theory StyleWeb
  imports Page "HOL-Library.List_Lexorder"
begin

text \<open>
  The handlers of \<open>internal/web/style.go\<close>: resetting, previewing and publishing a style draft, and
  the draft's stylesheet.  The form and the queries themselves are in \<open>StyleEdit\<close>.
\<close>

section \<open>Addresses of previews\<close>

text \<open>\<open>url.Values.Encode\<close>: the pairs by key, escaped for a query.\<close>

definition query_byte :: "char \<Rightarrow> bool" where
  "query_byte c = (handle_char c \<or> (65 \<le> code c \<and> code c \<le> 90) \<or> c \<in> set ''-_.~'')"

definition query_escape :: "string \<Rightarrow> string" where
  "query_escape s = concat (map (\<lambda>c. if query_byte c then [c] else if c = CHR '' '' then ''+''
     else [CHR 0x25, upper_hex (code c div 16), upper_hex (code c mod 16)]) s)"

definition encode_pairs :: "string \<times> string list \<Rightarrow> string list" where
  "encode_pairs kv = (case kv of (k, vs) \<Rightarrow> map (\<lambda>v. query_escape k @ ''='' @ query_escape v) vs)"

fun join_amp :: "string list \<Rightarrow> string" where
  "join_amp [] = []"
| "join_amp [s] = s"
| "join_amp (s # t # ts) = s @ ''&'' @ join_amp (t # ts)"

definition values_encode :: "url_values \<Rightarrow> string" where
  "values_encode q = join_amp (concat (map encode_pairs (sort_key (\<lambda>kv. map code (fst kv)) q)))"

section \<open>The handlers\<close>

definition msgInvalidStyle :: string where
  "msgInvalidStyle = ''No pudimos guardar ese estilo. Prob'' @ a_ac @ '' de nuevo.''"

definition currentMoodKey :: "uuid \<Rightarrow> ('z, mood_err + string) prog" where
  "currentMoodKey uid = do {
     r \<leftarrow> CurrentMood uid;
     State_Monad.return (case r of
       Inr m \<Rightarrow> Inr (md_Key m)
     | Inl err \<Rightarrow> if err = ErrNoMood then Inr ''none'' else Inl err)
   }"

definition renderStylePreview :: "lib \<Rightarrow> Config \<Rightarrow> User \<Rightarrow> Style \<Rightarrow> string \<Rightarrow> writer \<Rightarrow> ('z, response) prog" where
  "renderStylePreview lib cfg u draft moodKey w =
     on_result (pageFor lib cfg u draft) (\<lambda>_. answer (internal_error w)) (\<lambda>data.
       answer (renderTemplate 200 (PublicPage
         (data\<lparr>pd_StyleVersion := 0, pd_Preview := True,
            pd_PreviewCSSURL := ''/style/preview.css?'' @ values_encode (previewQuery draft),
            pd_PreviewFields := previewFields draft moodKey\<rparr>)) w))"

definition invalid_style :: "lib \<Rightarrow> Config \<Rightarrow> instant \<Rightarrow> User \<Rightarrow> writer \<Rightarrow> ('z, response) prog" where
  "invalid_style lib cfg now u w =
     renderAppHomeMessages lib cfg now 422 u (no_messages\<lparr>hm_Style := msgInvalidStyle\<rparr>) w"

definition style_button_ok :: "string \<Rightarrow> string \<Rightarrow> bool" where
  "style_button_ok reset action =
     (if reset \<noteq> [] then validReset reset else action = ''preview'' \<or> action = ''edit'' \<or> action = ''publish'')"

definition handleStyleSubmit :: "lib \<Rightarrow> Config \<Rightarrow> instant \<Rightarrow> 'z handler" where
  "handleStyleSubmit lib cfg now r w = signed_in r w (\<lambda>u. if_active u w (with_form r w (\<lambda>form.
     let reset = values_get form ''reset''; action = values_get form ''action'' in
     if \<not> style_button_ok reset action then answer (bad_request w)
     else on_result (currentMoodKey (ID u)) (\<lambda>_. answer (internal_error w)) (\<lambda>moodKey.
       case parseDraft form moodKey reset of
         None \<Rightarrow> invalid_style lib cfg now u w
       | Some draft \<Rightarrow>
           if reset \<noteq> [] \<or> action = ''edit'' then
             renderAppHomeMessages lib cfg now 200 u (no_messages\<lparr>hm_Draft := Some draft\<rparr>) w
           else if action = ''preview'' then renderStylePreview lib cfg u draft moodKey w
           else on_result (SetStyle (ID u) draft now)
             (\<lambda>err. if err = ErrInvalidStyle then invalid_style lib cfg now u w else answer (internal_error w))
             (\<lambda>_. answer (http_Redirect ''/'' 303 w))))))"

definition handleStylePreviewCSS :: "'z handler" where
  "handleStylePreviewCSS r w = (case styleFromQuery (Query r) of
     None \<Rightarrow> answer (bad_request w)
   | Some st \<Rightarrow> answer (respond 200 (Bytes (CSS st)) (css_headers ''no-store'' w)))"

lemma conn_only_style_web [conn_only_intros]:
  "conn_only (currentMoodKey uid)" "conn_only (renderStylePreview lib cfg u d k w)"
  "conn_only (invalid_style lib cfg now u w)" "conn_only (handleStyleSubmit lib cfg now r w)"
  "conn_only (handleStylePreviewCSS r w)"
  unfolding currentMoodKey_def renderStylePreview_def invalid_style_def handleStyleSubmit_def
    handleStylePreviewCSS_def Let_def
  by (intro conn_only_intros)+

lemma keeps_style_reads [keeps_intros]:
  "keeps I (currentMoodKey uid)" "keeps I (renderStylePreview lib cfg u d k w)"
  "keeps I (invalid_style lib cfg now u w)" "keeps I (handleStylePreviewCSS r w)"
  unfolding currentMoodKey_def renderStylePreview_def invalid_style_def handleStylePreviewCSS_def
  by (intro keeps_intros)+

end
