(* ===== verification/Orientation.thy ===== *)
theory Orientation
  imports GoStrings "HOL-Library.Monad_Syntax"
begin

text \<open>
  \<open>internal/photo/orientation.go\<close>: the EXIF orientation of an untrusted JPEG.  An index or a slice
  out of range would panic: every access to the data goes through \<open>at_byte\<close> and \<open>slice\<close>, whose
  value is then \<^const>\<open>None\<close>.  The loops are partial functions, so a loop that never ended would be
  \<^const>\<open>None\<close> as well, and \<^const>\<open>Some\<close> says that the code returns.
\<close>

section \<open>Bytes\<close>

definition at_byte :: "string \<Rightarrow> nat \<Rightarrow> nat option" where
  "at_byte s i = (if i < length s then Some (code (s ! i)) else None)"

definition slice :: "string \<Rightarrow> nat \<Rightarrow> nat \<Rightarrow> string option" where
  "slice s a b = (if a \<le> b \<and> b \<le> length s then Some (take (b - a) (drop a s)) else None)"

datatype byte_order = LittleEndian | BigEndian

definition Uint16 :: "byte_order \<Rightarrow> string \<Rightarrow> nat option" where
  "Uint16 order s = do {
     b0 \<leftarrow> at_byte s 0;
     b1 \<leftarrow> at_byte s 1;
     Some (case order of LittleEndian \<Rightarrow> b0 + 256 * b1 | BigEndian \<Rightarrow> b1 + 256 * b0)
   }"

definition Uint32 :: "byte_order \<Rightarrow> string \<Rightarrow> nat option" where
  "Uint32 order s = do {
     b0 \<leftarrow> at_byte s 0;
     b1 \<leftarrow> at_byte s 1;
     b2 \<leftarrow> at_byte s 2;
     b3 \<leftarrow> at_byte s 3;
     Some (case order of
       LittleEndian \<Rightarrow> b0 + 256 * (b1 + 256 * (b2 + 256 * b3))
     | BigEndian \<Rightarrow> b3 + 256 * (b2 + 256 * (b1 + 256 * b0)))
   }"

section \<open>The TIFF block\<close>

definition tagOrientation :: nat where "tagOrientation = 0x0112"
definition typeShort :: nat where "typeShort = 3"
definition ifdEntrySize :: nat where "ifdEntrySize = 12"
definition exifHeader :: string where "exifHeader = ''Exif'' @ [CHR 0x00, CHR 0x00]"

definition entry_value :: "byte_order \<Rightarrow> string \<Rightarrow> nat option" where
  "entry_value order e = do {
     v \<leftarrow> slice e 8 (length e) \<bind> Uint16 order;
     Some (if 1 \<le> v \<and> v \<le> 8 then v else 1)
   }"

text \<open>The loop over the entries: \<open>n\<close> of them are left, from offset \<open>p\<close> on.\<close>

fun scan_entries :: "byte_order \<Rightarrow> string \<Rightarrow> nat \<Rightarrow> nat \<Rightarrow> nat option" where
  "scan_entries order tiff p 0 = Some 1"
| "scan_entries order tiff p (Suc n) = do {
     e \<leftarrow> slice tiff p (p + ifdEntrySize);
     tag \<leftarrow> Uint16 order e;
     (if tag \<noteq> tagOrientation then scan_entries order tiff (p + ifdEntrySize) n
      else do {
        kind \<leftarrow> slice e 2 (length e) \<bind> Uint16 order;
        (if kind \<noteq> typeShort then Some 1 else entry_value order e)
      })
   }"

text \<open>The offsets are below \<open>2 ^ 33\<close>, so the code's 64-bit sums do not wrap.\<close>

definition ifd_orientation :: "byte_order \<Rightarrow> string \<Rightarrow> nat option" where
  "ifd_orientation order tiff = do {
     magic \<leftarrow> slice tiff 2 (length tiff) \<bind> Uint16 order;
     (if magic \<noteq> 42 then Some 1 else do {
        ifd \<leftarrow> slice tiff 4 (length tiff) \<bind> Uint32 order;
        (if ifd + 2 > length tiff then Some 1 else do {
           count \<leftarrow> slice tiff ifd (length tiff) \<bind> Uint16 order;
           let entries = ifd + 2;
           (if entries + count * ifdEntrySize > length tiff then Some 1
            else scan_entries order tiff entries count)
         })
      })
   }"

definition tiffOrientation :: "string \<Rightarrow> nat option" where
  "tiffOrientation tiff =
     (if length tiff < 8 then Some 1
      else do {
        mark \<leftarrow> slice tiff 0 2;
        (if mark = ''II'' then ifd_orientation LittleEndian tiff
         else if mark = ''MM'' then ifd_orientation BigEndian tiff
         else Some 1)
      })"

section \<open>The segments\<close>

partial_function (option) skip_fill :: "string \<Rightarrow> nat \<Rightarrow> nat option" where
  "skip_fill data pos =
     (if pos < length data then do {
        b \<leftarrow> at_byte data pos;
        (if b = 0xFF then skip_fill data (pos + 1) else Some pos)
      } else Some pos)"

partial_function (option) scan_segments :: "string \<Rightarrow> nat \<Rightarrow> nat option" where
  "scan_segments data pos =
     (if \<not> pos < length data then Some 1
      else do {
        b \<leftarrow> at_byte data pos;
        (if b \<noteq> 0xFF then Some 1
         else do {
           pos \<leftarrow> skip_fill data pos;
           (if pos \<ge> length data then Some 1
            else do {
              marker \<leftarrow> at_byte data pos;
              let pos = pos + 1;
              (if marker = 0xDA then Some 1
               else if pos + 2 > length data then Some 1
               else do {
                 segLen \<leftarrow> slice data pos (length data) \<bind> Uint16 BigEndian;
                 (if segLen < 2 \<or> pos + segLen > length data then Some 1
                  else do {
                    payload \<leftarrow> slice data (pos + 2) (pos + segLen);
                    (if marker = 0xE1 \<and> length exifHeader \<le> length payload \<and>
                        take (length exifHeader) payload = exifHeader
                     then slice payload (length exifHeader) (length payload) \<bind> tiffOrientation
                     else scan_segments data (pos + segLen))
                  })
               })
            })
         })
      })"

declare skip_fill.simps [code] scan_segments.simps [code]

definition orientation :: "string \<Rightarrow> nat option" where
  "orientation data =
     (if length data < 2 then Some 1
      else do {
        b0 \<leftarrow> at_byte data 0;
        b1 \<leftarrow> at_byte data 1;
        (if b0 \<noteq> 0xFF \<or> b1 \<noteq> 0xD8 then Some 1 else scan_segments data 2)
      })"

text \<open>A comment segment, two fill bytes, and an EXIF segment whose big-endian directory says 6.\<close>

definition demo_exif :: string where
  "demo_exif = map byte [0xFF, 0xD8, 0xFF, 0xE0, 0, 4, 1, 2, 0xFF, 0xFF, 0xE1, 0, 34] @ exifHeader @ ''MM'' @
     map byte [0, 42, 0, 0, 0, 8, 0, 1, 0x01, 0x12, 0, 3, 0, 0, 0, 1, 0, 6, 0, 0, 0, 0, 0, 0]"

lemma demo_exif_read: "orientation demo_exif = Some 6"
  by code_simp

section \<open>Every access is in range\<close>

definition returns :: "('a \<Rightarrow> bool) \<Rightarrow> 'a option \<Rightarrow> bool" where
  "returns P m = (case m of None \<Rightarrow> False | Some x \<Rightarrow> P x)"

lemma returns_Some [simp]: "returns P (Some x) = P x"
  by (simp add: returns_def)

lemma returns_bind: "returns Q m \<Longrightarrow> (\<And>x. Q x \<Longrightarrow> returns P (k x)) \<Longrightarrow> returns P (m \<bind> k)"
  by (cases m) (simp_all add: returns_def)

lemma returns_at: "i < length s \<Longrightarrow> returns (\<lambda>_. True) (at_byte s i)"
  by (simp add: at_byte_def)

lemma returns_slice: "a \<le> b \<Longrightarrow> b \<le> length s \<Longrightarrow> returns (\<lambda>t. length t = b - a) (slice s a b)"
  by (simp add: slice_def)

lemma returns_if: "(c \<Longrightarrow> returns P a) \<Longrightarrow> (\<not> c \<Longrightarrow> returns P b) \<Longrightarrow> returns P (if c then a else b)"
  by simp

lemma returns_Uint16: "2 \<le> length s \<Longrightarrow> returns (\<lambda>_. True) (Uint16 order s)"
  unfolding Uint16_def by (intro returns_bind [OF returns_at]) (linarith | simp)+

lemma returns_Uint32: "4 \<le> length s \<Longrightarrow> returns (\<lambda>_. True) (Uint32 order s)"
  unfolding Uint32_def by (intro returns_bind [OF returns_at]) (linarith | simp)+

lemma returns_Uint16_at: "a + 2 \<le> length s \<Longrightarrow> returns (\<lambda>_. True) (slice s a (length s) \<bind> Uint16 order)"
  by (rule returns_bind [OF returns_slice returns_Uint16]) simp_all

lemma returns_Uint32_at: "a + 4 \<le> length s \<Longrightarrow> returns (\<lambda>_. True) (slice s a (length s) \<bind> Uint32 order)"
  by (rule returns_bind [OF returns_slice returns_Uint32]) simp_all

definition upright :: "nat \<Rightarrow> bool" where "upright v = (1 \<le> v \<and> v \<le> 8)"

lemma upright_1 [simp]: "upright 1" "upright (Suc 0)" by (simp_all add: upright_def)

lemma entry_value_returns: "length e = 12 \<Longrightarrow> returns upright (entry_value order e)"
  unfolding entry_value_def by (rule returns_bind [OF returns_Uint16_at]) (simp_all add: upright_def)

lemma scan_entries_returns: "p + n * 12 \<le> length tiff \<Longrightarrow> returns upright (scan_entries order tiff p n)"
proof (induction n arbitrary: p)
  case (Suc n)
  show ?case
    unfolding scan_entries.simps
  proof (rule returns_bind [OF returns_slice], goal_cases)
    case (3 e)
    then have e: "length e = 12" by (simp add: ifdEntrySize_def)
    show ?case
      by (intro returns_if returns_bind [OF returns_Uint16] returns_bind [OF returns_Uint16_at] Suc.IH
          entry_value_returns)
        (use e Suc.prems in \<open>simp_all add: ifdEntrySize_def\<close>)
  qed (use Suc.prems in \<open>simp_all add: ifdEntrySize_def\<close>)
qed simp

lemma ifd_orientation_returns:
  assumes "8 \<le> length tiff" shows "returns upright (ifd_orientation order tiff)"
  unfolding ifd_orientation_def Let_def
  by (intro returns_if returns_bind [OF returns_Uint16_at] returns_bind [OF returns_Uint32_at] scan_entries_returns)
    (use assms in \<open>simp_all add: ifdEntrySize_def\<close>)

lemma tiffOrientation_returns: "returns upright (tiffOrientation tiff)"
  unfolding tiffOrientation_def
  by (intro returns_if returns_bind [OF returns_slice] ifd_orientation_returns) simp_all

section \<open>Every loop ends\<close>

lemma skip_fill_returns: "pos \<le> length data \<Longrightarrow> returns (\<lambda>q. pos \<le> q \<and> q \<le> length data) (skip_fill data pos)"
proof (induction "length data - pos" arbitrary: pos rule: less_induct)
  case less
  show ?case
  proof (cases "pos < length data \<and> code (data ! pos) = 0xFF")
    case True
    then have "returns (\<lambda>q. pos + 1 \<le> q \<and> q \<le> length data) (skip_fill data (pos + 1))"
      by (intro less.hyps) auto
    then show ?thesis
      using True by (subst skip_fill.simps) (auto simp: at_byte_def returns_def split: option.splits)
  next
    case False
    then show ?thesis using less.prems by (subst skip_fill.simps) (auto simp: at_byte_def)
  qed
qed

lemma scan_segments_returns: "returns upright (scan_segments data pos)"
proof (induction "length data - pos" arbitrary: pos rule: less_induct)
  case less
  show ?case
  proof (cases "pos < length data")
    case in_range: True
    have rec: "returns upright (scan_segments data q)" if "pos < q" for q
      using in_range that by (intro less.hyps) simp
    show ?thesis
      by (subst scan_segments.simps, unfold Let_def, intro returns_if returns_bind [OF returns_at]
          returns_bind [OF skip_fill_returns] returns_bind [OF returns_Uint16_at]
          returns_bind [OF returns_slice] tiffOrientation_returns rec)
        (use in_range in simp_all)
  next
    case False
    then show ?thesis by (subst scan_segments.simps) simp
  qed
qed

text \<open>C37: Whatever bytes are uploaded, reading the orientation ends, reads nothing out of range and
  yields one of the eight orientations.\<close>

theorem orientation_total: "\<exists>v. orientation data = Some v \<and> 1 \<le> v \<and> v \<le> 8"
proof -
  have "returns upright (orientation data)"
    unfolding orientation_def
    by (intro returns_if returns_bind [OF returns_at] scan_segments_returns) (linarith | simp)+
  then show ?thesis by (auto simp: returns_def upright_def split: option.splits)
qed

end
