(* ===== verification/Photo.thy ===== *)
theory Photo
  imports Orientation Users "HOL-Library.Signed_Division"
begin

text \<open>
  \<open>internal/photo/photo.go\<close>: from uploaded bytes to a small JPEG.  Decoding, scaling and encoding
  are the image libraries' and arguments here; the limits, the sizes and the rotation are the code's.
\<close>

section \<open>Limits and sizes\<close>

definition MaxEdge :: int where "MaxEdge = 1200"
definition MaxPixels :: int where "MaxPixels = 50000000"
definition MaxBytes :: int where "MaxBytes = 10485760"
definition MaxSide :: int where "MaxSide = 8192"
definition MaxDecodeBytes :: int where "MaxDecodeBytes = 268435456"
definition scalerCellBytes :: int where "scalerCellBytes = 32"

text \<open>An \<open>int64\<close> result: the low 64 bits, read as a signed number.\<close>

definition int64 :: "int \<Rightarrow> int" where
  "int64 x = (x + 2 ^ 63) mod 2 ^ 64 - 2 ^ 63"

definition scaled_side :: "int \<Rightarrow> int \<Rightarrow> int" where
  "scaled_side long x = max 1 (int64 (int64 (x * MaxEdge) + long sdiv 2) sdiv long)"

definition scaledSize :: "int \<Rightarrow> int \<Rightarrow> int \<times> int" where
  "scaledSize w h = (let long = max w h in
     if long > MaxEdge then (scaled_side long w, scaled_side long h) else (w, h))"

datatype color_model =
    PaletteModel | RGBA64Model | NRGBA64Model | RGBAModel | NRGBAModel | CMYKModel | YCbCrModel
  | Gray16Model | GrayModel | OtherModel

definition bytesPerPixel :: "color_model \<Rightarrow> int" where
  "bytesPerPixel m = (case m of
     PaletteModel \<Rightarrow> 4
   | RGBA64Model \<Rightarrow> 8 | NRGBA64Model \<Rightarrow> 8
   | RGBAModel \<Rightarrow> 4 | NRGBAModel \<Rightarrow> 4 | CMYKModel \<Rightarrow> 4
   | YCbCrModel \<Rightarrow> 3
   | Gray16Model \<Rightarrow> 2
   | GrayModel \<Rightarrow> 1
   | OtherModel \<Rightarrow> 8)"

definition estimatedPeak :: "int \<Rightarrow> int \<Rightarrow> color_model \<Rightarrow> int" where
  "estimatedPeak w h m =
     (let decoded = int64 (int64 (w * h) * bytesPerPixel m);
          (sw, _) = scaledSize w h
      in int64 (decoded + int64 (int64 (sw * h) * scalerCellBytes)))"

section \<open>Images\<close>

text \<open>A pixel is the four bytes of its colour in one number.\<close>

record image =
  Dx :: int
  Dy :: int
  Pixel :: "int \<Rightarrow> int \<Rightarrow> nat"

text \<open>The source pixel that lands at \<open>(x, y)\<close>.\<close>

definition source_pixel :: "nat \<Rightarrow> int \<Rightarrow> int \<Rightarrow> int \<Rightarrow> int \<Rightarrow> int \<times> int" where
  "source_pixel ori w h x y =
     (if ori = 2 then (w - 1 - x, y)
      else if ori = 3 then (w - 1 - x, h - 1 - y)
      else if ori = 4 then (x, h - 1 - y)
      else if ori = 5 then (y, x)
      else if ori = 6 then (y, h - 1 - x)
      else if ori = 7 then (w - 1 - y, h - 1 - x)
      else (w - 1 - y, x))"

definition orient8 :: "image \<Rightarrow> nat \<Rightarrow> image" where
  "orient8 src ori =
     (if ori < 2 \<or> 8 < ori then src
      else let w = Dx src; h = Dy src; (dw, dh) = (if 5 \<le> ori then (h, w) else (w, h)) in
        \<lparr>Dx = dw, Dy = dh, Pixel = (\<lambda>x y.
           if 0 \<le> x \<and> x < dw \<and> 0 \<le> y \<and> y < dh
           then (case source_pixel ori w h x y of (sx, sy) \<Rightarrow> Pixel src sx sy) else 0)\<rparr>)"

text \<open>
  The image libraries: what the header declares (width, height, colour model and format), the
  decoded image, the scaler that paints an image of a given size over the paper, and the encoder.
\<close>

record codecs =
  DecodeConfig :: "string \<Rightarrow> (int \<times> int \<times> color_model \<times> string) option"
  Decode :: "string \<Rightarrow> image option"
  ScaleTo :: "image \<Rightarrow> int \<Rightarrow> int \<Rightarrow> int \<Rightarrow> int \<Rightarrow> nat"
  EncodeJPEG :: "image \<Rightarrow> string option"

definition scale :: "codecs \<Rightarrow> image \<Rightarrow> image" where
  "scale lib src = (case scaledSize (Dx src) (Dy src) of
     (w, h) \<Rightarrow> \<lparr>Dx = w, Dy = h, Pixel = ScaleTo lib src w h\<rparr>)"

datatype photo_err = ErrTooLarge | ErrUnsupportedFormat | ErrInvalidImage | PhotoWrap string

record Result =
  JPEG :: string
  RWidth :: int
  RHeight :: int

section \<open>Processing\<close>

definition within_limits :: "int \<Rightarrow> int \<Rightarrow> color_model \<Rightarrow> bool" where
  "within_limits w h m = (\<not> (w > MaxSide \<or> h > MaxSide \<or> int64 (w * h) > MaxPixels \<or>
     estimatedPeak w h m > MaxDecodeBytes))"

definition encode_result :: "codecs \<Rightarrow> image \<Rightarrow> photo_err + Result" where
  "encode_result lib out = (case EncodeJPEG lib out of
     None \<Rightarrow> Inl (PhotoWrap ''encode'')
   | Some bs \<Rightarrow> Inr \<lparr>JPEG = bs, RWidth = Dx out, RHeight = Dy out\<rparr>)"

text \<open>
  \<open>Process\<close> of an upload that can be read; the handlers pass it bytes in memory.  A read of the
  orientation that panicked would be \<open>None\<close>.
\<close>

definition Process :: "codecs \<Rightarrow> string \<Rightarrow> (photo_err + Result) option" where
  "Process lib data =
     (if int (length data) > MaxBytes then Some (Inl ErrTooLarge)
      else (case DecodeConfig lib data of
        None \<Rightarrow> Some (Inl ErrInvalidImage)
      | Some (w, h, m, format) \<Rightarrow>
          if format \<noteq> ''jpeg'' \<and> format \<noteq> ''png'' then Some (Inl ErrUnsupportedFormat)
          else if w \<le> 0 \<or> h \<le> 0 then Some (Inl ErrInvalidImage)
          else if \<not> within_limits w h m then Some (Inl ErrTooLarge)
          else (case (if format = ''jpeg'' then orientation data else Some 1) of
              None \<Rightarrow> None
            | Some orient \<Rightarrow> (case Decode lib data of
                None \<Rightarrow> Some (Inl ErrInvalidImage)
              | Some src \<Rightarrow> Some (encode_result lib (orient8 (scale lib src) orient))))))"

section \<open>Sizes\<close>

lemma int64_id: "- (2 ^ 63) \<le> x \<Longrightarrow> x < 2 ^ 63 \<Longrightarrow> int64 x = x"
  by (simp add: int64_def mod_pos_pos_trivial)

lemma int64_small: "- 9000000000000000000 \<le> x \<Longrightarrow> x \<le> 9000000000000000000 \<Longrightarrow> int64 x = x"
  by (rule int64_id) simp_all

lemma sdiv_pos: "0 \<le> x \<Longrightarrow> 0 < y \<Longrightarrow> x sdiv y = x div (y :: int)"
  by (simp add: signed_divide_int_def sgn_if)

lemma div_below: "0 < d \<Longrightarrow> n < k * d \<Longrightarrow> n div d < (k :: int)"
  using div_mult_mod_eq [of n d] pos_mod_sign [of d n] mult_right_mono [of k "n div d" d] by linarith

lemma div_above: "0 < d \<Longrightarrow> k * d \<le> n \<Longrightarrow> k \<le> n div (d :: int)"
  using zdiv_mono1 [of "k * d" n d] by simp

lemma scaled_side_exact:
  assumes "1 \<le> x" "x \<le> long" "long \<le> 2 ^ 50"
  shows "scaled_side long x = max 1 ((x * 1200 + long div 2) div long)"
proof -
  have "x * 1200 < 2 ^ 62" "0 \<le> x * 1200" "0 \<le> long div 2" "long div 2 \<le> 2 ^ 49" using assms by simp_all
  then have "int64 (x * 1200) = x * 1200" "int64 (x * 1200 + long div 2) = x * 1200 + long div 2"
    by (simp_all add: int64_id)
  then show ?thesis using assms by (simp add: scaled_side_def MaxEdge_def sdiv_pos)
qed

lemma scaled_side_bounds:
  assumes "1 \<le> x" "x \<le> long" "1200 < long" "long \<le> 2 ^ 50"
  shows "1 \<le> scaled_side long x" "scaled_side long x \<le> 1200" "scaled_side long x \<le> x"
    "scaled_side long long = 1200"
    "scaled_side long x = 1 \<or> 2 * \<bar>scaled_side long x * long - x * 1200\<bar> \<le> long"
proof -
  let ?q = "(x * 1200 + long div 2) div long"
  have exact: "scaled_side long x = max 1 ?q" by (rule scaled_side_exact [OF assms(1,2,4)])
  have q: "?q * long \<le> x * 1200 + long div 2" "x * 1200 + long div 2 < ?q * long + long"
    using assms(3) pos_mod_sign [of long "x * 1200 + long div 2"] pos_mod_bound [of long "x * 1200 + long div 2"]
      div_mult_mod_eq [of "x * 1200 + long div 2" long] by linarith+
  have half: "2 * (long div 2) \<le> long" "long \<le> 2 * (long div 2) + 1" by simp_all
  show "1 \<le> scaled_side long x" by (simp add: exact)
  have "x * 1200 + long div 2 < 1201 * long" using assms half by linarith
  then have "?q < 1201" using assms(3) by (intro div_below) simp_all
  then show "scaled_side long x \<le> 1200" using exact by linarith
  have "x * 1200 \<le> x * long" using assms by simp
  then have "x * 1200 + long div 2 < x * long + long" using half assms by linarith
  then have "?q < x + 1" using assms(3) by (intro div_below) (simp_all add: distrib_right)
  then show "scaled_side long x \<le> x" using exact assms(1) by linarith
  have "(long * 1200 + long div 2) div long < 1201" "1200 \<le> (long * 1200 + long div 2) div long"
    using assms(3) half by (intro div_below div_above; linarith)+
  then show "scaled_side long long = 1200" using scaled_side_exact [of long long] assms by simp
  show "scaled_side long x = 1 \<or> 2 * \<bar>scaled_side long x * long - x * 1200\<bar> \<le> long"
  proof (cases "1 \<le> ?q")
    case True
    then have "scaled_side long x = ?q" using exact by linarith
    moreover have "2 * (p - n) \<le> long \<and> 2 * (n - p) \<le> long"
      if "p \<le> n + k" "n + k < p + long" "2 * k \<le> long" "long \<le> 2 * k + 1" for p n k :: int
      using that by presburger
    note this [OF q half]
    ultimately show ?thesis by (simp add: abs_if)
  qed (use exact in linarith)
qed

text \<open>Scaling fits an image to the longest side without overflow, upscaling or distortion: the
  result is within 1200 by 1200 and no larger than the image, its long side is exactly 1200 when it
  was longer, and the other side keeps the ratio to within half a pixel unless it is one pixel.\<close>

theorem scaled_size_fits:
  assumes "1 \<le> w" "1 \<le> h" "w \<le> 2 ^ 50" "h \<le> 2 ^ 50" and "scaledSize w h = (w', h')"
  shows "1 \<le> w' \<and> w' \<le> min w 1200 \<and> 1 \<le> h' \<and> h' \<le> min h 1200 \<and>
    (1200 < max w h \<longrightarrow> max w' h' = 1200 \<and> (w' = 1 \<or> 2 * \<bar>w' * max w h - w * 1200\<bar> \<le> max w h) \<and>
       (h' = 1 \<or> 2 * \<bar>h' * max w h - h * 1200\<bar> \<le> max w h)) \<and>
    (max w h \<le> 1200 \<longrightarrow> w' = w \<and> h' = h)"
proof (cases "1200 < max w h")
  case True
  let ?l = "max w h"
  have out: "w' = scaled_side ?l w" "h' = scaled_side ?l h"
    using assms(5) True by (simp_all add: scaledSize_def MaxEdge_def Let_def)
  have l: "w \<le> ?l" "h \<le> ?l" "?l \<le> 2 ^ 50" "?l = w \<or> ?l = h" using assms by (auto simp: max_def)
  note bw = scaled_side_bounds [OF assms(1) l(1) True l(3), folded out]
    and bh = scaled_side_bounds [OF assms(2) l(2) True l(3), folded out]
  have "w' = 1200 \<or> h' = 1200" using l(4) bw(4) out by metis
  then have "max w' h' = 1200" using bw(2) bh(2) by linarith
  then show ?thesis using bw(1-3,5) bh(1-3,5) True by (simp del: max_less_iff_conj max.bounded_iff)
next
  case False
  then show ?thesis using assms by (auto simp: scaledSize_def MaxEdge_def Let_def)
qed

lemma scaled_size_fits_witness: "scaledSize 4000 3000 = (1200, 900) \<and> (900::int) \<le> min 3000 1200"
  using scaled_size_fits [of 4000 3000 1200 900] by (simp add: scaledSize_def scaled_side_exact MaxEdge_def)

text \<open>Inside the limits nothing wraps.\<close>

lemma estimatedPeak_exact:
  assumes "1 \<le> w" "w \<le> 8192" "1 \<le> h" "h \<le> 8192" and "scaledSize w h = (w', h')"
  shows "estimatedPeak w h m = w * h * bytesPerPixel m + w' * h * 32 \<and> int64 (w * h) = w * h"
proof -
  have size: "1 \<le> w'" "w' \<le> 1200" using scaled_size_fits [of w h w' h'] assms by auto
  have bpp: "1 \<le> bytesPerPixel m" "bytesPerPixel m \<le> 8"
    by (cases m; simp add: bytesPerPixel_def)+
  have wh: "0 \<le> w * h" "w * h \<le> 8192 * 8192" and sh: "0 \<le> w' * h" "w' * h \<le> 1200 * 8192"
    using assms size mult_mono [of w 8192 h 8192] mult_mono [of w' 1200 h 8192] by simp_all
  have "0 \<le> w * h * bytesPerPixel m" "w * h * bytesPerPixel m \<le> 8192 * 8192 * 8"
    using wh bpp mult_mono [of "w * h" "8192 * 8192" "bytesPerPixel m" 8] by simp_all
  then have "int64 (w * h * bytesPerPixel m) = w * h * bytesPerPixel m"
      "int64 (w * h * bytesPerPixel m + w' * h * 32) = w * h * bytesPerPixel m + w' * h * 32"
      "int64 (w * h) = w * h" "int64 (w' * h) = w' * h" "int64 (w' * h * 32) = w' * h * 32"
    using wh sh by (intro int64_small; linarith)+
  then show ?thesis
    using assms(5) by (simp only: estimatedPeak_def scalerCellBytes_def Let_def prod.case)
qed

lemma orient8_size: "Dx (orient8 src ori) = Dx src \<and> Dy (orient8 src ori) = Dy src \<or>
    Dx (orient8 src ori) = Dy src \<and> Dy (orient8 src ori) = Dx src"
  by (simp add: orient8_def Let_def)

text \<open>The decoder's promise: the image has the size its header declares.\<close>

definition header_true :: "codecs \<Rightarrow> string \<Rightarrow> bool" where
  "header_true lib data = (case (DecodeConfig lib data, Decode lib data) of
     (Some (w, h, _, _), Some img) \<Rightarrow> Dx img = w \<and> Dy img = h | _ \<Rightarrow> True)"


definition demo_codecs :: codecs where
  "demo_codecs = \<lparr>DecodeConfig = (\<lambda>_. Some (4000, 3000, YCbCrModel, ''png'')),
     Decode = (\<lambda>_. Some \<lparr>Dx = 4000, Dy = 3000, Pixel = (\<lambda>_ _. 0)\<rparr>),
     ScaleTo = (\<lambda>_ _ _ _ _. 0), EncodeJPEG = (\<lambda>_. Some ''J'')\<rparr>"


section \<open>Rotation\<close>

definition undo_orient :: "nat \<Rightarrow> nat" where
  "undo_orient ori = (if ori = 6 then 8 else if ori = 8 then 6 else ori)"

text \<open>Rotating loses nothing: every orientation moves the pixels of the image one to one, so that
  applying it and then its inverse gives back the same image.\<close>

theorem orient8_roundtrip:
  assumes "0 \<le> x" "x < Dx src" "0 \<le> y" "y < Dy src"
  shows "Dx (orient8 (orient8 src ori) (undo_orient ori)) = Dx src \<and>
    Dy (orient8 (orient8 src ori) (undo_orient ori)) = Dy src \<and>
    Pixel (orient8 (orient8 src ori) (undo_orient ori)) x y = Pixel src x y"
proof -
  consider "ori < 2 \<or> 8 < ori" | "ori = 2" | "ori = 3" | "ori = 4" | "ori = 5" | "ori = 6" | "ori = 7" | "ori = 8"
    by linarith
  then show ?thesis
    using assms by cases (auto simp: orient8_def Let_def undo_orient_def source_pixel_def)
qed

end
