(* ===== verification/PhotoWeb.thy ===== *)
theory PhotoWeb
  imports Page Photo
begin

text \<open>
  \<open>internal/web/photo.go\<close>: uploading, removing and serving photos.  A file is written before the
  database names it and deleted only after the database no longer does.
\<close>

section \<open>Reading an upload\<close>

definition maxPhotoBody :: int where "maxPhotoBody = MaxBytes + 1048576"

definition msgPhotoNone :: string where "msgPhotoNone = ''Eleg'' @ i_ac @ '' una foto.''"
definition msgPhotoToday :: string where
  "msgPhotoToday = ''Ya cambiaste tu foto hoy. Ma'' @ n_ti @ ''ana pod'' @ e_ac @ ''s subir otra.''"
definition msgPhotoBusy :: string where
  "msgPhotoBusy = ''Estamos procesando otra foto. Prob'' @ a_ac @ '' de nuevo en unos segundos.''"
definition msgPhotoTooLarge :: string where
  "msgPhotoTooLarge = ''Esta foto es muy grande. Prob'' @ a_ac @ '' con una sacada en modo normal o m'' @ a_ac @ ''s chica.''"
definition msgPhotoUnreadable :: string where
  "msgPhotoUnreadable = ''No pudimos leer esa foto. Prob'' @ a_ac @ '' con un JPG o PNG.''"

datatype read_err = BodyTooBig | NoPhotoPart | BadStream

text \<open>\<open>photoPartBytes\<close>: the bytes of a part named photo, at most one more than allowed.\<close>

definition photoPartBytes :: "int \<Rightarrow> string \<Rightarrow> int \<Rightarrow> string \<Rightarrow> read_err + string option" where
  "photoPartBytes cap name offset content =
     (if name \<noteq> ''photo'' then Inr None
      else let data = take (nat (MaxBytes + 1)) content in
        if offset + int (length data) > cap then Inl BodyTooBig else Inr (Some data))"

text \<open>
  The loop of \<open>readPhotoPart\<close> over a multipart body of \<open>len\<close> bytes, of which \<open>cap\<close> may be read.
\<close>

fun next_parts :: "int \<Rightarrow> int \<Rightarrow> part list \<Rightarrow> read_err + string" where
  "next_parts cap len [] = (if len > cap then Inl BodyTooBig else Inl NoPhotoPart)"
| "next_parts cap len (MalformedPart # ps) = Inl BadStream"
| "next_parts cap len (FormPart name offset content # ps) =
     (if offset > cap then Inl BodyTooBig
      else (case photoPartBytes cap name offset content of
        Inl e \<Rightarrow> Inl e
      | Inr None \<Rightarrow> next_parts cap len ps
      | Inr (Some data) \<Rightarrow> if data = [] then Inl NoPhotoPart else Inr data))"

definition readPhotoPart :: "request \<Rightarrow> read_err + string" where
  "readPhotoPart r = (case Multipart r of
     None \<Rightarrow> Inl NoPhotoPart
   | Some ps \<Rightarrow> next_parts (case BodyCap r of None \<Rightarrow> BodyLength r | Some n \<Rightarrow> n) (BodyLength r) ps)"

section \<open>Processing, one at a time\<close>

text \<open>
  What waiting for the processing slot came to: the slot, the timer, or a client that left.  A
  failure is a status and the message to show with it.
\<close>

datatype slot_wait = SlotTaken | SlotTimeout | ClientGone

definition processPhoto :: "codecs \<Rightarrow> slot_wait \<Rightarrow> string \<Rightarrow> (int \<times> string) + Result" where
  "processPhoto cd slot data = (case slot of
     SlotTimeout \<Rightarrow> Inl (503, msgPhotoBusy)
   | ClientGone \<Rightarrow> Inl (503, [])
   | SlotTaken \<Rightarrow> (case Process cd data of
       None \<Rightarrow> Inl (500, [])
     | Some (Inr res) \<Rightarrow> Inr res
     | Some (Inl err) \<Rightarrow>
         if err = ErrTooLarge then Inl (422, msgPhotoTooLarge)
         else if err = ErrUnsupportedFormat \<or> err = ErrInvalidImage then Inl (422, msgPhotoUnreadable)
         else Inl (500, [])))"

section \<open>Uploading and removing\<close>

definition dayStart :: "instant \<Rightarrow> instant" where
  "dayStart t = (t + argentina) div day * day - argentina"

definition photo_message :: "lib \<Rightarrow> Config \<Rightarrow> instant \<Rightarrow> int \<Rightarrow> User \<Rightarrow> string \<Rightarrow> writer \<Rightarrow> ('z, response) prog" where
  "photo_message lib cfg now st u msg w =
     renderAppHomeMessages lib cfg now st u (no_messages\<lparr>hm_Photo := msg\<rparr>) w"

definition read_refused :: "lib \<Rightarrow> Config \<Rightarrow> instant \<Rightarrow> User \<Rightarrow> read_err \<Rightarrow> writer \<Rightarrow> ('z, response) prog" where
  "read_refused lib cfg now u err w = (case err of
     BodyTooBig \<Rightarrow> answer (http_Error ''request body too large'' 413 w)
   | NoPhotoPart \<Rightarrow> photo_message lib cfg now 422 u msgPhotoNone w
   | BadStream \<Rightarrow> answer (bad_request w))"

definition remove_if_named :: "string \<Rightarrow> ('z, unit) web_prog" where
  "remove_if_named key = (if key \<noteq> [] then removePhotoFile key else State_Monad.return ())"

text \<open>From a processed photo on: the file, the row, the old file.\<close>

definition store_photo :: "lib \<Rightarrow> Config \<Rightarrow> instant \<Rightarrow> string \<Rightarrow> string \<Rightarrow> User \<Rightarrow> Result \<Rightarrow> writer \<Rightarrow> ('z, response) web_prog" where
  "store_photo lib cfg now key tmp u res w =
     on_result (Save tmp key (JPEG res)) (\<lambda>_. answer (internal_error w)) (\<lambda>_.
     on_result (SetPhoto_service (l_fold lib) (ID u) key (RWidth res) (RHeight res) (dayStart now) now)
       (\<lambda>err. do {
          _ \<leftarrow> removePhotoFile key;
          (if err = ErrPhotoNotAllowed then photo_message lib cfg now 422 u msgPhotoToday w
           else answer (internal_error w))
        })
       (\<lambda>oldKey. do {
          _ \<leftarrow> remove_if_named oldKey;
          answer (http_Redirect ''/'' 303 w)
        }))"

definition handlePhotoUpload ::
  "lib \<Rightarrow> Config \<Rightarrow> codecs \<Rightarrow> instant \<Rightarrow> slot_wait \<Rightarrow> bytes \<Rightarrow> string \<Rightarrow> 'z web_handler" where
  "handlePhotoUpload lib cfg cd now slot rnd tmp r w = signed_in r w (\<lambda>u. if_active u w (
     if \<not> CanUploadPhotos u then answer (http_Error ''forbidden'' 403 w)
     else if UploadedPhotoOn (\<lambda>_. argentina) u now then photo_message lib cfg now 422 u msgPhotoToday w
     else if ContentLength r > maxPhotoBody then answer (http_Error ''request body too large'' 413 w)
     else (case readPhotoPart (r\<lparr>BodyCap := Some maxPhotoBody\<rparr>) of
         Inl err \<Rightarrow> read_refused lib cfg now u err w
       | Inr data \<Rightarrow> (case processPhoto cd slot data of
           Inl (st, msg) \<Rightarrow>
             if msg = [] then answer (http_Error ''internal server error'' st w)
             else photo_message lib cfg now st u msg w
         | Inr res \<Rightarrow> store_photo lib cfg now (NewKey rnd) tmp u res w))))"

definition handlePhotoRemove :: "lib \<Rightarrow> 'z web_handler" where
  "handlePhotoRemove lib r w = signed_in r w (\<lambda>u. if_active u w (
     on_result (RemovePhoto_service (l_fold lib) (ID u)) (\<lambda>_. answer (internal_error w)) (\<lambda>oldKey. do {
       _ \<leftarrow> remove_if_named oldKey;
       answer (http_Redirect ''/'' 303 w)
     })))"

section \<open>Serving\<close>

definition keyFromFile :: "string \<Rightarrow> string option" where
  "keyFromFile file = (case cut_suffix file ''.jpg'' of
     None \<Rightarrow> None | Some key \<Rightarrow> if ValidKey key then Some key else None)"

definition servePhotoFile :: "lib \<Rightarrow> request \<Rightarrow> string \<Rightarrow> writer \<Rightarrow> ('z, response) web_prog" where
  "servePhotoFile lib r key w =
     on_result (Open key) (\<lambda>_. answer (http_NotFound w)) (\<lambda>content. do {
       stat \<leftarrow> disk_step id;
       (if \<not> stat then answer (http_NotFound w)
        else answer (l_serve_content lib r content (set_header ''Content-Type'' ''image/jpeg'' w)))
     })"

text \<open>\<open>strings.EqualFold\<close> of two handles, which are ASCII.\<close>

definition equal_fold :: "lib \<Rightarrow> string \<Rightarrow> string \<Rightarrow> bool" where
  "equal_fold lib a b = (to_lower (l_lower lib) a = to_lower (l_lower lib) b)"

definition handlePagePhoto :: "lib \<Rightarrow> 'z web_handler" where
  "handlePagePhoto lib r w = (case (keyFromFile (PathValue r ''file''), HandleFrom r) of
     (Some key, Some handle) \<Rightarrow>
       on_result (ByPhotoKey key)
         (\<lambda>err. if err = ErrUserNotFound then answer (http_NotFound w) else answer (internal_error w))
         (\<lambda>u. if \<not> equal_fold lib (Handle u) handle then answer (http_NotFound w)
            else servePhotoFile lib r key (set_header ''Cache-Control'' immutable w))
   | _ \<Rightarrow> answer (http_NotFound w))"

text \<open>
  A photo the database names and the disk does not have: the answer is a 404 that still carries the
  year-long \<open>Cache-Control\<close> meant for the photo, because \<open>handlePagePhoto\<close> sets it before the file
  is opened and \<open>http.NotFound\<close> keeps it.
\<close>

lemma missing_photo_answer_cached:
  assumes "keyFromFile (PathValue r ''file'') = Some key" and "HandleFrom r = Some handle"
    and "run_state (ByPhotoKey key) w = (Inr u, w1)" and "equal_fold lib (Handle u) handle"
    and "w_files w1 (key @ ext) = None"
  shows "Status (fst (run_state (handlePagePhoto lib r wr) w)) = 404"
    and "RHeader (fst (run_state (handlePagePhoto lib r wr) w)) ''Cache-Control'' = [immutable]"
proof -
  have "ValidKey key"
    using assms(1) by (auto simp: keyFromFile_def split: option.splits if_splits)
  then have "\<exists>e w2. run_state (Open key) w1 = (Inl e, w2)"
    using assms(5) by (cases "w_disk_faults w1") (auto simp: Open_def path_def run_simps)
  then obtain e w2 where "run_state (Open key) w1 = (Inl e, w2)" by blast
  then have "fst (run_state (handlePagePhoto lib r wr) w) =
      http_NotFound (set_header ''Cache-Control'' immutable wr)"
    using assms(1-4) by (simp add: handlePagePhoto_def servePhotoFile_def run_simps)
  then show "Status (fst (run_state (handlePagePhoto lib r wr) w)) = 404"
    and "RHeader (fst (run_state (handlePagePhoto lib r wr) w)) ''Cache-Control'' = [immutable]"
    by (simp_all add: http_NotFound_def http_Error_def respond_def set_header_def)
qed

definition handleAppPhoto :: "lib \<Rightarrow> 'z web_handler" where
  "handleAppPhoto lib r w = (case (keyFromFile (PathValue r ''file''), UserFrom r) of
     (Some key, Some u) \<Rightarrow>
       if PhotoKey u \<noteq> key then answer (http_NotFound w) else servePhotoFile lib r key w
   | _ \<Rightarrow> answer (http_NotFound w))"

end
