(* ===== verification/Router.thy ===== *)
theory Router
  imports GuestbookWeb StyleWeb PhotoWeb
begin

text \<open>
  \<open>internal/web/router.go\<close>: the routes of the two surfaces, the split by host name and the whole
  chain of middleware, from an incoming request to its response.
\<close>

section \<open>The multiplexer\<close>

text \<open>
  The patterns the program registers with \<open>http.ServeMux\<close>: a method, and a path of literal segments
  and single-segment wildcards.  \<open>/{$}\<close> is the literal path whose only segment is empty.  A wildcard
  matches one segment that is not empty, and a pattern for GET serves HEAD as well.
\<close>

datatype seg = Lit string | Wild string

type_synonym 'h route = "string \<times> seg list \<times> 'h"

fun match_path :: "seg list \<Rightarrow> string list \<Rightarrow> (string \<times> string) list option" where
  "match_path [] [] = Some []"
| "match_path (Lit l # ps) (s # ss) = (if l = s then match_path ps ss else None)"
| "match_path (Wild x # ps) (s # ss) = (if s = [] then None else map_option (Cons (x, s)) (match_path ps ss))"
| "match_path _ _ = None"

definition method_serves :: "string \<Rightarrow> string \<Rightarrow> bool" where
  "method_serves meth m = (m = meth \<or> meth = ''GET'' \<and> m = ''HEAD'')"

definition route_values :: "request \<Rightarrow> 'h route \<Rightarrow> ((string \<times> string) list \<times> 'h) option" where
  "route_values r rt = (case rt of (meth, ps, h) \<Rightarrow>
     if method_serves meth (Method r) then map_option (\<lambda>vs. (vs, h)) (match_path ps (Segments r)) else None)"

fun find_route :: "request \<Rightarrow> 'h route list \<Rightarrow> ((string \<times> string) list \<times> 'h) option" where
  "find_route r [] = None"
| "find_route r (rt # rts) = (case route_values r rt of Some x \<Rightarrow> Some x | None \<Rightarrow> find_route r rts)"

definition allowed_methods :: "request \<Rightarrow> 'h route list \<Rightarrow> string" where
  "allowed_methods r rts =
     (let has = (\<lambda>m. list_ex (\<lambda>rt. case rt of (meth, ps, _) \<Rightarrow> meth = m \<and> match_path ps (Segments r) \<noteq> None) rts)
      in if has ''GET'' \<and> has ''POST'' then ''GET, HEAD, POST'' else if has ''GET'' then ''GET, HEAD''
         else if has ''POST'' then ''POST'' else [])"

definition mux :: "lib \<Rightarrow> 'z site_handler route list \<Rightarrow> 'z site_handler" where
  "mux lib rts r w =
     (if \<not> CleanPath r \<and> Method r \<noteq> ''CONNECT'' then answer (l_mux_redirect lib r w)
      else (case find_route r rts of
          Some (vs, h) \<Rightarrow> h (r\<lparr>PathValues := vs\<rparr>) w
        | None \<Rightarrow>
            (let allow = allowed_methods r rts in
             if allow \<noteq> [] then answer (http_Error ''Method Not Allowed'' 405 (set_header ''Allow'' allow w))
             else answer (http_NotFound w))))"

section \<open>The routes\<close>

text \<open>
  The server's dependencies, and what one request draws: random bytes, tokens and identifiers, the
  place of a random page, the wait for the processing slot, the name of a temporary file.
\<close>

record server =
  sv_Config :: Config
  sv_lib :: lib
  sv_assets :: assets
  sv_codecs :: codecs

record draws =
  dr_buf :: bytes
  dr_rid :: uuid
  dr_token :: string
  dr_uid :: uuid
  dr_sid :: uuid
  dr_session :: string
  dr_nonce :: string
  dr_pick :: nat
  dr_slot :: slot_wait
  dr_key :: bytes
  dr_tmp :: string

text \<open>\<open>s.now()\<close>, read when the handler runs.\<close>

definition at_now :: "(instant \<Rightarrow> 'z site_handler) \<Rightarrow> 'z site_handler" where
  "at_now h r w = do { now \<leftarrow> State (\<lambda>s. (s_clock s, s)); h now r w }"

definition handleHealth :: "'z handler" where
  "handleHealth r w = answer (respond 200 (Text (''ok'' @ [LF]))
     (set_header ''Content-Type'' ''text/plain; charset=utf-8'' w))"

definition appRoutes :: "server \<Rightarrow> draws \<Rightarrow> 'z site_handler route list" where
  "appRoutes sv dr =
     (let lib = sv_lib sv; cfg = sv_Config sv; as = sv_assets sv in
      [(''GET'', [Lit ''healthz''], handleHealth),
       (''GET'', [Lit ''app.css''], handleAppCSS as),
       (''GET'', [Lit ''theme.css''], handleTheme as),
       (''GET'', [Lit ''preview.css''], handlePreviewCSS as),
       (''GET'', [Lit ''style'', Lit ''preview.css''], handleStylePreviewCSS),
       (''GET'', [Lit ''fonts'', Wild ''file''], handleFont as),
       (''GET'', [Lit ''''], at_now (handleAppHome lib cfg)),
       (''GET'', [Lit ''login''], handleLoginForm),
       (''POST'', [Lit ''login''],
          rateLimit Writes (rateLimit Logins48 (handleLoginRequest lib cfg (dr_rid dr) (dr_token dr)))),
       (''GET'', [Lit ''login'', Wild ''token''], handleLoginConfirm (dr_nonce dr)),
       (''POST'', [Lit ''login'', Wild ''token''],
          handleLoginComplete lib (dr_uid dr) (dr_sid dr) (dr_session dr)),
       (''POST'', [Lit ''logout''], handleLogout lib),
       (''GET'', [Lit ''handle''], handleClaimForm),
       (''POST'', [Lit ''handle''], rateLimit Writes (at_now (handleClaimSubmit lib))),
       (''POST'', [Lit ''mood''], rateLimit Writes (at_now (\<lambda>now. handleMoodSubmit lib cfg now (dr_rid dr)))),
       (''POST'', [Lit ''name''], rateLimit Writes (at_now (handleNameSubmit lib cfg))),
       (''POST'', [Lit ''style''], rateLimit Writes (at_now (handleStyleSubmit lib cfg))),
       (''POST'', [Lit ''photo''], rateLimit Writes (at_now (\<lambda>now.
          handlePhotoUpload lib cfg (sv_codecs sv) now (dr_slot dr) (dr_key dr) (dr_tmp dr)))),
       (''POST'', [Lit ''photo'', Lit ''remove''], rateLimit Writes (handlePhotoRemove lib)),
       (''GET'', [Lit ''photo'', Wild ''file''], handleAppPhoto lib),
       (''GET'', [Lit ''privacy''], handlePrivacy cfg),
       (''GET'', [Lit ''terms''], handleTerms cfg),
       (''GET'', [Lit ''account'', Lit ''delete''], handleAccountDeleteForm),
       (''POST'', [Lit ''account'', Lit ''delete''], rateLimit Writes (at_now (handleAccountDelete lib))),
       (''GET'', [Lit ''account'', Lit ''deleted''], handleAccountDeleted),
       (''GET'', [Lit ''sign'', Wild ''handle''], handleGuestbookForm lib cfg),
       (''POST'', [Lit ''sign'', Wild ''handle''], rateLimit Writes (handleGuestbookSign lib cfg (dr_rid dr))),
       (''POST'', [Lit ''guestbook'', Lit ''entries'', Wild ''id'', Lit ''hide''],
          rateLimit Writes (handleGuestbookHide lib)),
       (''POST'', [Lit ''guestbook'', Lit ''entries'', Wild ''id'', Lit ''show''],
          rateLimit Writes (handleGuestbookShow lib)),
       (''GET'', [Lit ''random''], handleRandom cfg (dr_pick dr))])"

definition pageRoutes :: "server \<Rightarrow> 'z site_handler route list" where
  "pageRoutes sv =
     (let lib = sv_lib sv; cfg = sv_Config sv; as = sv_assets sv in
      [(''GET'', [Lit ''''], handlePage lib cfg),
       (''GET'', [Lit ''theme.css''], handleTheme as),
       (''GET'', [Lit ''style.css''], handleStyleCSS lib),
       (''GET'', [Lit ''fonts'', Wild ''file''], handleFont as),
       (''GET'', [Lit ''og.png''], rateLimit Reads (handleOGImage lib as)),
       (''GET'', [Lit ''photo'', Wild ''file''], rateLimit Reads (handlePagePhoto lib))])"

section \<open>From a request to its response\<close>

definition hostSplit :: "server \<Rightarrow> 'z site_handler \<Rightarrow> 'z site_handler \<Rightarrow> 'z site_handler" where
  "hostSplit sv app pages r w =
     (let lower = l_lower (sv_lib sv); cfg = sv_Config sv;
          appHost = canonicalHost lower (AppHost cfg); pagesHost = canonicalHost lower (PagesHost cfg);
          host = canonicalHost lower (Host r)
      in if host = appHost then app r w
         else if host = pagesHost then answer (http_Redirect (BaseURL cfg @ ''/'') 302 w)
         else (case handleFromHost host pagesHost of
             None \<Rightarrow> answer (http_NotFound w)
           | Some handle \<Rightarrow> pages (withHandle r handle) w))"

definition app_surface :: "server \<Rightarrow> draws \<Rightarrow> 'z site_handler" where
  "app_surface sv dr = Chain (mux (sv_lib sv) (appRoutes sv dr))
     [AppCSP, PrivateCache, CrossOrigin (sv_lib sv), BodyLimit, CurrentUser (sv_lib sv)]"

definition page_surface :: "server \<Rightarrow> 'z site_handler" where
  "page_surface sv = Chain (mux (sv_lib sv) (pageRoutes sv)) [PagesCSP]"

text \<open>
  \<open>Recover\<close> has no part in the chain: no handler of the model panics.  The limiters, which the code
  creates here, are fields of the state; \<open>new_limiters\<close> are their initial values.
\<close>

definition Handler :: "server \<Rightarrow> draws \<Rightarrow> 'z site_handler" where
  "Handler sv dr = Chain (hostSplit sv (app_surface sv dr) (page_surface sv))
     [RequestID (dr_buf dr), RequestLogger, SecurityHeaders (IsProduction (sv_Config sv))]"

definition new_limiters :: "rateLimiter \<times> rateLimiter \<times> rateLimiter" where
  "new_limiters = (newRateLimiter writeRateBurst writeRateRefill limiterIdleTTL, newNetworkLimiter,
     newRateLimiter ogRateBurst ogRateRefill limiterIdleTTL)"

lemma Chain_simps [simp]: "Chain h [] = h" "Chain h (m # ms) = m (Chain h ms)"
  by (simp_all add: Chain_def)

end
