(* ===== verification/AccountProps.thy ===== *)
theory AccountProps
  imports AccountFacts Login
begin

text \<open>
  What the account service promises about handles, deletion and photos, as properties of its
  methods.
\<close>

section \<open>One user row changed\<close>

lemma map_if_other:
  "(\<And>x. x \<in> set xs \<Longrightarrow> P x \<Longrightarrow> k (f x) = k x) \<Longrightarrow> map k (map (\<lambda>x. if P x then f x else x) xs) = map k xs"
  by simp

lemma map_if_absent:
  "i u \<notin> i ` set xs \<Longrightarrow> map (\<lambda>x. if i x = i u then f x else x) xs = xs"
  by (intro map_idI) (auto simp: image_iff)

lemma set_column_set:
  assumes "distinct (map i xs)" "u \<in> set xs" "g u = None" "g (f u) = Some v"
  shows "set (column g (map (\<lambda>x. if i x = i u then f x else x) xs)) = insert v (set (column g xs))"
  using assms(1,2)
proof (induction xs)
  case (Cons y ys)
  show ?case
  proof (cases "y = u")
    case True
    then show ?thesis using Cons.prems(1) assms(3,4) by (simp add: map_if_absent)
  next
    case False
    then have "u \<in> set ys" "i y \<noteq> i u" using Cons.prems by auto
    then show ?thesis using Cons by (auto split: option.splits)
  qed
qed simp

lemma distinct_column_set:
  assumes "distinct (map i xs)" "u \<in> set xs" "g u = None" "g (f u) = Some v"
  shows "distinct (column g (map (\<lambda>x. if i x = i u then f x else x) xs)) \<longleftrightarrow>
    distinct (column g xs) \<and> v \<notin> set (column g xs)"
  using assms(1,2)
proof (induction xs)
  case (Cons y ys)
  show ?case
  proof (cases "y = u")
    case True
    then show ?thesis using Cons.prems(1) assms(3,4) by (auto simp: map_if_absent)
  next
    case False
    then have u: "u \<in> set ys" and ne: "i y \<noteq> i u" and d: "distinct (map i ys)"
      using Cons.prems by auto
    show ?thesis
      using Cons.IH [OF d u] set_column_set [where f = f and g = g, OF d u assms(3,4)] ne by (auto split: option.splits)
  qed
qed simp

definition claimed :: "string \<Rightarrow> instant \<Rightarrow> user_row \<Rightarrow> user_row" where
  "claimed h at u = u\<lparr>u_handle := Some h, u_state := ''active'', u_terms_accepted_at := Some at\<rparr>"

lemma claimed_simps [simp]:
  "u_id (claimed h at u) = u_id u" "u_email (claimed h at u) = u_email u"
  "u_handle (claimed h at u) = Some h" "u_photo_key (claimed h at u) = u_photo_key u"
  "user_check (claimed h at u) = user_check u"
  by (simp_all add: claimed_def user_check_def)

definition handle_held :: "(string \<Rightarrow> string) \<Rightarrow> string \<Rightarrow> db \<Rightarrow> bool" where
  "handle_held L h d = (L h \<in> set (column (\<lambda>u. map_option L (u_handle u)) (users d)))"

lemma claim_update:
  assumes ok: "users_ok L (users d)" and u: "u \<in> set (users d)" "u_handle u = None" "u_id u = uid"
    and P: "\<And>x. x \<in> set (users d) \<Longrightarrow> P x = (u_id x = uid)"
  shows "update_users L P (claimed h at) d = (if handle_held L h d then Inl unique_violation
    else Inr (d\<lparr>users := map (\<lambda>x. if u_id x = uid then claimed h at x else x) (users d)\<rparr>))"
proof -
  have us: "map (\<lambda>x. if P x then claimed h at x else x) (users d) =
      map (\<lambda>x. if u_id x = uid then claimed h at x else x) (users d)" (is "?us = ?vs")
    using P by (intro map_cong) auto
  have chk: "list_all user_check ?vs"
    using ok by (intro list_all_map_upd) (auto simp: users_ok_def)
  have ids: "distinct (map u_id (users d))"
    using ok by (simp add: users_ok_def user_keys_def)
  have "map u_id ?vs = map u_id (users d)" "map (\<lambda>u. L (u_email u)) ?vs = map (\<lambda>u. L (u_email u)) (users d)"
    by (intro map_if_other; simp)+
  moreover have "column u_photo_key ?vs = column u_photo_key (users d)"
    by (intro column_map_same) simp
  moreover have "distinct (column (\<lambda>u. map_option L (u_handle u)) ?vs) \<longleftrightarrow>
      distinct (column (\<lambda>u. map_option L (u_handle u)) (users d)) \<and> \<not> handle_held L h d"
    using distinct_column_set [OF ids u(1), of "\<lambda>u. map_option L (u_handle u)" "claimed h at" "L h"] u(2,3)
    by (simp add: handle_held_def)
  ultimately have "user_keys L ?vs \<longleftrightarrow> \<not> handle_held L h d"
    using ok by (simp add: users_ok_def user_keys_def del: map_map)
  then show ?thesis
    using chk by (simp add: update_users_def Let_def us del: map_map)
qed

lemma claimed_fold:
  "(\<lambda>u. u\<lparr>u_handle := Some h, u_state := ''active'', u_terms_accepted_at := Some at\<rparr>) = claimed h at"
  by (simp add: fun_eq_iff claimed_def)

text \<open>The claim statement, for an account that exists.\<close>

lemma ClaimHandle_row:
  assumes ok: "users_ok L (users d)" and u: "find (\<lambda>u. u_id u = uid) (users d) = Some u"
  shows "ClaimHandle L h at uid r now d =
    (if u_handle u \<noteq> None \<or> reserved L h (at - r) d then (Inl NoRows, d)
     else if handle_held L h d then (Inl unique_violation, d)
     else (Inr (claimed h at u),
        d\<lparr>users := map (\<lambda>x. if u_id x = uid then claimed h at x else x) (users d)\<rparr>))"
proof -
  let ?P = "\<lambda>u. u_id u = uid \<and> u_handle u = None \<and> \<not> reserved L h (at - r) d"
  have mem: "u \<in> set (users d)" "u_id u = uid" using find_Some_in [OF u] by auto
  have ids: "distinct (map u_id (users d))"
    using ok by (simp add: users_ok_def user_keys_def)
  have only: "x = u" if "x \<in> set (users d)" "u_id x = uid" for x
    using distinct_map_filter_inj [OF ids that(1) mem(1)] that(2) mem(2) by simp
  show ?thesis
  proof (cases "u_handle u \<noteq> None \<or> reserved L h (at - r) d")
    case True
    then have "find ?P (users d) = None"
      using only by (auto simp: find_None_all)
    then show ?thesis using True by (simp add: ClaimHandle_def)
  next
    case False
    have P: "?P x = (u_id x = uid)" if "x \<in> set (users d)" for x
      using that only False by auto
    have "find ?P (users d) = find (\<lambda>u. u_id u = uid) (users d)"
      using P by (intro find_cong) auto
    then have "find ?P (users d) = Some u" using u by simp
    then show ?thesis
      using False claim_update [OF ok mem(1) _ mem(2) P, of h at]
      by (simp add: ClaimHandle_def Let_def claimed_fold split: option.splits)
  qed
qed

text \<open>C20: Claiming a handle, with nothing failing, on a database the schema accepts: refused with the
  error of the first rule it breaks, and then nothing changes; otherwise the account becomes
  active under the handle, with its acceptance time, and no other row changes.\<close>

theorem ClaimHandle_outcome:
  assumes "db_ok L (c_db w)" and "accounts_ok (c_db w)" and "c_faults w = []"
  shows "run_state (ClaimHandle_service L uid h now) w =
    (if \<not> ValidHandle h then (Inl ErrInvalidHandle, w)
     else case find (\<lambda>u. u_id u = uid) (users (c_db w)) of
       None \<Rightarrow> (Inl ErrUserNotFound, w)
     | Some u \<Rightarrow>
         if u_handle u \<noteq> None then (Inl ErrHandleAlreadySet, w)
         else if reserved L h (now - 90 * day) (c_db w) \<or> handle_held L h (c_db w)
         then (Inl ErrHandleTaken, w)
         else (Inr (fromRow (claimed h now u)), w\<lparr>c_db := (c_db w)\<lparr>users :=
             map (\<lambda>x. if u_id x = uid then claimed h now x else x) (users (c_db w))\<rparr>\<rparr>))"
proof (cases "find (\<lambda>u. u_id u = uid) (users (c_db w))")
  case None
  then have "find (\<lambda>u. u_id u = uid \<and> Q u) (users (c_db w)) = None" for Q
    by (auto simp: find_None_all)
  then show ?thesis
    using None assms(3)
    by (simp add: ClaimHandle_service_def run_simps ClaimHandle_def Let_def isUniqueViolation_def
        claimRefusal_def GetByID_def GetUserByID_def no_rows_as_def)
next
  case (Some u)
  have ok: "users_ok L (users (c_db w))" using assms(1) by (simp add: db_ok_def)
  have "account_ok u"
    using assms(2) find_Some_in [OF Some] by (simp add: accounts_ok_def list_all_iff)
  then have ne: "u_handle u = Some x \<Longrightarrow> x \<noteq> []" for x
    using ValidHandle_nonempty by (auto simp: account_ok_def)
  show ?thesis
    using Some assms(3) ne ClaimHandle_row [OF ok Some, of h now DeletedHandleReservation "c_now w"]
    by (auto simp: ClaimHandle_service_def run_simps isUniqueViolation_def claimRefusal_def
        GetByID_def GetUserByID_def no_rows_as_def DeletedHandleReservation_def)
qed

definition demo_db :: db where
  "demo_db = empty_db\<lparr>users := [new_user 3 ''ana@example.com'' 0,
     claimed ''beto'' 5 (new_user 4 ''beto@example.com'' 0)]\<rparr>"

definition demo_w :: conn where
  "demo_w = \<lparr>c_db = demo_db, c_now = 1000000, c_faults = []\<rparr>"

lemma email_shape_example: "CHR ''@'' \<notin> set n \<Longrightarrow> email_shape (n @ ''@example.com'')"
  unfolding email_shape_def by (rule exI [of _ n], rule exI [of _ "''example.com''"]) (auto simp: suffix_to_prefix)

lemma demo_shapes: "email_shape ''ana@example.com''" "email_shape ''beto@example.com''"
  using email_shape_example [of "''ana''"] email_shape_example [of "''beto''"] by simp_all

lemma demo_handles: "ValidHandle ''ana''" "ValidHandle ''beto''"
  by code_simp+

lemma demo_db_ok: "db_ok id demo_db" and demo_accounts_ok: "accounts_ok demo_db"
  using demo_shapes demo_handles
  by (simp_all add: demo_db_def db_ok_def table_defs empty_db_def new_user_def claimed_def
      user_check_def accounts_ok_def account_ok_def StateActive_def StatePendingHandle_def)

lemma ClaimHandle_outcome_witness:
  "fst (run_state (ClaimHandle_service id 3 ''beto'' 2000000) demo_w) = Inl ErrHandleTaken \<and>
   fst (run_state (ClaimHandle_service id 4 ''ana'' 2000000) demo_w) = Inl ErrHandleAlreadySet"
proof -
  have "c_db demo_w = demo_db" "c_faults demo_w = []" by (simp_all add: demo_w_def)
  then show ?thesis
    using ClaimHandle_outcome [of id demo_w 3 "''beto''" 2000000]
      ClaimHandle_outcome [of id demo_w 4 "''ana''" 2000000] demo_db_ok demo_accounts_ok demo_handles
    by (simp add: demo_db_def empty_db_def new_user_def claimed_def reserved_def handle_held_def)
qed

section \<open>Deleting an account\<close>

definition mentions :: "uuid \<Rightarrow> db \<Rightarrow> bool" where
  "mentions uid d = (uid \<in> user_ids d \<or> uid \<in> s_user_id ` set (sessions d) \<or>
     uid \<in> m_user_id ` set (moods d) \<or> uid \<in> h_user_id ` set (mood_history d) \<or>
     uid \<in> g_page_user_id ` set (guestbook_entries d) \<or>
     uid \<in> g_author_user_id ` set (guestbook_entries d) \<or> uid \<in> ps_user_id ` set (page_styles d))"

lemma DeleteUser_mentions: "\<not> mentions uid (snd (DeleteUser uid now d))"
  by (auto simp: mentions_def DeleteUser_def user_ids_def)

definition forgets :: "(string \<Rightarrow> string) \<Rightarrow> user_row \<Rightarrow> db \<Rightarrow> db \<Rightarrow> bool" where
  "forgets L u d d' = (
     users d' = filter (\<lambda>x. u_id x \<noteq> u_id u) (users d) \<and>
     login_tokens d' = filter (\<lambda>t. L (lt_email t) \<noteq> L (u_email u)) (login_tokens d) \<and>
     sessions d' = filter (\<lambda>s. s_user_id s \<noteq> u_id u) (sessions d) \<and>
     moods d' = filter (\<lambda>m. m_user_id m \<noteq> u_id u) (moods d) \<and>
     mood_history d' = filter (\<lambda>h. h_user_id h \<noteq> u_id u) (mood_history d) \<and>
     guestbook_entries d' = filter (\<lambda>g. g_page_user_id g \<noteq> u_id u \<and> g_author_user_id g \<noteq> u_id u)
       (guestbook_entries d) \<and>
     page_styles d' = filter (\<lambda>p. ps_user_id p \<noteq> u_id u) (page_styles d))"

lemma ReserveDeletedHandle_Inr:
  assumes "fst (ReserveDeletedHandle L h t now d) = Inr x"
  shows "\<exists>ds. snd (ReserveDeletedHandle L h t now d) = d\<lparr>deleted_handles := ds\<rparr> \<and>
    \<lparr>d_handle = L h, d_deleted_at = t\<rparr> \<in> set ds"
proof -
  define ds where "ds = (if L h \<in> set (map d_handle (deleted_handles d))
    then map (\<lambda>r. if d_handle r = L h then \<lparr>d_handle = L h, d_deleted_at = t\<rparr> else r) (deleted_handles d)
    else deleted_handles d @ [\<lparr>d_handle = L h, d_deleted_at = t\<rparr>])"
  have "snd (ReserveDeletedHandle L h t now d) = d\<lparr>deleted_handles := ds\<rparr>"
    using assms by (auto simp: ReserveDeletedHandle_def Let_def ds_def)
  moreover have "\<lparr>d_handle = L h, d_deleted_at = t\<rparr> \<in> set ds"
    by (auto simp: ds_def image_iff)
  ultimately show ?thesis by blast
qed

definition delete_rest :: "(string \<Rightarrow> string) \<Rightarrow> uuid \<Rightarrow> User \<Rightarrow> ('z, user_err + string) prog" where
  "delete_rest L uid u =
     attempt (exec (DeleteLoginTokensForEmail L (Email u))) (UserWrap ''delete login tokens'') (\<lambda>_.
     attempt (exec (DeleteUser uid)) (UserWrap ''delete user'') (\<lambda>_.
     State_Monad.return (Inr (PhotoKey u))))"

lemma DeleteAccount_rest: "DeleteAccount L uid now =
     in_tx (UserWrap ''begin'') (UserWrap ''commit'')
       (attempt (exec (LockUserForDelete uid)) (no_rows_as ErrUserNotFound ''lock user'') (\<lambda>row.
        attempt (if Handle (fromRow row) \<noteq> [] then exec (ReserveDeletedHandle L (Handle (fromRow row)) now)
                 else State_Monad.return (Inr ())) (UserWrap ''reserve handle'')
          (\<lambda>_. delete_rest L uid (fromRow row))))"
  by (simp add: DeleteAccount_def delete_rest_def Let_def)

lemma delete_rest_Inr:
  assumes "run_state (delete_rest L (u_id row) (fromRow row)) w = (Inr key, w')"
  shows "key = key_or_empty (u_photo_key row)" "forgets L row (c_db w) (c_db w')"
    "deleted_handles (c_db w') = deleted_handles (c_db w)"
  using assms unfolding delete_rest_def
  by (auto simp: key_or_empty_def forgets_def DeleteLoginTokensForEmail_def DeleteUser_def
      elim!: attempt_exec_Inr)

lemma DeleteAccount_Inr:
  assumes "run_state (DeleteAccount L uid now) w = (Inr key, w')"
  obtains u where "find (\<lambda>u. u_id u = uid) (users (c_db w)) = Some u" and "key = key_or_empty (u_photo_key u)"
    and "forgets L u (c_db w) (c_db w')"
    and "Handle (fromRow u) \<noteq> [] \<Longrightarrow>
      \<lparr>d_handle = L (Handle (fromRow u)), d_deleted_at = now\<rparr> \<in> set (deleted_handles (c_db w'))"
  using assms unfolding DeleteAccount_rest
proof (elim in_tx_Inr attempt_exec_Inr)
  fix fs wb fs' row gs
  let ?h = "Handle (fromRow row)"
  let ?q = "ReserveDeletedHandle L ?h now"
  assume lock: "fst (LockUserForDelete uid (c_now (w\<lparr>c_faults := fs\<rparr>)) (c_db (w\<lparr>c_faults := fs\<rparr>))) = Inr row"
    and rest: "run_state (attempt (if ?h \<noteq> [] then exec ?q else State_Monad.return (Inr ()))
        (UserWrap ''reserve handle'') (\<lambda>_. delete_rest L uid (fromRow row)))
      (w\<lparr>c_faults := fs, c_db := snd (LockUserForDelete uid (c_now (w\<lparr>c_faults := fs\<rparr>))
        (c_db (w\<lparr>c_faults := fs\<rparr>))), c_faults := gs\<rparr>) = (Inr key, wb)"
    and w': "w' = wb\<lparr>c_faults := fs'\<rparr>"
  have found: "find (\<lambda>u. u_id u = uid) (users (c_db w)) = Some row" and row: "u_id row = uid"
    using lock by (auto simp: LockUserForDelete_def find_Some_iff split: option.splits)
  have same: "snd (LockUserForDelete uid now' d) = d" for now' d
    using reads_LockUserForDelete [of uid] by (simp add: reads_def)
  show thesis
  proof (cases "?h = []")
    case True
    then have "run_state (delete_rest L uid (fromRow row)) (w\<lparr>c_db := c_db w, c_faults := gs\<rparr>) = (Inr key, wb)"
      using rest by (simp add: run_attempt same del: fromRow_simps)
    from delete_rest_Inr [OF this [folded row]] show thesis
      using True w' found by (intro that) auto
  next
    case False
    then have "run_state (attempt (exec ?q) (UserWrap ''reserve handle'') (\<lambda>_. delete_rest L uid (fromRow row)))
      (w\<lparr>c_db := c_db w, c_faults := gs\<rparr>) = (Inr key, wb)"
      using rest by (simp add: same del: fromRow_simps)
    then show thesis
    proof (rule attempt_exec_Inr)
      fix x hs
      assume res: "fst (?q (c_now (w\<lparr>c_db := c_db w, c_faults := gs\<rparr>)) (c_db (w\<lparr>c_db := c_db w, c_faults := gs\<rparr>))) = Inr x"
        and run: "run_state (delete_rest L uid (fromRow row)) (w\<lparr>c_db := c_db w, c_faults := gs,
          c_db := snd (?q (c_now (w\<lparr>c_db := c_db w, c_faults := gs\<rparr>)) (c_db (w\<lparr>c_db := c_db w, c_faults := gs\<rparr>))),
          c_faults := hs\<rparr>) = (Inr key, wb)"
      obtain ds where ds: "snd (?q (c_now w) (c_db w)) = (c_db w)\<lparr>deleted_handles := ds\<rparr>"
        "\<lparr>d_handle = L ?h, d_deleted_at = now\<rparr> \<in> set ds"
        using ReserveDeletedHandle_Inr [OF res] by (auto simp del: fromRow_simps)
      from delete_rest_Inr [OF run [folded row]] show thesis
        using w' found ds by (intro that) (auto simp: forgets_def simp del: fromRow_simps)
    qed
  qed
qed

text \<open>C18: Whatever fails, and at whatever call, \<open>DeleteAccount\<close> either leaves every table as it was, or
  deletes everything: the account and every row of it in every table, as owner and as author, and
  its login tokens, keeping all other rows, with the handle reserved from now.\<close>

theorem DeleteAccount_all_or_nothing:
  "case run_state (DeleteAccount L uid now) w of (r, w') \<Rightarrow>
    (case r of Inl _ \<Rightarrow> c_db w' = c_db w
     | Inr key \<Rightarrow> \<exists>u. find (\<lambda>u. u_id u = uid) (users (c_db w)) = Some u \<and>
         key = key_or_empty (u_photo_key u) \<and> forgets L u (c_db w) (c_db w') \<and>
         \<not> mentions uid (c_db w') \<and>
         (Handle (fromRow u) \<noteq> [] \<longrightarrow> (\<forall>since < now. reserved L (Handle (fromRow u)) since (c_db w'))))"
proof -
  obtain r w' where run: "run_state (DeleteAccount L uid now) w = (r, w')" by fastforce
  show ?thesis
  proof (cases r)
    case (Inl e)
    then show ?thesis using run in_tx_Inl unfolding DeleteAccount_rest by fastforce
  next
    case (Inr key)
    from run [unfolded Inr] show ?thesis
    proof (rule DeleteAccount_Inr)
      fix u
      assume u: "find (\<lambda>u. u_id u = uid) (users (c_db w)) = Some u" "key = key_or_empty (u_photo_key u)"
        and f: "forgets L u (c_db w) (c_db w')"
        and h: "Handle (fromRow u) \<noteq> [] \<Longrightarrow>
          \<lparr>d_handle = L (Handle (fromRow u)), d_deleted_at = now\<rparr> \<in> set (deleted_handles (c_db w'))"
      have "u_id u = uid" using find_Some_in [OF u(1)] by simp
      then have "\<not> mentions uid (c_db w')"
        using f by (auto simp: mentions_def forgets_def user_ids_def)
      moreover have "reserved L (Handle (fromRow u)) since (c_db w')"
        if "Handle (fromRow u) \<noteq> []" "since < now" for since
        using h [OF that(1)] that(2) unfolding reserved_def list_ex_iff
        by (intro bexI) (auto simp del: fromRow_simps)
      ultimately show ?thesis using run Inr u f by auto
    qed
  qed
qed

text \<open>C19: For ninety days nobody else can take the address of a deleted page: any claim of its handle
  on the tables the deletion left, by any account, is refused and changes nothing.\<close>

theorem deleted_handle_reserved:
  assumes "run_state (DeleteAccount L uid now) w = (Inr key, w1)"
    and "find (\<lambda>u. u_id u = uid) (users (c_db w)) = Some u" and "u_handle u = Some h"
    and "db_ok L (c_db w1)" "accounts_ok (c_db w1)" "ValidHandle h" "ValidHandle h'" "L h' = L h"
    and "now' < now + 90 * day" and "c_db w2 = c_db w1" "c_faults w2 = []"
  shows "\<exists>e. run_state (ClaimHandle_service L uid' h' now') w2 = (Inl e, w2)"
proof -
  have "Handle (fromRow u) = h" "h \<noteq> []"
    using assms(3,6) ValidHandle_nonempty by auto
  moreover have "u' = u" if "find (\<lambda>u. u_id u = uid) (users (c_db w)) = Some u'" for u'
    using that assms(2) by simp
  ultimately have "\<lparr>d_handle = L h, d_deleted_at = now\<rparr> \<in> set (deleted_handles (c_db w1))"
    using DeleteAccount_Inr [OF assms(1)] by metis
  then have "reserved L h' (now' - 90 * day) (c_db w1)"
    using assms(8,9) unfolding reserved_def list_ex_iff
    by (intro bexI [of _ "\<lparr>d_handle = L h, d_deleted_at = now\<rparr>"]) auto
  then show ?thesis
    using ClaimHandle_outcome [of L w2 uid' h' now'] assms(4,5,7,10,11)
    by (cases "find (\<lambda>u. u_id u = uid') (users (c_db w1))") auto
qed

lemma demo_delete: "run_state (DeleteAccount id 4 7) demo_w = (Inr [], demo_w\<lparr>c_db :=
    demo_db\<lparr>users := [new_user 3 ''ana@example.com'' 0],
      deleted_handles := [\<lparr>d_handle = ''beto'', d_deleted_at = 7\<rparr>]\<rparr>\<rparr>)"
  by (simp add: DeleteAccount_rest delete_rest_def in_tx_def run_simps demo_w_def demo_db_def
      empty_db_def LockUserForDelete_def ReserveDeletedHandle_def DeleteLoginTokensForEmail_def
      DeleteUser_def claimed_def new_user_def)

lemma DeleteAccount_all_or_nothing_witness:
  "\<not> mentions 4 (c_db (snd (run_state (DeleteAccount id 4 7) demo_w))) \<and>
   reserved id ''beto'' 6 (c_db (snd (run_state (DeleteAccount id 4 7) demo_w)))"
proof -
  have "find (\<lambda>u. u_id u = 4) (users (c_db demo_w)) =
      Some (claimed ''beto'' 5 (new_user 4 ''beto@example.com'' 0))"
    by (simp add: demo_w_def demo_db_def new_user_def claimed_def)
  then show ?thesis
    using DeleteAccount_all_or_nothing [where L = id and uid = 4 and now = 7 and w = demo_w]
    unfolding demo_delete by simp
qed

lemma deleted_handle_reserved_witness:
  "\<exists>e. run_state (ClaimHandle_service id 3 ''beto'' 1000)
     (snd (run_state (DeleteAccount id 4 7) demo_w)) =
     (Inl e, snd (run_state (DeleteAccount id 4 7) demo_w))"
proof -
  let ?w1 = "demo_w\<lparr>c_db := demo_db\<lparr>users := [new_user 3 ''ana@example.com'' 0],
      deleted_handles := [\<lparr>d_handle = ''beto'', d_deleted_at = 7\<rparr>]\<rparr>\<rparr>"
  have ok: "db_ok id (c_db ?w1)" "accounts_ok (c_db ?w1)"
    using demo_shapes
    by (simp_all add: demo_w_def demo_db_def db_ok_def table_defs empty_db_def new_user_def
        user_check_def accounts_ok_def account_ok_def StatePendingHandle_def)
  have found: "find (\<lambda>u. u_id u = 4) (users (c_db demo_w)) =
      Some (claimed ''beto'' 5 (new_user 4 ''beto@example.com'' 0))"
    by (simp add: demo_w_def demo_db_def new_user_def claimed_def)
  show ?thesis
    using deleted_handle_reserved [OF demo_delete found, of "''beto''" "''beto''" 1000 ?w1 3] ok demo_handles
    by (simp add: demo_delete) (simp add: demo_w_def)
qed

section \<open>Photos\<close>

lemma SetPhoto_Inr:
  assumes "fst (SetPhoto L uid key w h dayStart at now d) = Inr old"
  obtains u where "u \<in> set (users d)" "u_id u = uid" "u_can_upload_photos u"
    "null_or (\<lambda>t. t < dayStart) (u_photo_uploaded_at u)" "old = key_or_empty (u_photo_key u)"
  using assms
  by (auto simp: SetPhoto_def Let_def split: option.splits sum.splits dest!: find_Some_in intro: that)

definition photographed :: "string \<Rightarrow> int \<Rightarrow> int \<Rightarrow> instant \<Rightarrow> user_row \<Rightarrow> user_row" where
  "photographed key w h at u = u\<lparr>u_photo_key := Some key, u_photo_width := Some w,
     u_photo_height := Some h, u_photo_uploaded_at := Some at\<rparr>"

text \<open>The day's upload is spent: an account whose last upload is not before \<open>dayStart\<close>.\<close>

definition upload_spent :: "uuid \<Rightarrow> instant \<Rightarrow> db \<Rightarrow> bool" where
  "upload_spent uid dayStart d = list_all (\<lambda>u. u_id u = uid \<longrightarrow>
     \<not> null_or (\<lambda>t. t < dayStart) (u_photo_uploaded_at u)) (users d)"

lemma upload_spent_update:
  assumes "update_users L P f d = Inr d'" "upload_spent uid dayStart d"
    and "\<And>u. u_id (f u) = u_id u"
    and "\<And>u. u_photo_uploaded_at (f u) = u_photo_uploaded_at u \<or>
      \<not> null_or (\<lambda>t. t < dayStart) (u_photo_uploaded_at (f u))"
  shows "upload_spent uid dayStart d'"
proof -
  have "d' = d\<lparr>users := map (\<lambda>u. if P u then f u else u) (users d)\<rparr>"
    using update_usersD(1) [OF assms(1,3)] .
  moreover have "list_all (\<lambda>u. u_id u = uid \<longrightarrow> \<not> null_or (\<lambda>t. t < dayStart) (u_photo_uploaded_at u))
      (map (\<lambda>u. if P u then f u else u) (users d))"
    using assms(2,3,4) unfolding upload_spent_def by (intro list_all_map_upd) (auto, metis+)
  ultimately show ?thesis by (simp add: upload_spent_def)
qed

lemma SetPhoto_spends:
  assumes "fst (SetPhoto L uid key w h dayStart at now d) = Inr old" "dayStart \<le> at"
    and "distinct (map u_id (users d))"
  shows "upload_spent uid dayStart (snd (SetPhoto L uid key w h dayStart at now d))"
proof -
  let ?P = "\<lambda>u. u_id u = uid \<and> u_can_upload_photos u \<and> null_or (\<lambda>t. t < dayStart) (u_photo_uploaded_at u)"
  have fold: "(\<lambda>u. u\<lparr>u_photo_key := Some key, u_photo_width := Some w, u_photo_height := Some h,
      u_photo_uploaded_at := Some at\<rparr>) = photographed key w h at"
    by (simp add: fun_eq_iff photographed_def)
  obtain u d' where u: "find ?P (users d) = Some u"
    and d': "update_users L ?P (photographed key w h at) d = Inr d'"
      "snd (SetPhoto L uid key w h dayStart at now d) = d'"
    using assms(1) unfolding SetPhoto_def Let_def fold by (auto split: option.splits sum.splits)
  have mem: "u \<in> set (users d)" "?P u" using find_Some_in [OF u] by auto
  have only: "x = u" if "x \<in> set (users d)" "u_id x = uid" for x
    using distinct_map_filter_inj [OF assms(3) that(1) mem(1)] that(2) mem(2) by simp
  have "users d' = map (\<lambda>u. if ?P u then photographed key w h at u else u) (users d)"
    using update_usersD(1) [OF d'(1)] by (simp add: photographed_def)
  then show ?thesis
    unfolding upload_spent_def d'(2) using only mem(2) assms(2)
    by (auto simp: list_all_iff photographed_def)
qed

lemma upload_spent_refuses:
  assumes "upload_spent uid dayStart d"
  shows "SetPhoto L uid key w h dayStart at now d = (Inl NoRows, d)"
proof -
  have "find (\<lambda>u. u_id u = uid \<and> u_can_upload_photos u \<and>
      null_or (\<lambda>t. t < dayStart) (u_photo_uploaded_at u)) (users d) = None"
    using assms by (auto simp: find_None_all upload_spent_def list_all_iff)
  then show ?thesis by (simp add: SetPhoto_def)
qed

lemma upload_spent_RemovePhoto: "stmt_keeps (upload_spent uid dayStart) (RemovePhoto L uid')"
  by (rule stmt_keepsI)
    (auto simp: RemovePhoto_def Let_def split: option.splits sum.splits elim!: upload_spent_update)

lemma SetPhoto_service_spends:
  assumes "run_state (SetPhoto_service L uid key w h dayStart at) s = (Inr old, s1)"
    and "dayStart \<le> at" and "distinct (map u_id (users (c_db s)))"
  shows "upload_spent uid dayStart (c_db s1)"
  using assms(1) unfolding SetPhoto_service_def Let_def
proof (rule attempt_exec_Inr)
  fix v fs
  let ?q = "SetPhoto L uid key (int32 w) (int32 h) dayStart at"
  assume "fst (?q (c_now s) (c_db s)) = Inr v"
    and "run_state (State_Monad.return (Inr v)) (s\<lparr>c_db := snd (?q (c_now s) (c_db s)), c_faults := fs\<rparr>) =
      (Inr old, s1)"
  then have "fst (?q (c_now s) (c_db s)) = Inr v" "c_db s1 = snd (?q (c_now s) (c_db s))"
    by auto
  then show ?thesis using SetPhoto_spends [OF _ assms(2,3)] by simp
qed

text \<open>C21: One photo a day: after an upload recorded today, every further upload of that day is
  \<open>ErrPhotoNotAllowed\<close> and changes nothing, also when the photo was removed in between.\<close>

theorem one_photo_a_day:
  assumes "run_state (SetPhoto_service L uid key w h dayStart at) s = (Inr old, s1)"
    and "dayStart \<le> at" and "db_ok L (c_db s)" and "c_faults s1 = []"
    and "s2 = s1 \<or> s2 = snd (run_state (RemovePhoto_service L uid) s1)"
  shows "run_state (SetPhoto_service L uid key' w' h' dayStart at') s2 = (Inl ErrPhotoNotAllowed, s2)"
proof -
  have "distinct (map u_id (users (c_db s)))"
    using assms(3) by (simp add: db_ok_def users_ok_def user_keys_def)
  then have s1: "upload_spent uid dayStart (c_db s1)"
    by (rule SetPhoto_service_spends [OF assms(1,2)])
  have "upload_spent uid dayStart (c_db (snd (run_state (RemovePhoto_service L uid) s1)))"
    by (rule keepsD [OF RemovePhoto_service_keeps [OF upload_spent_RemovePhoto] s1])
  moreover have "c_faults (snd (run_state (RemovePhoto_service L uid) s1)) = []"
    using assms(4) by (simp add: RemovePhoto_service_def run_simps split: sum.splits)
  ultimately have "upload_spent uid dayStart (c_db s2)" "c_faults s2 = []"
    using assms(4,5) s1 by auto
  then show ?thesis
    by (simp add: SetPhoto_service_def Let_def run_simps upload_spent_refuses no_rows_as_def)
qed

definition demo_photographer :: conn where
  "demo_photographer = \<lparr>c_db = empty_db\<lparr>users :=
     [(new_user 3 ''ana@example.com'' 0)\<lparr>u_can_upload_photos := True\<rparr>]\<rparr>, c_now = 5, c_faults = []\<rparr>"

abbreviation demo_key :: string where "demo_key \<equiv> replicate 26 (CHR ''a'')"

definition demo_shot :: conn where
  "demo_shot = demo_photographer\<lparr>c_db := empty_db\<lparr>users :=
     [photographed demo_key 640 480 120 ((new_user 3 ''ana@example.com'' 0)\<lparr>u_can_upload_photos := True\<rparr>)]\<rparr>\<rparr>"

lemma demo_shoot: "run_state (SetPhoto_service id 3 demo_key 640 480 100 120) demo_photographer =
    (Inr [], demo_shot)"
  by code_simp

lemma one_photo_a_day_witness:
  "fst (run_state (SetPhoto_service id 3 demo_key 10 10 100 130)
     (snd (run_state (RemovePhoto_service id 3) demo_shot))) = Inl ErrPhotoNotAllowed"
proof -
  have "db_ok id (c_db demo_photographer)"
    by (simp add: demo_photographer_def db_ok_def table_defs empty_db_def new_user_def user_check_def)
  from one_photo_a_day [OF demo_shoot _ this, of "snd (run_state (RemovePhoto_service id 3) demo_shot)"]
  show ?thesis by (simp add: demo_shot_def demo_photographer_def)
qed


end
