(* ===== verification/PhotoFiles.thy ===== *)
theory PhotoFiles
  imports PhotoWeb AccountProps
begin

text \<open>
  The photos the database names and the files of the photo directory: uploading, removing and
  deleting never leave a name without its file, whatever fails.
\<close>

section \<open>Names and files\<close>

definition stored_keys :: "db \<Rightarrow> string set" where
  "stored_keys d = set (column u_photo_key (users d))"

definition on_disk :: "(string \<rightharpoonup> string) \<Rightarrow> string set \<Rightarrow> bool" where
  "on_disk fs keys = (\<forall>k\<in>keys. fs (k @ ext) \<noteq> None)"

definition photos_on_disk :: "(string \<Rightarrow> string) \<Rightarrow> 'z web_scheme \<Rightarrow> bool" where
  "photos_on_disk L w = (db_ok L (c_db w) \<and> on_disk (w_files w) (stored_keys (c_db w)))"

lemma stored_keys_iff: "k \<in> stored_keys d \<longleftrightarrow> (\<exists>u\<in>set (users d). u_photo_key u = Some k)"
  by (simp add: stored_keys_def set_column)

lemma stored_key_valid:
  assumes "db_ok L d" "k \<in> stored_keys d" shows "ValidKey k"
proof -
  obtain u where u: "u \<in> set (users d)" "u_photo_key u = Some k" using assms(2) by (auto simp: stored_keys_iff)
  then have "user_check u" using assms(1) by (simp add: db_ok_def users_ok_def list_all_iff)
  then have "photo_key_format k" using u(2) by (simp add: user_check_def)
  then show ?thesis
    by (auto simp: photo_key_format_def ValidKey_def keyPattern_def keyLen_def Schema.base32_char_def key_char_def
        list_all_iff)
qed

lemma stored_key_holder:
  assumes "db_ok L d" "u \<in> set (users d)" "v \<in> set (users d)" "u_photo_key u = Some k" "u_photo_key v = Some k"
  shows "u = v"
  using assms distinct_columnD [of u_photo_key "users d" u v k] by (auto simp: db_ok_def users_ok_def user_keys_def)

section \<open>What the services do to the names\<close>

text \<open>
  After a photo operation that returned \<open>old\<close>: the names are some of the old ones and perhaps
  \<open>new\<close>, and \<open>old\<close> is no name any more.
\<close>

definition renamed :: "string set \<Rightarrow> string \<Rightarrow> db \<Rightarrow> db \<Rightarrow> bool" where
  "renamed new old d d' = (stored_keys d' \<subseteq> new \<union> stored_keys d \<and> (old \<noteq> [] \<longrightarrow> old \<in> stored_keys d) \<and>
     (old \<noteq> [] \<longrightarrow> old \<notin> new \<longrightarrow> old \<notin> stored_keys d'))"

lemma one_row:
  assumes "db_ok L d" "u \<in> set (users d)" "P u" "\<And>v. P v \<Longrightarrow> u_id v = u_id u" "v \<in> set (users d)" "P v"
  shows "v = u"
proof (rule distinct_map_filter_inj [of u_id "users d"])
  show "distinct (map u_id (users d))" using assms(1) by (simp add: db_ok_def users_ok_def user_keys_def)
  show "u_id v = u_id u" using assms(4,6) by simp
qed (use assms in simp_all)

lemma renamed_update:
  assumes "db_ok L d" and "update_users L P f d = Inr d'" "\<And>u. u_id (f u) = u_id u"
    and "u \<in> set (users d)" "P u" "\<And>v. P v \<Longrightarrow> u_id v = u_id u"
    and "\<And>v. u_photo_key (f v) = nkey"
  shows "renamed (set_option nkey) (key_or_empty (u_photo_key u)) d d'"
proof -
  have users: "users d' = map (\<lambda>u. if P u then f u else u) (users d)"
    using update_usersD(1) [OF assms(2,3)] by simp
  have "stored_keys d' \<subseteq> set_option nkey \<union> stored_keys d"
    by (auto simp: stored_keys_iff users assms(7) split: if_splits)
  moreover have False
    if left: "old \<in> stored_keys d'" and was: "u_photo_key u = Some old" and gone: "old \<notin> set_option nkey" for old
  proof -
    obtain v where "v \<in> set (users d)" "\<not> P v" "u_photo_key v = Some old"
      using left gone by (auto simp: stored_keys_iff users assms(7) split: if_splits)
    then show False using stored_key_holder [OF assms(1) _ assms(4) _ was] assms(5) by blast
  qed
  moreover have "old \<in> stored_keys d" if "u_photo_key u = Some old" for old
    using that assms(4) by (auto simp: stored_keys_iff)
  ultimately show ?thesis
    by (auto simp: renamed_def key_or_empty_def split: option.splits)
qed

lemma SetPhoto_renames:
  assumes "db_ok L d" "fst (SetPhoto L uid key wd ht ds upl now d) = Inr old"
  shows "renamed {key} old d (snd (SetPhoto L uid key wd ht ds upl now d))"
proof -
  let ?P = "\<lambda>u. u_id u = uid \<and> u_can_upload_photos u \<and> null_or (\<lambda>t. t < ds) (u_photo_uploaded_at u)"
  let ?f = "\<lambda>u. u\<lparr>u_photo_key := Some key, u_photo_width := Some wd, u_photo_height := Some ht,
      u_photo_uploaded_at := Some upl\<rparr>"
  obtain u d' where u: "find ?P (users d) = Some u" and d': "update_users L ?P ?f d = Inr d'"
      "snd (SetPhoto L uid key wd ht ds upl now d) = d'" "old = key_or_empty (u_photo_key u)"
    using assms(2) unfolding SetPhoto_def Let_def by (auto split: option.splits sum.splits)
  then show ?thesis
    using renamed_update [OF assms(1) d'(1), of u "Some key"] find_Some_in [OF u] by simp
qed

lemma RemovePhoto_renames:
  assumes "db_ok L d" "fst (RemovePhoto L uid now d) = Inr old"
  shows "renamed {} old d (snd (RemovePhoto L uid now d))"
proof -
  let ?P = "\<lambda>u. u_id u = uid"
  let ?f = "\<lambda>u. u\<lparr>u_photo_key := None, u_photo_width := None, u_photo_height := None\<rparr>"
  obtain u d' where u: "find ?P (users d) = Some u" and d': "update_users L ?P ?f d = Inr d'"
      "snd (RemovePhoto L uid now d) = d'" "old = key_or_empty (u_photo_key u)"
    using assms(2) unfolding RemovePhoto_def Let_def by (auto split: option.splits sum.splits)
  then show ?thesis
    using renamed_update [OF assms(1) d'(1), of u None] find_Some_in [OF u] by simp
qed

lemma SetPhoto_service_renames:
  assumes "db_ok L (c_db w)" "run_state (SetPhoto_service L uid key wd ht ds upl) w = (res, w')"
  shows "case res of Inl _ \<Rightarrow> c_db w' = c_db w | Inr old \<Rightarrow> renamed {key} old (c_db w) (c_db w')"
proof (cases rule: exec_cases [of "SetPhoto L uid key (int32 wd) (int32 ht) ds upl" w])
  case (fault e fs)
  then show ?thesis using assms(2) by (auto simp: SetPhoto_service_def Let_def run_attempt)
next
  case (ran fs)
  let ?q = "SetPhoto L uid key (int32 wd) (int32 ht) ds upl"
  show ?thesis
  proof (cases "fst (?q (c_now w) (c_db w))")
    case (Inl e)
    then have "snd (?q (c_now w) (c_db w)) = c_db w"
      using SetPhoto_atomic unfolding all_or_nothing_def by blast
    then show ?thesis using assms(2) ran Inl by (auto simp: SetPhoto_service_def Let_def run_attempt)
  next
    case (Inr old)
    then show ?thesis
      using assms(2) ran SetPhoto_renames [OF assms(1) Inr] by (auto simp: SetPhoto_service_def Let_def run_attempt)
  qed
qed

lemma RemovePhoto_service_renames:
  assumes "db_ok L (c_db w)" "run_state (RemovePhoto_service L uid) w = (res, w')"
  shows "case res of Inl _ \<Rightarrow> c_db w' = c_db w | Inr old \<Rightarrow> renamed {} old (c_db w) (c_db w')"
proof (cases rule: exec_cases [of "RemovePhoto L uid" w])
  case (fault e fs)
  then show ?thesis using assms(2) by (auto simp: RemovePhoto_service_def run_attempt)
next
  case (ran fs)
  show ?thesis
  proof (cases "fst (RemovePhoto L uid (c_now w) (c_db w))")
    case (Inl e)
    then have "snd (RemovePhoto L uid (c_now w) (c_db w)) = c_db w"
      using RemovePhoto_atomic unfolding all_or_nothing_def by blast
    then show ?thesis using assms(2) ran Inl by (auto simp: RemovePhoto_service_def run_attempt)
  next
    case (Inr old)
    then show ?thesis
      using assms(2) ran RemovePhoto_renames [OF assms(1) Inr] by (auto simp: RemovePhoto_service_def run_attempt)
  qed
qed

lemma DeleteAccount_renames:
  assumes "db_ok L (c_db w)" "run_state (DeleteAccount L uid now) w = (res, w')"
  shows "case res of Inl _ \<Rightarrow> c_db w' = c_db w | Inr old \<Rightarrow> renamed {} old (c_db w) (c_db w')"
proof (cases res)
  case (Inl e)
  then show ?thesis using assms(2) in_tx_Inl unfolding DeleteAccount_rest by fastforce
next
  case (Inr old)
  obtain u where u: "find (\<lambda>u. u_id u = uid) (users (c_db w)) = Some u" "old = key_or_empty (u_photo_key u)"
    and "forgets L u (c_db w) (c_db w')"
    using assms(2) unfolding Inr by (rule DeleteAccount_Inr)
  then have users: "users (c_db w') = filter (\<lambda>x. u_id x \<noteq> u_id u) (users (c_db w))"
    by (simp add: forgets_def)
  have "k \<notin> stored_keys (c_db w') \<and> k \<in> stored_keys (c_db w)" if "u_photo_key u = Some k" for k
    using that stored_key_holder [OF assms(1) _ _ _ that] find_Some_in [OF u(1)]
    by (auto simp: stored_keys_iff users)
  then show ?thesis
    using Inr u(2) by (auto simp: renamed_def stored_keys_iff users key_or_empty_def split: option.splits)
qed

section \<open>What the handlers do to the files\<close>

lemma same_db:
  assumes "\<And>I. keeps I m" and "run_state m w = (r, w')" shows "c_db w' = c_db w"
  using keepsD [OF assms(1), of "\<lambda>d. d = c_db w" w] assms(2) by simp

lemma Remove_effect:
  assumes "run_state (Remove key) w = (r, w')"
  shows "c_db w' = c_db w" "n \<noteq> key @ ext \<Longrightarrow> w_files w' n = w_files w n"
proof -
  show "c_db w' = c_db w" by (rule same_db [OF keeps_photos(3) assms])
  show "w_files w' n = w_files w n" if "n \<noteq> key @ ext"
    using assms that
    by (auto simp: Remove_def path_def run_simps split: option.splits if_splits list.splits)
qed

lemma removePhotoFile_effect:
  assumes "run_state (removePhotoFile key) w = (r, w')"
  shows "c_db w' = c_db w" "n \<noteq> key @ ext \<Longrightarrow> w_files w' n = w_files w n"
  using assms Remove_effect by (auto simp: removePhotoFile_def split: prod.splits)

lemma removePhotoFile_keeps:
  assumes "photos_on_disk L w" "key \<notin> stored_keys (c_db w)" "run_state (removePhotoFile key) w = (r, w')"
  shows "photos_on_disk L w'"
proof -
  have "w_files w' (k @ ext) = w_files w (k @ ext)" if "k \<in> stored_keys (c_db w)" for k
    using that assms(2) by (intro removePhotoFile_effect(2) [OF assms(3)]) auto
  then show ?thesis
    using assms(1) removePhotoFile_effect(1) [OF assms(3)] by (simp add: photos_on_disk_def on_disk_def)
qed

lemma remove_if_named_keeps:
  assumes "photos_on_disk L w" "old \<notin> stored_keys (c_db w) \<or> old = []" "run_state (remove_if_named old) w = (r, w')"
  shows "photos_on_disk L w'"
  using assms removePhotoFile_keeps by (cases "old = []") (auto simp: remove_if_named_def)

text \<open>A program of the connection that renames, and then the old file goes.\<close>

lemma renamed_on_disk:
  assumes "photos_on_disk L w" and "conn_only m" "run_state m w = (res, w')" and "db_ok L (c_db w')"
    and "renamed new old (c_db w) (c_db w')" and "on_disk (w_files w) new"
  shows "photos_on_disk L w'"
proof -
  have "w_files w' = w_files w" by (rule conn_only_outside(2) [OF assms(2,3)])
  then show ?thesis using assms(1,4-6) by (auto simp: photos_on_disk_def on_disk_def renamed_def)
qed

lemma on_disk_answer:
  assumes "conn_only m" "\<And>I. keeps I m" "run_state m w = (r, w')" "photos_on_disk L w"
  shows "photos_on_disk L w'"
  using assms(4) same_db [OF assms(2,3)] conn_only_outside(2) [OF assms(1,3)] by (simp add: photos_on_disk_def)

lemma db_ok_service:
  assumes "keeps (db_ok L) m" "run_state m w = (r, w')" "photos_on_disk L w" shows "db_ok L (c_db w')"
  using keepsD [OF assms(1), of w] assms(2,3) by (simp add: photos_on_disk_def)

text \<open>The file is saved under a name nobody holds yet.\<close>

lemma Save_keeps:
  assumes "run_state (Save tmp key jpeg) w = (r, w')" "has_prefix tmp ''.upload-''" "photos_on_disk L w"
    and "w_files w (key @ ext) = None"
  shows "photos_on_disk L w'" "r = Inr () \<Longrightarrow> w_files w' (key @ ext) \<noteq> None" "key \<notin> stored_keys (c_db w')"
proof -
  have db: "c_db w' = c_db w" by (rule same_db [OF keeps_photos(1) assms(1)])
  show "key \<notin> stored_keys (c_db w')" using assms(3,4) db by (auto simp: photos_on_disk_def on_disk_def)
  have "w_files w' (k @ ext) = w_files w (k @ ext)" if "k \<in> stored_keys (c_db w)" for k
  proof -
    have "tmp \<noteq> k @ ext"
      using assms(2,3) stored_key_valid [OF _ that] temp_name by (auto simp: photos_on_disk_def)
    moreover have "k \<noteq> key" using assms(3,4) that by (auto simp: photos_on_disk_def on_disk_def)
    ultimately show ?thesis using Save_effect [OF assms(1,2)] by (auto simp: ext_def)
  qed
  then show "photos_on_disk L w'" using assms(3) db by (simp add: photos_on_disk_def on_disk_def)
  show "w_files w' (key @ ext) \<noteq> None" if "r = Inr ()"
    using Save_effect [OF assms(1,2)] that by (simp add: ext_def)
qed

lemma photo_message_reads:
  "conn_only (photo_message lib cfg now st u msg wr)" "keeps I (photo_message lib cfg now st u msg wr)"
  "conn_only (read_refused lib cfg now u err wr)" "keeps I (read_refused lib cfg now u err wr)"
  unfolding photo_message_def read_refused_def
  by (intro conn_only_intros keeps_intros | cases err; simp; intro conn_only_intros keeps_intros)+

lemma store_photo_keeps:
  assumes "photos_on_disk (l_fold lib) w" "has_prefix tmp ''.upload-''" "w_files w (key @ ext) = None"
  shows "photos_on_disk (l_fold lib) (snd (run_state (store_photo lib cfg now key tmp u res wr) w))"
proof -
  let ?L = "l_fold lib"
  let ?set = "SetPhoto_service ?L (ID u) key (RWidth res) (RHeight res) (dayStart now) now"
  obtain r1 w1 where save: "run_state (Save tmp key (JPEG res)) w = (r1, w1)" by fastforce
  obtain r2 w2 where set: "run_state ?set w1 = (r2, w2)" by fastforce
  note saved = Save_keeps [OF save assms(2,1,3)]
  have c: "conn_only ?set" by (intro conn_only_intros)
  have ok2: "db_ok ?L (c_db w2)"
    by (rule db_ok_service [OF _ set saved(1)]) (intro keeps_intros stmt_intros)
  have ok1: "db_ok ?L (c_db w1)" using saved(1) by (simp add: photos_on_disk_def)
  note ren = SetPhoto_service_renames [OF ok1 set]
  show ?thesis
  proof (cases r1)
    case (Inl e)
    then show ?thesis using saved save by (simp add: store_photo_def run_on_result run_answer)
  next
    case (Inr x)
    then have new: "w_files w1 (key @ ext) \<noteq> None" using saved(2) by simp
    show ?thesis
    proof (cases r2)
      case (Inl e)
      then have db: "c_db w2 = c_db w1" using ren by simp
      have w2: "photos_on_disk ?L w2"
        using saved(1) db conn_only_outside(2) [OF c set] by (simp add: photos_on_disk_def)
      obtain r3 w3 where rm: "run_state (removePhotoFile key) w2 = (r3, w3)" by (rule prod.exhaust)
      have "photos_on_disk ?L w3"
        by (rule removePhotoFile_keeps [OF w2 _ rm]) (use saved(3) db in simp)
      then show ?thesis
        using save set rm Inr Inl on_disk_answer [OF photo_message_reads(1,2) surjective_pairing, of "l_fold lib" w3]
        by (simp add: store_photo_def run_on_result run_answer)
    next
      case (Inr old)
      have ren': "renamed {key} old (c_db w1) (c_db w2)" using ren Inr by simp
      have w2: "photos_on_disk ?L w2"
        by (rule renamed_on_disk [OF saved(1) c set ok2 ren']) (use new in \<open>simp add: on_disk_def\<close>)
      obtain r3 w3 where rm: "run_state (remove_if_named old) w2 = (r3, w3)" by (rule prod.exhaust)
      have "old \<noteq> key \<or> old = []"
        using ren' saved(3) by (auto simp: renamed_def)
      then have "photos_on_disk ?L w3"
        by (intro remove_if_named_keeps [OF w2 _ rm]) (use ren' in \<open>auto simp: renamed_def\<close>)
      then show ?thesis
        using save set rm \<open>r1 = Inr x\<close> Inr by (simp add: store_photo_def run_on_result run_answer)
    qed
  qed
qed

lemma reads_keep_photos:
  "photos_on_disk L w \<Longrightarrow> photos_on_disk L (snd (run_state (answer resp) w))"
  "photos_on_disk L w \<Longrightarrow> photos_on_disk L (snd (run_state (photo_message lib cfg now st u msg wr) w))"
  "photos_on_disk L w \<Longrightarrow> photos_on_disk L (snd (run_state (read_refused lib cfg now u err wr) w))"
  by (simp add: run_answer)
    (rule on_disk_answer [OF photo_message_reads(1,2) surjective_pairing]
      on_disk_answer [OF photo_message_reads(3,4) surjective_pairing]; assumption)+

lemma upload_keeps_photos:
  assumes "photos_on_disk (l_fold lib) w" "has_prefix tmp ''.upload-''" "w_files w (NewKey rnd @ ext) = None"
  shows "photos_on_disk (l_fold lib) (snd (run_state (handlePhotoUpload lib cfg cd now slot rnd tmp r wr) w))"
proof -
  have "photos_on_disk (l_fold lib) (snd (run_state (case m of (st, msg) \<Rightarrow>
      if msg = [] then answer (http_Error ''internal server error'' st wr) else photo_message lib cfg now st u msg wr) w))"
    for m and u :: User
    using assms(1) by (simp add: reads_keep_photos split: prod.splits)
  then show ?thesis
    using assms
    by (simp add: handlePhotoUpload_def signed_in_def if_active_def reads_keep_photos store_photo_keeps
        split: option.splits sum.splits)
qed

lemma old_photo_goes:
  assumes "photos_on_disk L w" "conn_only m" "run_state m w = (Inr old, w1)" "db_ok L (c_db w1)"
    "renamed {} old (c_db w) (c_db w1)" "run_state (remove_if_named old) w1 = (x, w2)"
  shows "photos_on_disk L w2"
proof -
  have "photos_on_disk L w1"
    by (rule renamed_on_disk [OF assms(1-3) assms(4,5)]) (simp add: on_disk_def)
  then show ?thesis by (rule remove_if_named_keeps [OF _ _ assms(6)]) (use assms(5) in \<open>auto simp: renamed_def\<close>)
qed

text \<open>No page ever loses its photo by accident: an upload, a removal and the deletion of an account,
  wherever they stop, leave every photo the database names with its file on disk.\<close>

theorem photos_stay_on_disk:
  assumes "photos_on_disk (l_fold lib) w" and "has_prefix tmp ''.upload-''" and "w_files w (NewKey rnd @ ''.jpg'') = None"
  shows "photos_on_disk (l_fold lib) (snd (run_state (handlePhotoUpload lib cfg cd now slot rnd tmp r wr) w)) \<and>
    photos_on_disk (l_fold lib) (snd (run_state (handlePhotoRemove lib r wr) w)) \<and>
    photos_on_disk (l_fold lib) (snd (run_state (handleAccountDelete lib now r wr) w))"
proof (intro conjI)
  show "photos_on_disk (l_fold lib) (snd (run_state (handlePhotoUpload lib cfg cd now slot rnd tmp r wr) w))"
    by (rule upload_keeps_photos [OF assms(1,2)]) (simp add: ext_def assms(3))
  have ok: "db_ok (l_fold lib) (c_db w)" using assms(1) by (simp add: photos_on_disk_def)
  have failed: "photos_on_disk (l_fold lib) w1"
    if "conn_only m" "run_state m w = (y, w1)" "c_db w1 = c_db w" for m :: "('a, user_err + string) web_prog" and y w1
    using assms(1) that conn_only_outside(2) [OF that(1,2)] by (simp add: photos_on_disk_def)
  have remove: "photos_on_disk (l_fold lib) (snd (run_state (on_result m h (\<lambda>old. do {
      _ \<leftarrow> remove_if_named old; answer (k old) })) w))"
    if m: "conn_only m" "keeps (db_ok (l_fold lib)) m" and h: "\<And>e. h e = answer (g e)"
      and ren: "\<And>res w1. run_state m w = (res, w1) \<Longrightarrow>
        case res of Inl _ \<Rightarrow> c_db w1 = c_db w | Inr old \<Rightarrow> renamed {} old (c_db w) (c_db w1)"
    for m :: "('a, user_err + string) web_prog" and h k g
  proof -
    obtain res w1 where run: "run_state m w = (res, w1)" by fastforce
    show ?thesis
    proof (cases res)
      case (Inl e)
      then show ?thesis using ren [OF run] failed [OF m(1) run] by (simp add: run_on_result run h run_answer)
    next
      case (Inr old)
      obtain x w2 where rm: "run_state (remove_if_named old) w1 = (x, w2)" by (rule prod.exhaust)
      have "photos_on_disk (l_fold lib) w2"
        using old_photo_goes [OF assms(1) m(1) _ db_ok_service [OF m(2) run assms(1)] _ rm] run ren [OF run] Inr by simp
      then show ?thesis using rm by (simp add: run_on_result run Inr run_answer)
    qed
  qed
  have rem: "photos_on_disk (l_fold lib) (snd (run_state (on_result (RemovePhoto_service (l_fold lib) (ID u))
      (\<lambda>_. answer (internal_error wr)) (\<lambda>old. do { _ \<leftarrow> remove_if_named old; answer (http_Redirect ''/'' 303 wr) })) w))"
    for u
    by (rule remove) (intro conn_only_intros | intro keeps_intros stmt_intros | rule refl |
        erule RemovePhoto_service_renames [OF ok])+
  show "photos_on_disk (l_fold lib) (snd (run_state (handlePhotoRemove lib r wr) w))"
    using assms(1) unfolding handlePhotoRemove_def signed_in_def if_active_def
    by (cases "UserFrom r") (simp_all add: reads_keep_photos rem)
  have del: "photos_on_disk (l_fold lib) (snd (run_state (on_result (DeleteAccount (l_fold lib) (ID u) now)
      (\<lambda>err. if err = ErrUserNotFound then answer (http_Redirect ''/account/deleted'' 303 (ClearSessionCookie wr))
          else answer (internal_error wr))
      (\<lambda>old. do { _ \<leftarrow> remove_if_named old; answer (http_Redirect ''/account/deleted'' 303 (ClearSessionCookie wr)) })) w))"
    for u
    by (rule remove [where g = "\<lambda>err. if err = ErrUserNotFound
          then http_Redirect ''/account/deleted'' 303 (ClearSessionCookie wr) else internal_error wr"])
      (intro conn_only_intros | intro keeps_intros stmt_intros | simp; fail |
        erule DeleteAccount_renames [OF ok])+
  show "photos_on_disk (l_fold lib) (snd (run_state (handleAccountDelete lib now r wr) w))"
    using assms(1) unfolding handleAccountDelete_def signed_in_def with_form_def remove_if_named_def [symmetric]
    by (cases "UserFrom r"; cases "ParseForm r") (simp_all add: reads_keep_photos del)
qed

definition demo_pictured :: web where
  "demo_pictured = (demo_world (empty_db\<lparr>users := [demo_user\<lparr>u_photo_key := Some PhotoStore.demo_key,
     u_photo_width := Some 640, u_photo_height := Some 480\<rparr>]\<rparr>))\<lparr>w_files := [PhotoStore.demo_key @ ''.jpg'' \<mapsto> ''JPEG'']\<rparr>"

definition demo_owner :: request where
  "demo_owner = withUser blank_request (fromRow demo_user)"

lemma demo_pictured_ok: "photos_on_disk id demo_pictured"
  unfolding photos_on_disk_def on_disk_def
  by (simp add: demo_pictured_def stored_keys_def demo_user_def empty_db_def db_ok_def table_defs ext_def
        photo_key_format_def PhotoStore.demo_key_def Schema.base32_char_def
        user_check_def new_user_def code_def)

lemma photos_stay_on_disk_witness:
  "photos_on_disk id (snd (run_state (handlePhotoRemove demo_lib demo_owner new_writer) demo_pictured))"
proof -
  have fold: "l_fold demo_lib = id" by (simp add: demo_lib_def)
  have "photos_on_disk (l_fold demo_lib) demo_pictured" unfolding fold by (rule demo_pictured_ok)
  moreover have "w_files demo_pictured (NewKey [] @ ''.jpg'') = None"
    by (simp add: demo_pictured_def NewKey_def base32_def PhotoStore.demo_key_def)
  moreover have "has_prefix ''.upload-1'' ''.upload-''" by (simp add: has_prefix_def)
  ultimately show ?thesis
    using photos_stay_on_disk [of demo_lib demo_pictured "''.upload-1''" "[]" demo_config
      demo_codecs 0 SlotTaken demo_owner new_writer] unfolding fold by blast
qed

end
