(* ===== verification/Surface.thy ===== *)
theory Surface
  imports Router PhotoFiles
begin

text \<open>
  What holds of every request, whatever it asks for: who can change anything, and what the two
  surfaces answer with.
\<close>

section \<open>No request matches two routes\<close>

fun overlap :: "seg list \<Rightarrow> seg list \<Rightarrow> bool" where
  "overlap [] [] = True"
| "overlap (Lit a # ps) (Lit b # qs) = (a = b \<and> overlap ps qs)"
| "overlap (Lit a # ps) (Wild x # qs) = (a \<noteq> [] \<and> overlap ps qs)"
| "overlap (Wild x # ps) (Lit b # qs) = (b \<noteq> [] \<and> overlap ps qs)"
| "overlap (Wild x # ps) (Wild y # qs) = overlap ps qs"
| "overlap _ _ = False"

lemma match_path_length: "match_path ps ss = Some vs \<Longrightarrow> length ps = length ss"
  by (induction ps ss arbitrary: vs rule: match_path.induct) (auto split: if_splits)

lemma match_both: "match_path ps ss \<noteq> None \<Longrightarrow> match_path qs ss \<noteq> None \<Longrightarrow> overlap ps qs"
proof (induction ps qs arbitrary: ss rule: overlap.induct)
  case (2 a ps b qs)
  then show ?case by (cases ss) (auto split: if_splits)
next
  case (3 a ps x qs)
  then show ?case by (cases ss) (auto split: if_splits)
next
  case (4 x ps b qs)
  then show ?case by (cases ss) (auto split: if_splits)
next
  case (5 x ps y qs)
  then show ?case by (cases ss) (auto split: if_splits)
qed (auto dest!: match_path_length)

fun no_overlap :: "(string \<times> seg list) list \<Rightarrow> bool" where
  "no_overlap [] = True"
| "no_overlap ((m, ps) # rts) = (list_all (\<lambda>(n, qs). m \<noteq> n \<or> \<not> overlap ps qs) rts \<and> no_overlap rts)"

definition patterns :: "'h route list \<Rightarrow> (string \<times> seg list) list" where
  "patterns rts = map (\<lambda>(m, ps, h). (m, ps)) rts"

lemma app_routes_disjoint: "no_overlap (patterns (appRoutes sv dr))"
  by (simp add: appRoutes_def Let_def patterns_def)

lemma page_routes_disjoint: "no_overlap (patterns (pageRoutes sv))"
  by (simp add: pageRoutes_def Let_def patterns_def)

lemma find_route_Some:
  "find_route r rts = Some (vs, h) \<Longrightarrow>
     \<exists>meth ps. (meth, ps, h) \<in> set rts \<and> method_serves meth (Method r) \<and> match_path ps (Segments r) = Some vs"
proof (induction rts)
  case (Cons rt rts)
  show ?case
  proof (cases "route_values r rt")
    case None
    then show ?thesis using Cons by auto
  next
    case (Some x)
    then show ?thesis
      using Cons.prems by (cases rt) (auto simp: route_values_def split: if_splits)
  qed
qed simp

section \<open>Programs that change nothing\<close>

text \<open>The tables, the photo directory and the mail sent; the limiters and the log are not counted.\<close>

definition effects :: "'z web_scheme \<Rightarrow> db \<times> (string \<rightharpoonup> string) \<times> (string \<times> string \<times> string) list" where
  "effects s = (c_db s, w_files s, w_sent s)"

definition quiet :: "('z web_scheme, 'r) state \<Rightarrow> bool" where
  "quiet m = (\<forall>s. effects (snd (run_state m s)) = effects s)"

named_theorems quiet_intros

lemma quietD: "quiet m \<Longrightarrow> run_state m s = (r, s') \<Longrightarrow> effects s' = effects s"
  unfolding quiet_def by (metis snd_conv)

lemma quiet_return [quiet_intros]: "quiet (State_Monad.return x)"
  by (simp add: quiet_def)

lemma quiet_answer [quiet_intros]: "quiet (answer resp)"
  by (simp add: answer_def quiet_return)

lemma quiet_bind [quiet_intros]: "quiet m \<Longrightarrow> (\<And>x. quiet (k x)) \<Longrightarrow> quiet (State_Monad.bind m k)"
  by (auto simp: quiet_def split: prod.splits) (metis snd_conv)

lemma quiet_bind_val:
  "quiet m \<Longrightarrow> (\<And>s. P (fst (run_state m s))) \<Longrightarrow> (\<And>x. P x \<Longrightarrow> quiet (k x)) \<Longrightarrow> quiet (State_Monad.bind m k)"
  by (auto simp: quiet_def split: prod.splits) (metis fst_conv snd_conv)

lemma quiet_conn: "conn_only m \<Longrightarrow> (\<And>I. keeps I m) \<Longrightarrow> quiet m"
proof -
  assume *: "conn_only m" "\<And>I. keeps I m"
  show "quiet m"
    unfolding quiet_def effects_def
    using same_db [OF *(2) surjective_pairing] conn_only_outside(1,2) [OF *(1) surjective_pairing] by simp
qed

lemma quiet_if [quiet_intros]: "quiet a \<Longrightarrow> quiet b \<Longrightarrow> quiet (if c then a else b)"
  by simp

lemma quiet_option [quiet_intros]: "quiet a \<Longrightarrow> (\<And>x. quiet (b x)) \<Longrightarrow> quiet (case r of None \<Rightarrow> a | Some x \<Rightarrow> b x)"
  by (cases r) auto

lemma quiet_on_result [quiet_intros]:
  "quiet m \<Longrightarrow> (\<And>e. quiet (h e)) \<Longrightarrow> (\<And>x. quiet (k x)) \<Longrightarrow> quiet (on_result m h k)"
  unfolding on_result_def by (intro quiet_bind) (auto split: sum.splits)

lemma quiet_disk [quiet_intros]: "quiet (disk_step id)" "quiet read_files"
  by (auto simp: quiet_def effects_def run_simps split: list.splits)

lemma quiet_Open [quiet_intros]: "quiet (Open key)"
  unfolding Open_def path_def by (simp, intro quiet_intros conjI impI)

lemma quiet_take [quiet_intros]: "quiet (take_token x r)"
  unfolding quiet_def effects_def using run_take_token(1-3) [OF surjective_pairing] by metis

lemma quiet_rateLimit [quiet_intros]: "(\<And>w. quiet (nxt r w)) \<Longrightarrow> quiet (rateLimit x nxt r w)"
  unfolding rateLimit_def by (intro quiet_intros)

lemma quiet_at_now [quiet_intros]: "(\<And>now. quiet (h now r w)) \<Longrightarrow> quiet (at_now h r w)"
  unfolding at_now_def by (intro quiet_intros) (simp add: quiet_def)

section \<open>What reading touches\<close>

lemma keeps_more_reads [keeps_intros]:
  "keeps I (handleLoginForm r w)" "keeps I (handleLoginConfirm nonce r w)" "keeps I (handleClaimForm r w)"
  "keeps I (handleAccountDeleteForm r w)" "keeps I (handleAccountDeleted r w)" "keeps I (handleRandom cfg pick r w)"
  "keeps I (handlePrivacy cfg r w)" "keeps I (handleTerms cfg r w)" "keeps I (handleHealth r w)"
  "keeps I (guestbookState cfg r owner)" "keeps I (handleGuestbookForm lib cfg r w)"
  unfolding handleLoginForm_def handleLoginConfirm_def handleClaimForm_def handleAccountDeleteForm_def
    handleAccountDeleted_def handleRandom_def handlePrivacy_def handleTerms_def handleHealth_def
    guestbookState_def handleGuestbookForm_def guestbookOwner_def Let_def
  by (intro keeps_intros stmt_intros)+

lemma conn_only_health [conn_only_intros]: "conn_only (handleHealth r w)"
  unfolding handleHealth_def by (intro conn_only_intros)

lemma quiet_reads [quiet_intros]:
  "quiet (handleHealth r w)" "quiet (handleAppCSS as r w)" "quiet (handleTheme as r w)" "quiet (handlePreviewCSS as r w)"
  "quiet (handleStylePreviewCSS r w)" "quiet (handleFont as r w)" "quiet (handleAppHome lib cfg now r w)"
  "quiet (handleLoginForm r w)" "quiet (handleLoginConfirm nonce r w)" "quiet (handleClaimForm r w)"
  "quiet (handlePrivacy cfg r w)" "quiet (handleTerms cfg r w)" "quiet (handleAccountDeleteForm r w)"
  "quiet (handleAccountDeleted r w)" "quiet (handleGuestbookForm lib cfg r w)" "quiet (handleRandom cfg pick r w)"
  "quiet (handlePage lib cfg r w)" "quiet (handleStyleCSS lib r w)" "quiet (handleOGImage lib as r w)"
  "quiet (ByPhotoKey key)" "quiet (Lookup H v)" "quiet (GetByID uid)" "quiet (GetByHandle L h)"
  "quiet (guestbookState cfg r owner)"
  by (rule quiet_conn; intro conn_only_intros keeps_intros stmt_intros)+

lemma quiet_photos [quiet_intros]:
  "quiet (servePhotoFile lib r key w)" "quiet (handleAppPhoto lib r w)" "quiet (handlePagePhoto lib r w)"
  unfolding servePhotoFile_def handleAppPhoto_def handlePagePhoto_def
  by (auto intro!: quiet_intros split: option.splits)

text \<open>A visitor without a session gets no further than the guards.\<close>

definition visitor :: "request \<Rightarrow> bool" where
  "visitor r = (UserFrom r = None \<and> (case req_cookie r SessionCookieName of None \<Rightarrow> True | Some v \<Rightarrow> v = []))"

lemma visitor_no_signer: "UserFrom r = None \<Longrightarrow> snd (fst (run_state (guestbookState cfg r owner) s)) = None"
  by (simp add: guestbookState_def visitor_state_def split: prod.splits)

lemma quiet_visitor:
  assumes "visitor r"
  shows "quiet (handleClaimSubmit lib now r w)" "quiet (handleMoodSubmit lib cfg now rid r w)"
    "quiet (handleNameSubmit lib cfg now r w)" "quiet (handleStyleSubmit lib cfg now r w)"
    "quiet (handlePhotoUpload lib cfg cd now slot rnd tmp r w)" "quiet (handlePhotoRemove lib r w)"
    "quiet (handleAccountDelete lib now r w)" "quiet (handleGuestbookHide lib r w)"
    "quiet (handleGuestbookShow lib r w)" "quiet (handleLogout lib r w)" "quiet (handleGuestbookSign lib cfg rid r w)"
proof -
  have u: "UserFrom r = None" using assms by (simp add: visitor_def)
  show "quiet (handleClaimSubmit lib now r w)" "quiet (handleMoodSubmit lib cfg now rid r w)"
    "quiet (handleNameSubmit lib cfg now r w)" "quiet (handleStyleSubmit lib cfg now r w)"
    "quiet (handlePhotoUpload lib cfg cd now slot rnd tmp r w)" "quiet (handlePhotoRemove lib r w)"
    "quiet (handleAccountDelete lib now r w)" "quiet (handleGuestbookHide lib r w)"
    "quiet (handleGuestbookShow lib r w)"
    by (simp_all add: handleClaimSubmit_def handleMoodSubmit_def handleNameSubmit_def handleStyleSubmit_def
        handlePhotoUpload_def handlePhotoRemove_def handleAccountDelete_def handleGuestbookHide_def
        handleGuestbookShow_def setGuestbookEntryHidden_def u quiet_answer)
  show "quiet (handleLogout lib r w)"
    using assms unfolding handleLogout_def visitor_def by (auto intro!: quiet_intros split: option.splits)
  show "quiet (handleGuestbookSign lib cfg rid r w)"
    unfolding handleGuestbookSign_def guestbookOwner_def
  proof (intro quiet_on_result quiet_reads quiet_if quiet_answer, rule quiet_bind_val [where P = "\<lambda>st. snd st = None"])
    fix st :: "guestbookSignData \<times> User option" assume "snd st = None"
    then show "quiet (case st of (data, None) \<Rightarrow>
          if gs_MessageURL data = ''/login'' \<or> gs_MessageURL data = ''/''
          then answer (http_Redirect (gs_MessageURL data) 303 w) else answer (renderTemplate 403 (GuestbookSign data) w)
        | (data, Some signer) \<Rightarrow> k data signer)" for k
      by (cases st) (simp add: quiet_answer)
  qed (simp_all add: quiet_reads visitor_no_signer u)
qed

section \<open>Through the middleware\<close>

definition harmless :: "request \<Rightarrow> bool" where
  "harmless r = (Method r \<noteq> ''POST'' \<or> visitor r \<and> take 1 (Segments r) \<noteq> [''login''])"

lemma harmless_updates [simp]:
  "harmless (r\<lparr>PathValues := vs\<rparr>) = harmless r" "harmless (r\<lparr>BodyCap := n\<rparr>) = harmless r"
  "harmless (r\<lparr>CtxRequestID := x\<rparr>) = harmless r" "visitor (r\<lparr>PathValues := vs\<rparr>) = visitor r"
  by (simp_all add: harmless_def visitor_def UserFrom_def req_cookie_def)

lemma cross_origin_update: "cross_origin lib (r\<lparr>CtxRequestID := x\<rparr>) = cross_origin lib r"
  unfolding cross_origin_def req_header_def by simp

lemma mux_quiet:
  assumes "\<And>meth ps h vs. (meth, ps, h) \<in> set rts \<Longrightarrow> method_serves meth (Method r) \<Longrightarrow>
      match_path ps (Segments r) = Some vs \<Longrightarrow> quiet (h (r\<lparr>PathValues := vs\<rparr>) w)"
  shows "quiet (mux lib rts r w)"
  using assms by (auto simp: mux_def Let_def quiet_answer split: option.splits dest!: find_route_Some)

lemma app_routes_quiet:
  "list_all (\<lambda>(meth, ps, h). meth = ''GET'' \<or> meth = ''POST'' \<and>
     (visitor r \<longrightarrow> (\<exists>qs. ps = Lit ''login'' # qs) \<or> quiet (h r w))) (appRoutes sv dr)"
  "list_all (\<lambda>(meth, ps, h). meth = ''GET'' \<longrightarrow> quiet (h r w)) (appRoutes sv dr)"
  by (simp_all add: appRoutes_def Let_def quiet_reads quiet_photos quiet_at_now quiet_rateLimit quiet_visitor)

lemma app_mux_quiet: "harmless r \<Longrightarrow> quiet (mux lib (appRoutes sv dr) r w)"
proof (rule mux_quiet)
  fix meth ps h vs
  assume r: "harmless r" and rt: "(meth, ps, h) \<in> set (appRoutes sv dr)" "method_serves meth (Method r)"
    and ps: "match_path ps (Segments r) = Some vs"
  let ?r = "r\<lparr>PathValues := vs\<rparr>"
  show "quiet (h ?r w)"
  proof (cases "meth = ''GET''")
    case True
    then show ?thesis using app_routes_quiet(2) [of ?r w sv dr] rt(1) by (auto simp: list_all_iff)
  next
    case False
    then have post: "meth = ''POST''" "visitor r \<Longrightarrow> (\<exists>qs. ps = Lit ''login'' # qs) \<or> quiet (h ?r w)"
      using app_routes_quiet(1) [of ?r w sv dr] rt(1) by (auto simp: list_all_iff)
    then have "visitor r" "take 1 (Segments r) \<noteq> [''login'']"
      using r rt(2) by (auto simp: harmless_def method_serves_def)
    moreover have "ps \<noteq> Lit ''login'' # qs" for qs
      using ps calculation(2) by (cases "Segments r") (auto split: if_splits)
    ultimately show ?thesis using post(2) by blast
  qed
qed

lemma quiet_CurrentUser:
  assumes "\<And>r' w. Method r' = Method r \<Longrightarrow> harmless r' \<Longrightarrow> quiet (nxt r' w)" and "harmless r"
  shows "quiet (CurrentUser lib nxt r w)"
proof (cases "visitor r")
  case True
  then show ?thesis
    using assms by (auto simp: CurrentUser_def visitor_def split: option.splits)
next
  case False
  then have get: "harmless (withUser r u)" for u using assms(2) by (auto simp: harmless_def withUser_def)
  show ?thesis
    unfolding CurrentUser_def
    by (intro quiet_option quiet_if quiet_on_result quiet_reads quiet_answer assms(1) get assms(2))
      (simp_all add: withUser_def)
qed

lemma app_surface_quiet:
  assumes "harmless r \<or> cross_origin (sv_lib sv) r" shows "quiet (app_surface sv dr r w)"
proof -
  have inner: "quiet (CurrentUser lib (mux lib' (appRoutes sv dr)) r' w')" if "harmless r'" for lib lib' r' w'
    by (rule quiet_CurrentUser [OF app_mux_quiet that])
  have "quiet (BodyLimit (CurrentUser lib (mux lib' (appRoutes sv dr))) r' w')" if "harmless r'" for lib lib' r' w'
    using that by (auto simp: BodyLimit_def intro!: quiet_if quiet_answer inner)
  then show ?thesis
    using assms by (auto simp: app_surface_def AppCSP_def csp_def PrivateCache_def CrossOrigin_def quiet_answer)
qed

lemma page_surface_quiet: "quiet (page_surface sv r w)"
proof -
  have "list_all (\<lambda>(meth, ps, h). quiet (h r' w')) (pageRoutes sv)" for r' and w'
    by (simp add: pageRoutes_def Let_def quiet_reads quiet_photos quiet_rateLimit)
  then have "quiet (mux lib (pageRoutes sv) r' w')" for lib r' w'
    by (intro mux_quiet) (fastforce simp: list_all_iff)
  then show ?thesis by (simp add: page_surface_def PagesCSP_def csp_def)
qed

definition on_app :: "server \<Rightarrow> request \<Rightarrow> bool" where
  "on_app sv r = (canonicalHost (l_lower (sv_lib sv)) (Host r) =
     canonicalHost (l_lower (sv_lib sv)) (AppHost (sv_Config sv)))"

lemma Handler_run: "run_state (Handler sv dr r w) s =
   run_state (RequestLogger (SecurityHeaders (IsProduction (sv_Config sv))
     (hostSplit sv (app_surface sv dr) (page_surface sv))) (r\<lparr>CtxRequestID := hex_bytes (dr_buf dr)\<rparr>) w) s"
  by (simp add: Handler_def RequestID_def)

lemma RequestLogger_effects: "effects (snd (run_state (RequestLogger nxt r w) s)) = effects (snd (run_state (nxt r w) s))"
  by (simp add: run_RequestLogger effects_def split: prod.splits)

lemma SecurityHeaders_writer: "\<exists>w'. SecurityHeaders b nxt r w = nxt r w'"
  unfolding SecurityHeaders_def Let_def by blast


end
