(* ===== verification/Headers.thy ===== *)
theory Headers
  imports Surface
begin

text \<open>
  What every response carries: the policy of its surface, and cookies only where there is a session.
\<close>

section \<open>Responses that keep what the middleware has set\<close>

definition policy :: "writer \<Rightarrow> string list" where
  "policy w = Header w ''Content-Security-Policy''"

text \<open>
  The cookies of a response: those already set and no other, or else only host cookies besides.
\<close>

definition jar :: "bool \<Rightarrow> cookie list \<Rightarrow> cookie list \<Rightarrow> bool" where
  "jar none old new = (if none then new = old else \<forall>c\<in>set new. c \<in> set old \<or> host_prefix_ok c)"

definition kept :: "bool \<Rightarrow> writer \<Rightarrow> response \<Rightarrow> bool" where
  "kept none w resp = (RHeader resp ''Content-Security-Policy'' = policy w \<and> jar none (SetCookies w) (RCookies resp))"

lemma jar_simps [simp]:
  "jar b cs cs" "jar False cs (ds @ [c]) = (jar False cs ds \<and> (c \<in> set cs \<or> host_prefix_ok c))"
  by (auto simp: jar_def)

definition answers :: "(response \<Rightarrow> bool) \<Rightarrow> ('s, response) state \<Rightarrow> bool" where
  "answers P m = (\<forall>s. P (fst (run_state m s)))"

lemma answersD: "answers P m \<Longrightarrow> P (fst (run_state m s))"
  by (simp add: answers_def)

named_theorems answers_intros

lemma answers_answer [answers_intros]: "P resp \<Longrightarrow> answers P (answer resp)"
  by (simp add: answers_def run_answer)

lemma answers_bind [answers_intros]: "(\<And>x. answers P (k x)) \<Longrightarrow> answers P (State_Monad.bind m k)"
  by (auto simp: answers_def split: prod.splits)

lemma answers_on_result [answers_intros]:
  "(\<And>e. answers P (h e)) \<Longrightarrow> (\<And>x. answers P (k x)) \<Longrightarrow> answers P (on_result m h k)"
  unfolding on_result_def by (intro answers_bind) (auto split: sum.splits)

lemma answers_if [answers_intros]: "answers P a \<Longrightarrow> answers P b \<Longrightarrow> answers P (if c then a else b)"
  by simp

lemma answers_option [answers_intros]:
  "answers P a \<Longrightarrow> (\<And>x. answers P (b x)) \<Longrightarrow> answers P (case r of None \<Rightarrow> a | Some x \<Rightarrow> b x)"
  by (cases r) auto

lemma answers_sum [answers_intros]:
  "(\<And>x. answers P (a x)) \<Longrightarrow> (\<And>x. answers P (b x)) \<Longrightarrow> answers P (case r of Inl x \<Rightarrow> a x | Inr x \<Rightarrow> b x)"
  by (cases r) auto

lemma answers_signer [answers_intros]:
  "(\<And>d. answers P (f d)) \<Longrightarrow> (\<And>d s. answers P (g d s)) \<Longrightarrow>
   answers P (case st of (d, None) \<Rightarrow> f d | (d, Some s) \<Rightarrow> g d s)"
  by (cases st; cases "snd st") auto

lemma answers_pair [answers_intros]: "(\<And>a b. answers P (f a b)) \<Longrightarrow> answers P (case x of (a, b) \<Rightarrow> f a b)"
  by (cases x) simp

lemma answers_guards [answers_intros]:
  "P (http_Redirect ''/login'' 303 w) \<Longrightarrow> (\<And>u. answers P (k u)) \<Longrightarrow> answers P (signed_in r w k)"
  "P (http_Redirect ''/'' 303 w) \<Longrightarrow> answers P m \<Longrightarrow> answers P (if_active v w m)"
  "P (bad_request w) \<Longrightarrow> (\<And>f. answers P (j f)) \<Longrightarrow> answers P (with_form r w j)"
  unfolding signed_in_def if_active_def with_form_def by (intro answers_intros; assumption)+

lemma answers_site [answers_intros]:
  "P (http_Error ''rate limited'' 429 w) \<Longrightarrow> answers P (nxt r w) \<Longrightarrow> answers P (rateLimit x nxt r w)"
  "(\<And>now. answers P (h now r w)) \<Longrightarrow> answers P (at_now h r w)"
  unfolding rateLimit_def at_now_def by (intro answers_intros; assumption)+

lemma policy_simps [simp]:
  "k \<noteq> ''Content-Security-Policy'' \<Longrightarrow> policy (set_header k v w) = policy w"
  "k \<noteq> ''Content-Security-Policy'' \<Longrightarrow> policy (add_header k v w) = policy w"
  "policy (set_cookie c w) = policy w"
  by (simp_all add: policy_def respond_defs)

lemma kept_writers [simp]:
  "kept b w (respond st bd w') = (policy w' = policy w \<and> jar b (SetCookies w) (SetCookies w'))"
  by (auto simp: kept_def policy_def)

lemma kept_errors [simp]:
  "kept b w (http_Error msg st w') = (policy w' = policy w \<and> jar b (SetCookies w) (SetCookies w'))"
  by (auto simp: kept_def policy_def http_Error_def respond_def set_header_def)

lemma kept_responses [simp]:
  "kept b w (http_NotFound w') = (policy w' = policy w \<and> jar b (SetCookies w) (SetCookies w'))"
  "kept b w (http_Redirect url st w') = (policy w' = policy w \<and> jar b (SetCookies w) (SetCookies w'))"
  "kept b w (internal_error w') = (policy w' = policy w \<and> jar b (SetCookies w) (SetCookies w'))"
  "kept b w (bad_request w') = (policy w' = policy w \<and> jar b (SetCookies w) (SetCookies w'))"
  "kept b w (renderTemplate st p w') = (policy w' = policy w \<and> jar b (SetCookies w) (SetCookies w'))"
  by (simp_all add: http_NotFound_def http_Redirect_def internal_error_def bad_request_def renderTemplate_def)

lemma policy_cookies [simp]:
  "policy (SetSessionCookie v t w) = policy w" "policy (ClearSessionCookie w) = policy w"
  "policy (setLoginNonceCookie v w) = policy w" "policy (clearLoginNonceCookie w) = policy w"
  "policy (css_headers c w) = policy w" "SetCookies (css_headers c w) = SetCookies w"
  by (simp_all add: cookie_defs css_headers_def)

lemma jar_cookies [simp]:
  "jar False cs (SetCookies (SetSessionCookie v t w)) = jar False cs (SetCookies w)"
  "jar False cs (SetCookies (ClearSessionCookie w)) = jar False cs (SetCookies w)"
  "jar False cs (SetCookies (setLoginNonceCookie v w)) = jar False cs (SetCookies w)"
  "jar False cs (SetCookies (clearLoginNonceCookie w)) = jar False cs (SetCookies w)"
  using host_cookie_ok
  by (simp_all add: SetSessionCookie_def ClearSessionCookie_def setLoginNonceCookie_def clearLoginNonceCookie_def)

text \<open>The library functions that answer for a handler keep the headers that are not about content.\<close>

definition polite :: "lib \<Rightarrow> bool" where
  "polite lib = ((\<forall>r c w. kept True w (l_serve_content lib r c w)) \<and> (\<forall>r w. kept True w (l_mux_redirect lib r w)))"

lemma kept_less: "kept True w resp \<Longrightarrow> kept b w resp"
  by (auto simp: kept_def jar_def)

lemma kept_trans: "kept True w' resp \<Longrightarrow> policy w' = policy w \<Longrightarrow> SetCookies w' = SetCookies w \<Longrightarrow> kept b w resp"
  by (auto simp: kept_def jar_def)

section \<open>The handlers\<close>

lemma kept_home [answers_intros]:
  "answers (kept b w) (renderAppHomeMessages lib cfg now st u msgs w)"
  "answers (kept b w) (renderAppHomeErrors lib cfg now st u e n w)" "answers (kept b w) (renderAppHome lib cfg now st u e w)"
  "answers (kept b w) (handleAppHome lib cfg now r w)"
  unfolding renderAppHome_def renderAppHomeErrors_def renderAppHomeMessages_def home_page_def handleAppHome_def Let_def
  by (intro answers_intros; simp)+

lemma kept_login [answers_intros]:
  "answers (kept b w) (handleLoginForm r w)" "answers (kept b w) (handleLoginRequest lib cfg rid tok r w)"
  "answers (kept False w) (handleLoginConfirm nonce r w)"
  "answers (kept False w) (handleLoginComplete lib uid sid stok r w)" "answers (kept False w) (handleLogout lib r w)"
  unfolding handleLoginForm_def handleLoginRequest_def handleLoginConfirm_def handleLoginComplete_def handleLogout_def
    renderLoginInvalid_def Let_def
  by (intro answers_intros; simp)+

lemma kept_refusals [simp]: "kept b w (claim_refused err w)" "kept b w (sign_refused d body gerr w)"
  by (simp_all add: claim_refused_def sign_refused_def split: user_err.splits)

lemma kept_owner [answers_intros]:
  "answers (kept b w) (handleClaimForm r w)" "answers (kept b w) (handleClaimSubmit lib now r w)"
  "answers (kept b w) (handleMoodSubmit lib cfg now rid r w)" "answers (kept b w) (handleNameSubmit lib cfg now r w)"
  "answers (kept b w) (handleAccountDeleteForm r w)" "answers (kept False w) (handleAccountDelete lib now r w)"
  "answers (kept b w) (handleAccountDeleted r w)" "answers (kept b w) (handleRandom cfg pick r w)"
  "answers (kept b w) (handlePrivacy cfg r w)" "answers (kept b w) (handleTerms cfg r w)" "answers (kept b w) (handleHealth r w)"
  unfolding handleClaimForm_def handleClaimSubmit_def handleMoodSubmit_def mood_refused_def handleNameSubmit_def
    handleAccountDeleteForm_def handleAccountDelete_def handleAccountDeleted_def handleRandom_def handlePrivacy_def
    handleTerms_def handleHealth_def Let_def
  by (intro answers_intros; simp)+

lemma kept_guestbook [answers_intros]:
  "answers (kept b w) (handleGuestbookForm lib cfg r w)" "answers (kept b w) (handleGuestbookSign lib cfg rid r w)"
  "answers (kept b w) (handleGuestbookHide lib r w)" "answers (kept b w) (handleGuestbookShow lib r w)"
  unfolding handleGuestbookForm_def handleGuestbookSign_def guestbookOwner_def handleGuestbookHide_def
    handleGuestbookShow_def setGuestbookEntryHidden_def Let_def
  by (intro answers_intros; simp)+

lemma kept_page [answers_intros]:
  "answers (kept b w) (handlePage lib cfg r w)" "answers (kept b w) (handleStyleCSS lib r w)"
  "answers (kept b w) (handleTheme as r w)" "answers (kept b w) (handleAppCSS as r w)"
  "answers (kept b w) (handlePreviewCSS as r w)" "answers (kept b w) (handleFont as r w)"
  "answers (kept b w) (handleOGImage lib as r w)" "answers (kept b w) (handleStylePreviewCSS r w)"
  "answers (kept b w) (handleStyleSubmit lib cfg now r w)"
  unfolding handlePage_def page_owner_def handleStyleCSS_def handleTheme_def handleAppCSS_def handlePreviewCSS_def
    handleFont_def handleOGImage_def og_answer_def handleStylePreviewCSS_def handleStyleSubmit_def
    invalid_style_def renderStylePreview_def Let_def
  by (intro answers_intros; simp split: option.splits)+

lemma kept_photo_message [answers_intros]: "answers (kept b w) (photo_message lib cfg now st u msg w)"
  "answers (kept b w) (read_refused lib cfg now u err w)"
  unfolding photo_message_def read_refused_def
  by (intro answers_intros | cases err; simp; intro answers_intros; simp)+

lemma kept_upload [answers_intros]:
  "answers (kept b w) (handlePhotoUpload lib cfg cd now slot rnd tmp r w)" "answers (kept b w) (handlePhotoRemove lib r w)"
  unfolding handlePhotoUpload_def handlePhotoRemove_def store_photo_def
  by (intro answers_intros; simp)+

lemma kept_serve:
  assumes "polite lib" "policy w' = policy w" "SetCookies w' = SetCookies w"
  shows "answers (kept b w) (servePhotoFile lib r key w')"
proof -
  have "kept b w (l_serve_content lib r c (set_header ''Content-Type'' ''image/jpeg'' w'))" for c
    by (rule kept_trans [where w' = "set_header ''Content-Type'' ''image/jpeg'' w'"])
      (use assms in \<open>simp_all add: polite_def\<close>)
  then show ?thesis unfolding servePhotoFile_def by (intro answers_intros) (simp_all add: assms)
qed

lemma kept_photos:
  assumes "polite lib"
  shows "answers (kept b w) (handleAppPhoto lib r w)" "answers (kept b w) (handlePagePhoto lib r w)"
  unfolding handleAppPhoto_def handlePagePhoto_def
  by (auto intro!: answers_intros kept_serve [OF assms] split: option.splits)

section \<open>The surfaces\<close>

lemma kept_mux:
  assumes "polite lib" "list_all (\<lambda>(meth, ps, h). \<forall>r. answers (kept b w) (h r w)) rts"
  shows "answers (kept b w) (mux lib rts r w)"
proof -
  have "kept b w (l_mux_redirect lib r w)" using assms(1) by (auto simp: polite_def intro: kept_less)
  moreover have "answers (kept b w) (h (r\<lparr>PathValues := vs\<rparr>) w)" if "find_route r rts = Some (vs, h)" for vs h
    using find_route_Some [OF that] assms(2) by (auto simp: list_all_iff)
  ultimately show ?thesis
    unfolding mux_def Let_def
    by (cases "find_route r rts") (auto intro!: answers_intros)
qed

lemma kept_app:
  assumes "polite (sv_lib sv)" shows "answers (kept False w) (mux (sv_lib sv) (appRoutes sv dr) r w)"
  by (rule kept_mux [OF assms])
    (simp add: appRoutes_def Let_def kept_home kept_login kept_owner kept_guestbook kept_page kept_upload
      kept_photos [OF assms] answers_site)

lemma kept_pages:
  assumes "polite (sv_lib sv)" shows "answers (kept True w) (mux (sv_lib sv) (pageRoutes sv) r w)"
  by (rule kept_mux [OF assms])
    (simp add: pageRoutes_def Let_def kept_page kept_photos [OF assms] answers_site)

lemma kept_CurrentUser:
  assumes "\<And>r. answers (kept b w) (nxt r w)" shows "answers (kept b w) (CurrentUser lib nxt r w)"
  unfolding CurrentUser_def by (intro answers_intros assms) simp_all

lemma app_surface_kept:
  assumes "polite (sv_lib sv)"
  shows "answers (\<lambda>resp. RHeader resp ''Content-Security-Policy'' = [appCSP] \<and>
    jar False (SetCookies w) (RCookies resp)) (app_surface sv dr r w)"
proof -
  let ?w = "add_header ''Vary'' ''Cookie'' (set_header ''Cache-Control'' ''private, no-store''
    (set_header ''Content-Security-Policy'' appCSP w))"
  have "answers (kept False ?w) (BodyLimit (CurrentUser (sv_lib sv) (mux (sv_lib sv) (appRoutes sv dr))) r ?w)"
    unfolding BodyLimit_def by (intro answers_intros kept_CurrentUser kept_app assms) simp_all
  then have "answers (kept False ?w) (app_surface sv dr r w)"
    unfolding app_surface_def Chain_simps AppCSP_def csp_def PrivateCache_def CrossOrigin_def
    by (intro answers_intros) simp_all
  moreover have "policy ?w = [appCSP]" "SetCookies ?w = SetCookies w"
    by (simp_all add: policy_def add_header_def set_header_def)
  ultimately show ?thesis by (simp add: answers_def kept_def)
qed

lemma page_surface_kept:
  assumes "polite (sv_lib sv)"
  shows "answers (\<lambda>resp. RHeader resp ''Content-Security-Policy'' = [pagesCSP] \<and> RCookies resp = SetCookies w)
    (page_surface sv r w)"
  using kept_pages [OF assms, of "set_header ''Content-Security-Policy'' pagesCSP w" r]
  by (simp add: page_surface_def PagesCSP_def csp_def answers_def kept_def jar_def policy_def set_header_def)

text \<open>C8: The two surfaces stay apart: every response of the app's host carries the app's policy and sets
  no cookie but the two the browser locks to that host; every response of any other host sets no
  cookie at all, and carries the pages' policy unless it is the redirect to the app or a plain 404.\<close>

theorem surfaces_isolated:
  assumes "polite (sv_lib sv)" and "run_state (Handler sv dr r new_writer) s = (resp, s')"
  shows "if on_app sv r
    then RHeader resp ''Content-Security-Policy'' = [appCSP] \<and> (\<forall>c\<in>set (RCookies resp). host_prefix_ok c)
    else RCookies resp = [] \<and> (RHeader resp ''Content-Security-Policy'' = [pagesCSP] \<or>
      Body resp = Redirected (BaseURL (sv_Config sv) @ ''/'') \<or> Body resp = Text (''404 page not found'' @ [LF]))"
proof -
  let ?r = "r\<lparr>CtxRequestID := hex_bytes (dr_buf dr)\<rparr>"
  have same: "on_app sv ?r = on_app sv r" by (simp add: on_app_def)
  obtain w where w: "run_state (SecurityHeaders (IsProduction (sv_Config sv))
        (hostSplit sv (app_surface sv dr) (page_surface sv)) ?r new_writer) s =
      run_state (hostSplit sv (app_surface sv dr) (page_surface sv) ?r w) s" and cs: "SetCookies w = []"
    unfolding SecurityHeaders_def Let_def by (simp add: new_writer_def set_header_def)
  have resp: "resp = fst (run_state (hostSplit sv (app_surface sv dr) (page_surface sv) ?r w) s)"
    using assms(2) unfolding Handler_run run_RequestLogger w by (auto split: prod.splits)
  show ?thesis
  proof (cases "on_app sv r")
    case True
    then have app: "resp = fst (run_state (app_surface sv dr ?r w) s)"
      using resp same by (simp add: hostSplit_def Let_def on_app_def)
    have "RHeader resp ''Content-Security-Policy'' = [appCSP] \<and> jar False (SetCookies w) (RCookies resp)"
      unfolding app by (rule answersD [OF app_surface_kept [OF assms(1)]])
    then show ?thesis using True cs by (auto simp: jar_def)
  next
    case False
    let ?lower = "l_lower (sv_lib sv)"
    consider "resp = http_Redirect (BaseURL (sv_Config sv) @ ''/'') 302 w" | "resp = http_NotFound w"
      | h where "resp = fst (run_state (page_surface sv (withHandle ?r h) w) s)"
      using resp False
      by (auto simp: hostSplit_def Let_def on_app_def run_answer split: if_splits option.splits)
    then show ?thesis
    proof cases
      case 3
      have "RHeader resp ''Content-Security-Policy'' = [pagesCSP] \<and> RCookies resp = SetCookies w"
        unfolding 3 by (rule answersD [OF page_surface_kept [OF assms(1)]])
      then show ?thesis using False cs by simp
    qed (use False cs in \<open>simp_all add: http_NotFound_def\<close>)
  qed
qed

end
