(* ===== verification/Demo.thy ===== *)
theory Demo
  imports Headers
begin

definition demo_server :: server where
  "demo_server = \<lparr>sv_Config = demo_config, sv_lib = demo_lib,
     sv_assets = \<lparr>themeCSS = ''T'', appCSS = ''A'', previewCSS = ''P'', fontFiles = [], ogRender = (\<lambda>_. None)\<rparr>,
     sv_codecs = demo_codecs\<rparr>"

definition demo_draws :: draws where
  "demo_draws = \<lparr>dr_buf = [], dr_rid = 21, dr_token = ''TOKEN'', dr_uid = 22, dr_sid = 23, dr_session = ''SESSION'',
     dr_nonce = ''N'', dr_pick = 0, dr_slot = SlotTaken, dr_key = [], dr_tmp = ''.upload-1''\<rparr>"

definition demo_site :: "db \<Rightarrow> site" where
  "demo_site d = \<lparr>c_db = d, c_now = 1000000, c_faults = [], w_sent = [], w_mail_faults = [], w_files = Map.empty,
     w_disk_faults = [], s_clock = 1000000, s_visits = [], s_writes = fst new_limiters,
     s_logins48 = fst (snd new_limiters), s_reads = snd (snd new_limiters), s_log = []\<rparr>"

definition demo_logout :: request where
  "demo_logout = demo_browser\<lparr>Method := ''POST'', Host := ''App.localhost:8080'', Path := ''/logout'',
     Segments := [''logout''], ReqHeaders := [(''Sec-Fetch-Site'', ''same-origin'')]\<rparr>"

lemma demo_on_app: "on_app demo_server demo_logout"
  by code_simp

lemma demo_polite: "polite (sv_lib demo_server)"
  by (simp add: polite_def demo_server_def demo_lib_def)

lemma demo_route:
  assumes "Segments r = [''logout'']" "Method r = ''POST''" "CleanPath r"
  shows "mux lib (appRoutes sv dr) r w = handleLogout (sv_lib sv) (r\<lparr>PathValues := []\<rparr>) w"
  by (simp add: mux_def appRoutes_def Let_def route_values_def method_serves_def assms)

lemma demo_not_cross: "\<not> cross_origin lib (demo_logout\<lparr>CtxRequestID := x\<rparr>)"
  unfolding cross_origin_update by (simp add: cross_origin_def demo_logout_def req_header_def)

definition demo_r1 :: request where
  "demo_r1 = demo_logout\<lparr>CtxRequestID := hex_bytes (dr_buf demo_draws)\<rparr>"

lemma demo_r1_simps [simp]:
  "Segments demo_r1 = [''logout'']" "Method demo_r1 = ''POST''" "CleanPath demo_r1" "HasBody demo_r1 = False"
  "req_cookie demo_r1 SessionCookieName = Some ''SESSION''"
  "req_cookie (demo_r1\<lparr>PathValues := vs\<rparr>) SessionCookieName = Some ''SESSION''"
  by (simp_all add: demo_r1_def demo_logout_def demo_browser_def blank_request_def req_cookie_def SessionCookieName_def)

lemma demo_site_simps [simp]:
  "c_db (demo_site d) = d" "c_faults (demo_site d) = []" "c_now (demo_site d) = 1000000"
  by (simp_all add: demo_site_def)

text \<open>The request, through the whole chain, ends the session it carries.\<close>

lemma demo_app_surface: "c_db (snd (run_state (app_surface demo_server demo_draws demo_r1 w) (demo_site demo_session_db))) =
    session_kill ''SESSION'' 1000000 demo_session_db"
proof -
  have inv: "session_inv 1000000 demo_session_db"
    by (simp add: session_inv_def demo_session_db_def empty_db_def session_check_def)
  have plausible: "session_plausibleToken ''SESSION''" by code_simp
  have hash: "l_hash (sv_lib demo_server) ''SESSION'' = ''SESSION''" by (simp add: demo_server_def demo_lib_def)
  note quiet = Revoke_quiet [where H = "l_hash (sv_lib demo_server)" and old = "''SESSION''", unfolded hash]
  have "c_db (snd (run_state (handleLogout (sv_lib demo_server) r w') (demo_site demo_session_db))) =
      session_kill ''SESSION'' 1000000 demo_session_db"
    if "req_cookie r SessionCookieName = Some ''SESSION''" for r w'
    using that inv plausible by (simp add: handleLogout_def run_answer quiet)
  moreover have "session_holder ''SESSION'' 1000000 demo_session_db = Some 3" by code_simp
  moreover have "find (\<lambda>u. u_id u = 3) (users demo_session_db) = Some demo_user"
    by (simp add: demo_session_db_def empty_db_def demo_user_def new_user_def)
  moreover have "req_cookie ((withUser demo_r1 u)\<lparr>PathValues := []\<rparr>) SessionCookieName = Some ''SESSION''" for u
    by (simp add: withUser_def demo_r1_def demo_logout_def demo_browser_def blank_request_def req_cookie_def SessionCookieName_def)
  moreover have "Segments (withUser demo_r1 u) = [''logout'']" "Method (withUser demo_r1 u) = ''POST''"
      "CleanPath (withUser demo_r1 u)" for u
    by (simp_all add: withUser_def)
  ultimately show ?thesis
    using demo_not_cross [of _ "hex_bytes (dr_buf demo_draws)", folded demo_r1_def]
    by (simp add: app_surface_def AppCSP_def csp_def PrivateCache_def CrossOrigin_def BodyLimit_def CurrentUser_def
        run_on_result Lookup_quiet [OF _ plausible] GetByID_quiet hash demo_route)
qed

definition demo_end :: "response \<times> site" where
  "demo_end = run_state (Handler demo_server demo_draws demo_logout new_writer) (demo_site demo_session_db)"

lemma demo_end_db: "c_db (snd demo_end) = session_kill ''SESSION'' 1000000 demo_session_db"
proof -
  have app: "on_app demo_server demo_r1" using demo_on_app by (simp add: on_app_def demo_r1_def)
  show ?thesis
    unfolding demo_end_def Handler_run run_RequestLogger demo_r1_def [symmetric] SecurityHeaders_def Let_def hostSplit_def
    using app [unfolded on_app_def] demo_app_surface by (simp split: prod.splits) (metis snd_conv)
qed


lemma surfaces_isolated_witness: "RHeader (fst demo_end) ''Content-Security-Policy'' = [appCSP]"
  using surfaces_isolated [OF demo_polite, of demo_draws demo_logout "demo_site demo_session_db" "fst demo_end" "snd demo_end"]
    demo_on_app by (simp only: demo_end_def prod.collapse simp_thms if_True)

end
