(* ===== verification/System.thy ===== *)
theory System
  imports AccountProps Sessions Mood Guestbook UserStyle
begin

text \<open>
  The services together: every operation the web layer can ask of the store, run in any order,
  with any arguments, while time passes and any call may fail.  What each service keeps true of
  its own tables holds in every state such runs reach.
\<close>

section \<open>Which table a statement writes\<close>

definition changes :: "(('t \<Rightarrow> 't) \<Rightarrow> db \<Rightarrow> db) \<Rightarrow> 'r stmt \<Rightarrow> bool" where
  "changes upd q = (\<forall>now d. \<exists>x. snd (q now d) = upd (\<lambda>_. x) d)"

definition blind :: "(('t \<Rightarrow> 't) \<Rightarrow> db \<Rightarrow> db) \<Rightarrow> (db \<Rightarrow> bool) \<Rightarrow> bool" where
  "blind upd I = (\<forall>x d. I (upd (\<lambda>_. x) d) = I d)"

lemma blind_keeps: "changes upd q \<Longrightarrow> blind upd I \<Longrightarrow> stmt_keeps I q"
  unfolding changes_def blind_def stmt_keeps_def by metis

lemma changesI: "(\<And>now d. \<exists>x. snd (q now d) = upd (\<lambda>_. x) d) \<Longrightarrow> changes upd q"
  by (simp add: changes_def)

text \<open>A statement writes one table when it leaves the database or updates that table.\<close>

lemma table_id:
  "\<exists>x. login_tokens_update (\<lambda>_. x) d = d" "\<exists>x. sessions_update (\<lambda>_. x) d = d"
  "\<exists>x. moods_update (\<lambda>_. x) d = d" "\<exists>x. mood_history_update (\<lambda>_. x) d = d"
  "\<exists>x. guestbook_entries_update (\<lambda>_. x) d = d" "\<exists>x. page_styles_update (\<lambda>_. x) d = d"
  "\<exists>x. users_update (\<lambda>_. x) d = d" "\<exists>x. deleted_handles_update (\<lambda>_. x) d = d"
  by (rule exI [of _ "login_tokens d"], simp) (rule exI [of _ "sessions d"], simp,
      rule exI [of _ "moods d"], simp, rule exI [of _ "mood_history d"], simp,
      rule exI [of _ "guestbook_entries d"], simp, rule exI [of _ "page_styles d"], simp,
      rule exI [of _ "users d"], simp, rule exI [of _ "deleted_handles d"], simp)

lemma write_or_same:
  assumes "\<And>now d. snd (q now d) = d \<or> (\<exists>x. snd (q now d) = upd (\<lambda>_. x) d)" and "\<And>d. \<exists>x. upd (\<lambda>_. x) d = d"
  shows "changes upd q"
  using assms unfolding changes_def by metis

lemmas write_rules = table_id [THEN write_or_same [rotated]]

lemma update_users_change: "update_users L P f d = Inr d' \<Longrightarrow> \<exists>x. d' = users_update (\<lambda>_. x) d"
  by (auto simp: update_users_def Let_def split: if_splits)

named_theorems table_changes \<open>which table a statement writes\<close>

lemma token_changes [table_changes]:
  "changes login_tokens_update (ConsumeLoginToken h)"
  "changes login_tokens_update (CreateLoginToken r h e t)"
  "changes login_tokens_update (DeleteLoginTokensForEmail L e)"
  "changes login_tokens_update (InvalidateLoginTokensForEmail e)"
  "changes login_tokens_update (PurgeLoginTokens n)"
  unfolding ConsumeLoginToken_def CreateLoginToken_def DeleteLoginTokensForEmail_def
    InvalidateLoginTokensForEmail_def PurgeLoginTokens_def Let_def
  by (rule write_rules, auto split: option.splits)+

lemma session_changes [table_changes]:
  "changes sessions_update (CreateSession r h u t)" "changes sessions_update (RevokeSession h)"
  "changes sessions_update (PurgeSessions n)"
  unfolding CreateSession_def RevokeSession_def PurgeSessions_def Let_def
  by (rule write_rules, auto)+

lemma mood_changes [table_changes]: "changes moods_update (UpsertMood u k n)"
  unfolding UpsertMood_def Let_def by (rule write_rules, auto)+

lemma history_changes [table_changes]: "changes mood_history_update (InsertMoodHistory r u k n)"
  unfolding InsertMoodHistory_def Let_def by (rule write_rules, auto)+

lemma guestbook_changes [table_changes]:
  "changes guestbook_entries_update (CreateGuestbookEntry r p a b)"
  "changes guestbook_entries_update (SetGuestbookEntryState s e p)"
  unfolding CreateGuestbookEntry_def SetGuestbookEntryState_def Let_def
  by (rule write_rules, auto)+

lemma style_changes [table_changes]:
  "changes page_styles_update (DeletePageStyle u)" "changes page_styles_update (UpsertPageStyle row)"
  unfolding DeletePageStyle_def UpsertPageStyle_def
  by (rule write_rules, auto)+

lemma reserve_changes [table_changes]:
  "changes deleted_handles_update (ReserveDeletedHandle L h t)"
  "changes deleted_handles_update (PurgeDeletedHandles n)"
  unfolding ReserveDeletedHandle_def PurgeDeletedHandles_def Let_def
  by (rule write_rules, auto)+

lemma user_changes [table_changes]:
  "changes users_update (ClaimHandle L h a u r)" "changes users_update (RemovePhoto L u)"
  "changes users_update (SetDisplayName L u n)" "changes users_update (SetPhoto L u k w h' s t)"
  "changes users_update (UpsertUserByEmail L rid e)"
  unfolding ClaimHandle_def RemovePhoto_def SetDisplayName_def SetPhoto_def UpsertUserByEmail_def Let_def
  by (rule write_rules, auto dest!: update_users_change
      split: option.splits sum.splits)+

lemmas changes_keep = table_changes [THEN blind_keeps]

lemma blind_invariants:
  "blind sessions_update accounts_ok" "blind moods_update accounts_ok"
  "blind mood_history_update accounts_ok" "blind guestbook_entries_update accounts_ok"
  "blind page_styles_update accounts_ok" "blind deleted_handles_update accounts_ok"
  "blind login_tokens_update mood_log" "blind sessions_update mood_log"
  "blind guestbook_entries_update mood_log" "blind page_styles_update mood_log"
  "blind users_update mood_log" "blind deleted_handles_update mood_log"
  "blind login_tokens_update entries_ok" "blind sessions_update entries_ok"
  "blind moods_update entries_ok" "blind mood_history_update entries_ok"
  "blind page_styles_update entries_ok" "blind users_update entries_ok"
  "blind deleted_handles_update entries_ok"
  "blind login_tokens_update page_styles_ok" "blind sessions_update page_styles_ok"
  "blind moods_update page_styles_ok" "blind mood_history_update page_styles_ok"
  "blind guestbook_entries_update page_styles_ok" "blind users_update page_styles_ok"
  "blind deleted_handles_update page_styles_ok"
  by (simp_all add: blind_def accounts_ok_def mood_log_def entries_ok_def page_styles_ok_def)

lemma DeleteUser_invariants:
  "stmt_keeps mood_log (DeleteUser u)" "stmt_keeps entries_ok (DeleteUser u)"
  "stmt_keeps page_styles_ok (DeleteUser u)"
proof -
  have *: "history_of v (filter (\<lambda>h. h_user_id h \<noteq> u) hs) = (if v = u then [] else history_of v hs)" for v hs
    by (induction hs) (auto simp: history_of_def)
  show "stmt_keeps mood_log (DeleteUser u)"
    by (rule stmt_keepsI) (auto simp: mood_log_def DeleteUser_def *)
  show "stmt_keeps entries_ok (DeleteUser u)"
    by (rule stmt_keepsI) (auto simp: entries_ok_def DeleteUser_def list_all_iff)
  show "stmt_keeps page_styles_ok (DeleteUser u)"
    by (rule stmt_keepsI) (auto simp: page_styles_ok_def DeleteUser_def list_all_iff)
qed

section \<open>The operations\<close>

datatype service_op =
    OpRequestLogin uuid string string
  | OpCompleteLogin uuid string
  | OpClaimHandle uuid string instant
  | OpDeleteAccount uuid instant
  | OpSetDisplayName uuid string
  | OpSetPhoto uuid string int int instant instant
  | OpRemovePhoto uuid
  | OpIssue uuid string uuid
  | OpRevoke string
  | OpSetMood uuid uuid string string
  | OpSign uuid uuid uuid string
  | OpHide uuid uuid
  | OpShow uuid uuid
  | OpSetStyle uuid Style instant
  | OpPurgeLoginTokens duration
  | OpPurgeDeletedHandles duration
  | OpPurgeSessions duration

text \<open>A style's colours are a Go map: one value for a key.\<close>

definition op_wf :: "service_op \<Rightarrow> bool" where
  "op_wf x = (case x of OpSetStyle _ st _ \<Rightarrow> distinct (map fst (Colors st)) | _ \<Rightarrow> True)"

definition after_op ::
  "(string \<Rightarrow> (string \<times> string) option) \<Rightarrow> (string \<Rightarrow> string) \<Rightarrow> (string \<Rightarrow> bytes) \<Rightarrow> (string \<Rightarrow> string) \<Rightarrow>
   service_op \<Rightarrow> conn \<Rightarrow> conn" where
  "after_op parse ul H L x w = (case x of
     OpRequestLogin rid tok email \<Rightarrow> snd (run_state (RequestLogin parse ul H rid tok email) w)
   | OpCompleteLogin rid raw \<Rightarrow> snd (run_state (CompleteLogin L H rid raw) w)
   | OpClaimHandle uid h at \<Rightarrow> snd (run_state (ClaimHandle_service L uid h at) w)
   | OpDeleteAccount uid at \<Rightarrow> snd (run_state (DeleteAccount L uid at) w)
   | OpSetDisplayName uid raw \<Rightarrow> snd (run_state (SetDisplayName_service L uid raw) w)
   | OpSetPhoto uid key wd ht ds at \<Rightarrow> snd (run_state (SetPhoto_service L uid key wd ht ds at) w)
   | OpRemovePhoto uid \<Rightarrow> snd (run_state (RemovePhoto_service L uid) w)
   | OpIssue rid tok uid \<Rightarrow> snd (run_state (Issue H rid tok uid) w)
   | OpRevoke raw \<Rightarrow> snd (run_state (Revoke H raw) w)
   | OpSetMood rid uid key note \<Rightarrow> snd (run_state (SetMood rid uid key note) w)
   | OpSign rid p a body \<Rightarrow> snd (run_state (Sign rid p a body) w)
   | OpHide p e \<Rightarrow> snd (run_state (Hide p e) w)
   | OpShow p e \<Rightarrow> snd (run_state (Show p e) w)
   | OpSetStyle uid st at \<Rightarrow> snd (run_state (SetStyle uid st at) w)
   | OpPurgeLoginTokens n \<Rightarrow> snd (run_state (PurgeExpiredLoginTokens n) w)
   | OpPurgeDeletedHandles n \<Rightarrow> snd (run_state (PurgeDeletedHandles_service n) w)
   | OpPurgeSessions n \<Rightarrow> snd (run_state (PurgeExpired n) w))"

inductive service_reachable ::
  "(string \<Rightarrow> (string \<times> string) option) \<Rightarrow> (string \<Rightarrow> string) \<Rightarrow> (string \<Rightarrow> bytes) \<Rightarrow> (string \<Rightarrow> string) \<Rightarrow>
   conn \<Rightarrow> bool" for parse ul H L where
  empty: "c_db w = empty_db \<Longrightarrow> service_reachable parse ul H L w"
| operation: "service_reachable parse ul H L w \<Longrightarrow> op_wf x \<Longrightarrow>
    service_reachable parse ul H L (after_op parse ul H L x w)"
| environment: "service_reachable parse ul H L w \<Longrightarrow>
    service_reachable parse ul H L (w\<lparr>c_now := t, c_faults := fs\<rparr>)"

section \<open>What they keep\<close>

lemma after_op_keeps:
  assumes "\<And>rid tok email. keeps I (RequestLogin parse ul H rid tok email :: (unit, user_err + string) prog)"
    and "\<And>rid raw. keeps I (CompleteLogin L H rid raw :: (unit, user_err + User) prog)"
    and "\<And>u h t. keeps I (ClaimHandle_service L u h t :: (unit, user_err + User) prog)"
    and "\<And>u t. keeps I (DeleteAccount L u t :: (unit, user_err + string) prog)"
    and "\<And>u n. keeps I (SetDisplayName_service L u n :: (unit, user_err + User) prog)"
    and "\<And>u k wd ht ds t. keeps I (SetPhoto_service L u k wd ht ds t :: (unit, user_err + string) prog)"
    and "\<And>u. keeps I (RemovePhoto_service L u :: (unit, user_err + string) prog)"
    and "\<And>r t u. keeps I (Issue H r t u :: (unit, session_err + string) prog)"
    and "\<And>r. keeps I (Revoke H r :: (unit, session_err + unit) prog)"
    and "\<And>r u k n. keeps I (SetMood r u k n :: (unit, mood_err + Mood) prog)"
    and "\<And>r p a b. keeps I (Sign r p a b :: (unit, guestbook_err + Entry) prog)"
    and "\<And>p e. keeps I (Hide p e :: (unit, guestbook_err + unit) prog)"
    and "\<And>p e. keeps I (Show p e :: (unit, guestbook_err + unit) prog)"
    and "\<And>u st t. distinct (map fst (Colors st)) \<Longrightarrow> keeps I (SetStyle u st t :: (unit, user_err + unit) prog)"
    and "\<And>n. keeps I (PurgeExpiredLoginTokens n :: (unit, user_err + nat) prog)"
    and "\<And>n. keeps I (PurgeDeletedHandles_service n :: (unit, user_err + nat) prog)"
    and "\<And>n. keeps I (PurgeExpired n :: (unit, session_err + nat) prog)"
    and "op_wf x" and "I (c_db w)"
  shows "I (c_db (after_op parse ul H L x w))"
  using assms(18,19)
  by (cases x) (simp_all add: after_op_def op_wf_def assms(1-17) keepsD)

lemma schema_after_op: "op_wf x \<Longrightarrow> db_ok L (c_db w) \<Longrightarrow> db_ok L (c_db (after_op parse ul H L x w))"
  by (rule after_op_keeps) (assumption | intro keeps_intros stmt_intros)+

lemma accounts_after_op:
  "op_wf x \<Longrightarrow> accounts_ok (c_db w) \<Longrightarrow> accounts_ok (c_db (after_op parse ul H L x w))"
  by (rule after_op_keeps)
    (assumption | rule account_methods | intro keeps_intros changes_keep blind_invariants)+

lemma mood_log_after_op:
  "op_wf x \<Longrightarrow> mood_log (c_db w) \<Longrightarrow> mood_log (c_db (after_op parse ul H L x w))"
  by (rule after_op_keeps)
    (assumption | rule SetMood_mood_log |
      intro keeps_intros DeleteUser_invariants changes_keep blind_invariants)+

lemma entries_after_op:
  "op_wf x \<Longrightarrow> entries_ok (c_db w) \<Longrightarrow> entries_ok (c_db (after_op parse ul H L x w))"
  by (rule after_op_keeps)
    (assumption | rule Sign_entries_ok Hide_entries_ok Show_entries_ok |
      intro keeps_intros DeleteUser_invariants changes_keep blind_invariants)+

lemma styles_after_op:
  "op_wf x \<Longrightarrow> page_styles_ok (c_db w) \<Longrightarrow> page_styles_ok (c_db (after_op parse ul H L x w))"
  by (rule after_op_keeps)
    (assumption | rule SetStyle_page_styles_ok, assumption |
      intro keeps_intros DeleteUser_invariants changes_keep blind_invariants)+

definition store_inv :: "(string \<Rightarrow> string) \<Rightarrow> db \<Rightarrow> bool" where
  "store_inv L d = (db_ok L d \<and> accounts_ok d \<and> mood_log d \<and> entries_ok d \<and> page_styles_ok d)"

lemma store_inv_empty: "store_inv L empty_db"
  using db_ok_empty [of L]
  by (simp add: store_inv_def accounts_ok_def mood_log_def entries_ok_def page_styles_ok_def empty_db_def)

lemma service_reachable_inv:
  "service_reachable parse ul H L w \<Longrightarrow> store_inv L (c_db w)"
proof (induction rule: service_reachable.induct)
  case (empty w)
  then show ?case by (simp add: store_inv_empty)
next
  case (operation w x)
  then show ?case
    using schema_after_op accounts_after_op mood_log_after_op entries_after_op styles_after_op
    by (simp add: store_inv_def)
next
  case (environment w t fs)
  then show ?case by simp
qed

section \<open>Properties\<close>

text \<open>C9: In every state the services can reach, whatever is asked of them in whatever order and
  whichever calls fail: an account is active exactly when it has a handle, the handle is valid and
  the terms were accepted; no two accounts share a handle, an address or a photo; the display name
  is in normal form.\<close>

theorem accounts_consistent:
  assumes "service_reachable parse ul H L w" and "u \<in> set (users (c_db w))"
  shows "(u_state u = ''active'' \<longleftrightarrow> u_handle u \<noteq> None) \<and>
    (u_state u = ''pending_handle'' \<longleftrightarrow> u_handle u = None) \<and>
    (\<forall>h. u_handle u = Some h \<longrightarrow> ValidHandle h \<and> u_terms_accepted_at u \<noteq> None) \<and>
    (\<forall>n. u_display_name u = Some n \<longrightarrow> n \<noteq> [] \<and> NormaliseDisplayName n = Inr n) \<and>
    (\<forall>v\<in>set (users (c_db w)). v \<noteq> u \<longrightarrow> L (u_email v) \<noteq> L (u_email u) \<and>
       (u_handle u \<noteq> None \<longrightarrow> map_option L (u_handle v) \<noteq> map_option L (u_handle u)) \<and>
       (u_photo_key u \<noteq> None \<longrightarrow> u_photo_key v \<noteq> u_photo_key u))"
proof -
  have inv: "store_inv L (c_db w)" by (rule service_reachable_inv [OF assms(1)])
  then have "account_ok u" and keys: "user_keys L (users (c_db w))"
    using assms(2) by (auto simp: store_inv_def accounts_ok_def list_all_iff db_ok_def users_ok_def)
  then have own: "(u_state u = ''active'' \<longleftrightarrow> u_handle u \<noteq> None) \<and>
    (u_state u = ''pending_handle'' \<longleftrightarrow> u_handle u = None) \<and>
    (\<forall>h. u_handle u = Some h \<longrightarrow> ValidHandle h \<and> u_terms_accepted_at u \<noteq> None) \<and>
    (\<forall>n. u_display_name u = Some n \<longrightarrow> n \<noteq> [] \<and> NormaliseDisplayName n = Inr n)"
    by (cases "u_handle u") (auto simp: account_ok_def StateActive_def StatePendingHandle_def null_or_def)
  have "L (u_email v) \<noteq> L (u_email u)" if "v \<in> set (users (c_db w))" "v \<noteq> u" for v
    using keys that assms(2) distinct_map_filter_inj [of "\<lambda>u. L (u_email u)" "users (c_db w)" v u]
    by (auto simp: user_keys_def)
  moreover have "map_option L (u_handle v) \<noteq> map_option L (u_handle u)"
    if "v \<in> set (users (c_db w))" "v \<noteq> u" "u_handle u \<noteq> None" for v
    using keys that assms(2) distinct_columnD [of "\<lambda>u. map_option L (u_handle u)" "users (c_db w)" v u]
    by (auto simp: user_keys_def)
  moreover have "u_photo_key v \<noteq> u_photo_key u"
    if "v \<in> set (users (c_db w))" "v \<noteq> u" "u_photo_key u \<noteq> None" for v
    using keys that assms(2) distinct_columnD [of u_photo_key "users (c_db w)" v u]
    by (auto simp: user_keys_def)
  ultimately show ?thesis using own by blast
qed

text \<open>C10: In every reachable state what is stored for pages is what their packages produce: a mood is
  the last of its user's history, every guestbook entry is in normal form and by somebody else, no
  row says what no row would say, and every reference points at an account that exists.\<close>

theorem page_data_consistent:
  assumes "service_reachable parse ul H L w"
  shows "mood_log (c_db w) \<and> entries_ok (c_db w) \<and> page_styles_ok (c_db w) \<and> references_ok (c_db w)"
  using service_reachable_inv [OF assms] by (simp add: store_inv_def db_ok_def)

definition demo_blank :: conn where
  "demo_blank = \<lparr>c_db = empty_db, c_now = 1000000, c_faults = []\<rparr>"

definition demo_ops :: "service_op list" where
  "demo_ops = [OpRequestLogin 1 ''TOKEN'' ''Ana@Example.com'', OpCompleteLogin 3 ''TOKEN'',
     OpClaimHandle 3 ''ana'' 2000000]"

abbreviation demo_after :: "service_op \<Rightarrow> conn \<Rightarrow> conn" where
  "demo_after \<equiv> after_op (\<lambda>s. Some ([], s)) id id id"

lemma demo_run_reachable: "service_reachable (\<lambda>s. Some ([], s)) id id id (fold demo_after demo_ops demo_blank)"
proof -
  have "service_reachable (\<lambda>s. Some ([], s)) id id id demo_blank"
    by (rule service_reachable.empty) (simp add: demo_blank_def)
  then show ?thesis
    by (simp add: demo_ops_def service_reachable.operation op_wf_def)
qed

lemma demo_run_users: "map u_handle (users (c_db (fold demo_after demo_ops demo_blank))) = [Some ''ana'']"
  by code_simp

lemma accounts_consistent_witness:
  "\<exists>u\<in>set (users (c_db (fold demo_after demo_ops demo_blank))). u_handle u = Some ''ana'' \<and> u_state u = ''active''"
proof -
  obtain u where "u \<in> set (users (c_db (fold demo_after demo_ops demo_blank)))" "u_handle u = Some ''ana''"
    using demo_run_users by (cases "users (c_db (fold demo_after demo_ops demo_blank))") auto
  then show ?thesis
    using accounts_consistent [OF demo_run_reachable] by blast
qed

lemma page_data_consistent_witness:
  "references_ok (c_db (fold demo_after demo_ops demo_blank))"
  using page_data_consistent [OF demo_run_reachable] by blast

end
