(* ===== verification/Authority.thy ===== *)
theory Authority
  imports Demo System
begin

text \<open>
  Whose rows a request can change: the session a request carries says for whom it acts, and no
  request touches the account, moods, style or guestbook entries of anybody else.
\<close>

section \<open>What belongs to the others\<close>

text \<open>
  The rows of every account but \<open>a\<close>'s: the account itself, its mood, its history, its style, and the
  guestbook entries that neither stand on \<open>a\<close>'s page nor are signed by \<open>a\<close>.
\<close>

definition others :: "uuid option \<Rightarrow> db \<Rightarrow>
    user_row list \<times> mood_row list \<times> mood_history_row list \<times> page_style_row list \<times> guestbook_row list" where
  "others a d = (filter (\<lambda>r. Some (u_id r) \<noteq> a) (users d), filter (\<lambda>r. Some (m_user_id r) \<noteq> a) (moods d),
     filter (\<lambda>r. Some (h_user_id r) \<noteq> a) (mood_history d), filter (\<lambda>r. Some (ps_user_id r) \<noteq> a) (page_styles d),
     filter (\<lambda>r. Some (g_page_user_id r) \<noteq> a \<and> Some (g_author_user_id r) \<noteq> a) (guestbook_entries d))"

definition spares :: "uuid option \<Rightarrow> ('z conn_scheme, 'r) state \<Rightarrow> bool" where
  "spares a m = (\<forall>s. others a (c_db (snd (run_state m s))) = others a (c_db s))"

lemma sparesI: "(\<And>V. keeps (\<lambda>d. others a d = V) m) \<Longrightarrow> spares a m"
  by (simp add: spares_def keeps_def)

lemma filter_map_own:
  "(\<And>x. P x \<Longrightarrow> \<not> Q x \<and> \<not> Q (f x)) \<Longrightarrow> filter Q (map (\<lambda>x. if P x then f x else x) xs) = filter Q xs"
  by (induction xs) auto

lemma update_users_others:
  assumes "update_users L P f d = Inr d'" and "\<And>r. P r \<Longrightarrow> u_id r = u" and "\<And>r. u_id (f r) = u_id r"
  shows "others (Some u) d' = others (Some u) d"
proof -
  have "d' = d\<lparr>users := map (\<lambda>r. if P r then f r else r) (users d)\<rparr>"
    using assms(1) by (auto simp: update_users_def Let_def split: if_splits)
  moreover have "filter (\<lambda>r. u_id r \<noteq> u) (map (\<lambda>r. if P r then f r else r) (users d)) = filter (\<lambda>r. u_id r \<noteq> u) (users d)"
    by (rule filter_map_own) (use assms(2,3) in auto)
  ultimately show ?thesis by (simp add: others_def)
qed

named_theorems own_rows \<open>statements that touch one account's rows\<close>

lemma own_users [own_rows]:
  "stmt_keeps (\<lambda>d. others (Some u) d = V) (ClaimHandle L h t u n)"
  "stmt_keeps (\<lambda>d. others (Some u) d = V) (SetDisplayName L u name)"
  "stmt_keeps (\<lambda>d. others (Some u) d = V) (SetPhoto L u key wd ht start when)"
  "stmt_keeps (\<lambda>d. others (Some u) d = V) (RemovePhoto L u)"
  unfolding ClaimHandle_def SetDisplayName_def SetPhoto_def RemovePhoto_def Let_def
  by (rule stmt_keepsI; auto split: option.splits sum.splits dest!: update_users_others [where u = u])+

lemma own_tables [own_rows]:
  "stmt_keeps (\<lambda>d. others (Some u) d = V) (UpsertMood u k n)"
  "stmt_keeps (\<lambda>d. others (Some u) d = V) (InsertMoodHistory rid u k n)"
  "stmt_keeps (\<lambda>d. others (Some u) d = V) (DeletePageStyle u)"
  "ps_user_id row = u \<Longrightarrow> stmt_keeps (\<lambda>d. others (Some u) d = V) (UpsertPageStyle row)"
  "stmt_keeps (\<lambda>d. others (Some u) d = V) (CreateGuestbookEntry rid p u b)"
  "stmt_keeps (\<lambda>d. others (Some u) d = V) (SetGuestbookEntryState st e u)"
  "stmt_keeps (\<lambda>d. others (Some u) d = V) (DeleteUser u)"
proof -
  note own = filter_map_own
  show "stmt_keeps (\<lambda>d. others (Some u) d = V) (UpsertMood u k n)"
    by (rule stmt_keepsI) (auto simp: UpsertMood_def Let_def others_def own)
  show "stmt_keeps (\<lambda>d. others (Some u) d = V) (InsertMoodHistory rid u k n)"
    by (rule stmt_keepsI) (auto simp: InsertMoodHistory_def Let_def others_def)
  show "stmt_keeps (\<lambda>d. others (Some u) d = V) (DeletePageStyle u)"
    by (rule stmt_keepsI) (auto simp: DeletePageStyle_def others_def)
  show "ps_user_id row = u \<Longrightarrow> stmt_keeps (\<lambda>d. others (Some u) d = V) (UpsertPageStyle row)"
    by (rule stmt_keepsI) (auto simp: UpsertPageStyle_def others_def own)
  show "stmt_keeps (\<lambda>d. others (Some u) d = V) (CreateGuestbookEntry rid p u b)"
    by (rule stmt_keepsI) (auto simp: CreateGuestbookEntry_def Let_def others_def)
  have "filter (\<lambda>r. g_page_user_id r \<noteq> u \<and> g_author_user_id r \<noteq> u)
      (map (\<lambda>g. if g_id g = e \<and> g_page_user_id g = u then g\<lparr>g_state := st\<rparr> else g) gs) =
    filter (\<lambda>r. g_page_user_id r \<noteq> u \<and> g_author_user_id r \<noteq> u) gs" for gs :: "guestbook_row list"
    by (rule own) simp
  then show "stmt_keeps (\<lambda>d. others (Some u) d = V) (SetGuestbookEntryState st e u)"
    by (intro stmt_keepsI) (simp add: SetGuestbookEntryState_def Let_def others_def)
  show "stmt_keeps (\<lambda>d. others (Some u) d = V) (DeleteUser u)"
    by (rule stmt_keepsI) (auto simp: DeleteUser_def others_def conj_commute)
qed

lemma blind_others:
  "blind login_tokens_update (\<lambda>d. others a d = V)" "blind sessions_update (\<lambda>d. others a d = V)"
  "blind deleted_handles_update (\<lambda>d. others a d = V)"
  by (simp_all add: blind_def others_def)

lemma other_tables [own_rows]:
  "stmt_keeps (\<lambda>d. others a d = V) (RevokeSession h)"
  "stmt_keeps (\<lambda>d. others a d = V) (ReserveDeletedHandle L h' t)"
  "stmt_keeps (\<lambda>d. others a d = V) (DeleteLoginTokensForEmail L e)"
  "stmt_keeps (\<lambda>d. others a d = V) (InvalidateLoginTokensForEmail e)"
  "stmt_keeps (\<lambda>d. others a d = V) (CreateLoginToken rid h e ttl)"
  by (rule changes_keep blind_others; rule blind_others)+

section \<open>The handlers\<close>

lemma keeps_at_now [keeps_intros]: "(\<And>now. keeps I (h now r w)) \<Longrightarrow> keeps I (at_now h r w)"
  unfolding at_now_def by (intro keeps_intros) (simp_all add: keeps_def)

definition actor :: "request \<Rightarrow> uuid option" where
  "actor r = map_option ID (UserFrom r)"

lemma keeps_signed_in:
  "(\<And>u. UserFrom r = Some u \<Longrightarrow> keeps I (k u)) \<Longrightarrow> keeps I (signed_in r w k)"
  by (auto simp: signed_in_def intro: keeps_intros split: option.splits)

lemma set_colors_owner: "set_colors cs row = Inr row' \<Longrightarrow> ps_user_id row' = ps_user_id row"
  by (induction cs row rule: set_colors.induct) (auto simp: set_colorColumn_def split: option.splits if_splits)

lemma style_row_owner: "style_row u st now = Inr row \<Longrightarrow> ps_user_id row = u"
  by (auto simp: style_row_def Let_def dest!: set_colors_owner split: sum.splits)

lemma Own_rows [own_rows]:
  "keeps (\<lambda>d. others (Some u) d = V) (SetStyle u st now)"
  by (rule SetStyle_keeps) (auto intro: own_rows dest: style_row_owner)

lemma keeps_photo_parts [keeps_intros]:
  "keeps I (photo_message lib cfg now st u msg w)" "keeps I (read_refused lib cfg now u err w)"
  "keeps I (removePhotoFile key)" "keeps I (remove_if_named key)"
  unfolding photo_message_def read_refused_def removePhotoFile_def remove_if_named_def
  by (intro keeps_intros | cases err; simp; intro keeps_intros)+

lemma keeps_case_prod [keeps_intros]: "(\<And>x y. keeps I (f x y)) \<Longrightarrow> keeps I (case p of (x, y) \<Rightarrow> f x y)"
  by (cases p) simp

text \<open>Behind the guard of \<open>signed_in\<close> every handler acts for the account of the session.\<close>

lemma spares_signed_in:
  assumes "\<And>u V. UserFrom r = Some u \<Longrightarrow> keeps (\<lambda>d. others (Some (ID u)) d = V) (k u)"
  shows "spares (actor r) (signed_in r w k)"
proof (rule sparesI)
  fix V
  show "keeps (\<lambda>d. others (actor r) d = V) (signed_in r w k)"
    using assms by (cases "UserFrom r") (auto simp: actor_def intro: keeps_intros)
qed

lemma visitor_signer: "visitor_state r owner d = (data, Some signer) \<Longrightarrow> UserFrom r = Some signer"
  by (auto simp: visitor_state_def split: option.splits if_splits)

lemma guestbook_signer:
  assumes "fst (run_state (guestbookState cfg r owner) s) = (data, Some signer)"
  shows "UserFrom r = Some signer"
proof -
  have "\<exists>d. fst (run_state (guestbookState cfg r owner) s) = visitor_state r owner d"
    by (auto simp: guestbookState_def Let_def split: prod.splits)
  then show ?thesis using assms visitor_signer by metis
qed

lemma keeps_bind_val:
  "keeps I m \<Longrightarrow> (\<And>s. P (fst (run_state m s))) \<Longrightarrow> (\<And>x. P x \<Longrightarrow> keeps I (k x)) \<Longrightarrow> keeps I (State_Monad.bind m k)"
  by (auto simp: keeps_def split: prod.splits) (metis fst_conv snd_conv)

lemma handlers_spare:
  "spares (actor r) (handleClaimSubmit lib now r w)" "spares (actor r) (handleMoodSubmit lib cfg now rid r w)"
  "spares (actor r) (handleNameSubmit lib cfg now r w)" "spares (actor r) (handleStyleSubmit lib cfg now r w)"
  "spares (actor r) (handlePhotoUpload lib cfg cd now slot rnd tmp r w)" "spares (actor r) (handlePhotoRemove lib r w)"
  "spares (actor r) (handleAccountDelete lib now r w)" "spares (actor r) (handleGuestbookHide lib r w)"
  "spares (actor r) (handleGuestbookShow lib r w)"
proof -
  show "spares (actor r) (handleClaimSubmit lib now r w)"
    unfolding handleClaimSubmit_def Let_def by (rule spares_signed_in) (intro keeps_intros own_rows)
  show "spares (actor r) (handleMoodSubmit lib cfg now rid r w)"
    unfolding handleMoodSubmit_def mood_refused_def by (rule spares_signed_in) (intro keeps_intros own_rows)
  show "spares (actor r) (handleNameSubmit lib cfg now r w)"
    unfolding handleNameSubmit_def Let_def by (rule spares_signed_in) (intro keeps_intros own_rows)
  show "spares (actor r) (handleStyleSubmit lib cfg now r w)"
    unfolding handleStyleSubmit_def Let_def invalid_style_def renderStylePreview_def
    by (rule spares_signed_in) (intro keeps_intros own_rows)
  show "spares (actor r) (handlePhotoUpload lib cfg cd now slot rnd tmp r w)"
    unfolding handlePhotoUpload_def store_photo_def
    by (rule spares_signed_in) (intro keeps_intros own_rows)
  show "spares (actor r) (handlePhotoRemove lib r w)"
    unfolding handlePhotoRemove_def by (rule spares_signed_in) (intro keeps_intros own_rows)
  show "spares (actor r) (handleAccountDelete lib now r w)"
    unfolding handleAccountDelete_def by (rule spares_signed_in) (intro keeps_intros own_rows)
  show "spares (actor r) (handleGuestbookHide lib r w)" "spares (actor r) (handleGuestbookShow lib r w)"
    unfolding handleGuestbookHide_def handleGuestbookShow_def setGuestbookEntryHidden_def
    by (rule spares_signed_in; intro keeps_intros own_rows)+
qed

lemma sign_spares: "spares (actor r) (handleGuestbookSign lib cfg rid r w)"
proof (rule sparesI)
  fix V
  let ?I = "\<lambda>d. others (actor r) d = V"
  have sign: "keeps ?I (with_form r w (\<lambda>form. on_result (Sign rid p (ID signer) (FormValue r form ''body''))
      (\<lambda>err. answer (sign_refused data (FormValue r form ''body'') err w)) (\<lambda>_. answer (k data))))"
    if "UserFrom r = Some signer" for p signer data k
  proof -
    have "actor r = Some (ID signer)" using that by (simp add: actor_def)
    then show ?thesis by (simp only:) (intro keeps_intros own_rows)
  qed
  have after: "keeps ?I (do { st \<leftarrow> guestbookState cfg r owner; k st })"
    if "\<And>data. keeps ?I (k (data, None))" and
      "\<And>data signer. UserFrom r = Some signer \<Longrightarrow> keeps ?I (k (data, Some signer))" for owner and k :: "_ \<Rightarrow> ('z conn_scheme, response) state"
  proof (rule keeps_bind_val [where P = "\<lambda>st. \<forall>data signer. st = (data, Some signer) \<longrightarrow> UserFrom r = Some signer"])
    show "keeps ?I (guestbookState cfg r owner)" by (rule keeps_more_reads)
    show "\<forall>data signer. fst (run_state (guestbookState cfg r owner) s) = (data, Some signer) \<longrightarrow> UserFrom r = Some signer" for s
      using guestbook_signer by blast
    show "keeps ?I (k st)" if "\<forall>data signer. st = (data, Some signer) \<longrightarrow> UserFrom r = Some signer" for st
      using that \<open>\<And>data. keeps ?I (k (data, None))\<close>
        \<open>\<And>data signer. UserFrom r = Some signer \<Longrightarrow> keeps ?I (k (data, Some signer))\<close>
      by (cases st; cases "snd st") auto
  qed
  show "keeps ?I (handleGuestbookSign lib cfg rid r w)"
    unfolding handleGuestbookSign_def guestbookOwner_def Let_def
  proof (rule keeps_on_result, rule GetByHandle_keeps)
    show "keeps ?I (if err = ErrUserNotFound then answer (http_NotFound w) else answer (internal_error w))" for err
      by (intro keeps_intros)
  qed (rule after; simp only: prod.case option.case; (rule sign; assumption)?; intro keeps_intros)
qed

lemma login_spares:
  "spares a (handleLogout lib r w)" "spares a (handleLoginRequest lib cfg rid tok r w)"
  unfolding handleLogout_def handleLoginRequest_def Let_def
  by (rule sparesI; intro keeps_intros own_rows)+

section \<open>Through the router\<close>

lemma quiet_spares: "quiet m \<Longrightarrow> spares a m"
  by (simp add: quiet_def spares_def effects_def)

lemma spares_site:
  "(\<And>w. spares a (nxt r w)) \<Longrightarrow> spares a (rateLimit x nxt r w)"
  "(\<And>now. spares a (h now r w)) \<Longrightarrow> spares a (at_now h r w)"
  by (rule sparesI; rule keeps_rateLimit keeps_at_now; simp add: spares_def keeps_def)+

lemma actor_updates [simp]: "actor (r\<lparr>PathValues := vs\<rparr>) = actor r" "actor (r\<lparr>BodyCap := n\<rparr>) = actor r"
  "actor (withUser r u) = Some (ID u)"
  by (simp_all add: actor_def UserFrom_def withUser_def)

text \<open>Completing a sign-in, which may create an account, is the one route that adds to the others.\<close>

definition completes_login :: "request \<Rightarrow> bool" where
  "completes_login r = (Method r = ''POST'' \<and> length (Segments r) = 2 \<and> take 1 (Segments r) = [''login''])"

lemma app_routes_spare:
  "list_all (\<lambda>(meth, ps, h). meth = ''POST'' \<and> ps = [Lit ''login'', Wild ''token''] \<or>
     (meth = ''GET'' \<or> meth = ''POST'') \<and> spares (actor r) (h r w)) (appRoutes sv dr)"
  by (simp add: appRoutes_def Let_def quiet_reads [THEN quiet_spares] quiet_photos [THEN quiet_spares]
      quiet_at_now [THEN quiet_spares] quiet_reads handlers_spare sign_spares login_spares spares_site)

lemma app_mux_spares:
  assumes "\<not> completes_login r"
  shows "spares (actor r) (mux lib (appRoutes sv dr) r w)"
proof -
  have "spares (actor r) (h (r\<lparr>PathValues := vs\<rparr>) w)"
    if "find_route r (appRoutes sv dr) = Some (vs, h)" for vs h
  proof -
    obtain meth ps where rt: "(meth, ps, h) \<in> set (appRoutes sv dr)" "method_serves meth (Method r)"
        "match_path ps (Segments r) = Some vs"
      using find_route_Some [OF \<open>find_route r (appRoutes sv dr) = Some (vs, h)\<close>] by blast
    have "\<not> (meth = ''POST'' \<and> ps = [Lit ''login'', Wild ''token''])"
    proof
      assume *: "meth = ''POST'' \<and> ps = [Lit ''login'', Wild ''token'']"
      then have "Method r = ''POST''" using rt(2) by (simp add: method_serves_def)
      moreover obtain a b where ab: "Segments r = [a, b]"
        using match_path_length [OF rt(3), symmetric] * by (auto simp: length_Suc_conv)
      moreover have "a = ''login''" using rt(3) * ab by (auto split: if_splits)
      ultimately show False using assms by (simp add: completes_login_def)
    qed
    then show ?thesis
      using app_routes_spare [of "r\<lparr>PathValues := vs\<rparr>" w sv dr] rt(1) by (fastforce simp: list_all_iff)
  qed
  then show ?thesis
    by (auto simp: mux_def Let_def intro: quiet_spares [OF quiet_answer] split: option.splits)
qed

text \<open>For whom a request acts: the session its cookie names, live in the database.\<close>

definition acting :: "lib \<Rightarrow> request \<Rightarrow> 'z conn_scheme \<Rightarrow> uuid \<Rightarrow> bool" where
  "acting lib r s u = (\<exists>v. req_cookie r SessionCookieName = Some v \<and>
     fst (LookupSession (session_hash (l_hash lib) v) (c_now s) (c_db s)) = Inr u)"

definition own_only :: "lib \<Rightarrow> request \<Rightarrow> 'z conn_scheme \<Rightarrow> 'z conn_scheme \<Rightarrow> bool" where
  "own_only lib r s s' = (others None (c_db s') = others None (c_db s) \<or>
     (\<exists>u. acting lib r s u \<and> others (Some u) (c_db s') = others (Some u) (c_db s)))"

lemma Lookup_acting:
  assumes "run_state (Lookup H v) s = (Inr u, s1)"
  shows "fst (LookupSession (session_hash H v) (c_now s) (c_db s)) = Inr u"
  using assms
  by (cases rule: exec_cases [of "LookupSession (session_hash H v)" s])
    (auto simp: Lookup_def run_attempt split: if_splits sum.splits)

lemma GetByID_ID:
  assumes "run_state (GetByID uid) s = (Inr u, s1)" shows "ID u = uid"
proof -
  have "u_id row = uid" if "find (\<lambda>x. u_id x = uid) us = Some row" for us row
    using find_Some_in [OF that] by simp
  then show ?thesis
    using assms
    by (cases rule: exec_cases [of "GetUserByID uid" s])
      (auto simp: GetByID_def GetUserByID_def run_attempt split: sum.splits option.splits)
qed

lemma CurrentUser_own:
  assumes nxt: "\<And>r' w. r' = r \<or> (\<exists>u. r' = withUser r u) \<Longrightarrow> spares (actor r') (nxt r' w)"
    and none: "UserFrom r = None" and run: "run_state (CurrentUser lib nxt r w) s = (resp, s')"
  shows "own_only lib r s s'"
proof -
  have anon: "others None (c_db (snd (run_state (nxt r w) x))) = others None (c_db x)" for w x
    using nxt [of r w] none by (simp add: spares_def actor_def)
  have same: "c_db s1 = c_db x" if "run_state (Lookup H v) x = (o1, s1) \<or> run_state (GetByID u) x = (o2, s1)" for H v u x o1 o2 s1
    using that same_db [OF Lookup_keeps] same_db [OF GetByID_keeps] by blast
  show ?thesis
  proof (cases "req_cookie r SessionCookieName = None \<or> req_cookie r SessionCookieName = Some []")
    case True
    then have "run_state (nxt r w) s = (resp, s')" using run by (auto simp: CurrentUser_def)
    then show ?thesis using anon [of w s] by (simp add: own_only_def)
  next
    case False
    then obtain v where v: "req_cookie r SessionCookieName = Some v" "v \<noteq> []" by auto
    obtain x s1 where look: "run_state (Lookup (l_hash lib) v) s = (x, s1)" by fastforce
    have s1: "c_db s1 = c_db s" using same look by blast
    show ?thesis
    proof (cases x)
      case (Inl err)
      then show ?thesis
        using run v look anon [of w s1] s1
        by (auto simp: CurrentUser_def run_on_result run_answer own_only_def split: if_splits)
    next
      case (Inr uid)
      obtain y s2 where get: "run_state (GetByID uid) s1 = (y, s2)" by fastforce
      have s2: "c_db s2 = c_db s" using same get s1 by metis
      show ?thesis
      proof (cases y)
        case (Inl err)
        then show ?thesis
          using run v look Inr get anon [of w s2] s2
          by (auto simp: CurrentUser_def run_on_result run_answer own_only_def split: if_splits)
      next
        case y: (Inr u)
        have "run_state (nxt (withUser r u) w) s2 = (resp, s')"
          using run v look Inr get y by (simp add: CurrentUser_def run_on_result)
        moreover have "spares (Some (ID u)) (nxt (withUser r u) w)" using nxt [of "withUser r u" w] by auto
        ultimately have "others (Some (ID u)) (c_db s') = others (Some (ID u)) (c_db s)"
          unfolding spares_def s2 [symmetric] by (metis snd_conv)
        moreover have "ID u = uid" using GetByID_ID get y by blast
        moreover have "acting lib r s uid"
          using Lookup_acting look Inr v(1) unfolding acting_def by blast
        ultimately show ?thesis unfolding own_only_def by metis
      qed
    qed
  qed
qed

lemma own_only_refl: "c_db s' = c_db s \<Longrightarrow> own_only lib r s s'"
  by (simp add: own_only_def)

lemma app_surface_own:
  assumes "UserFrom r = None" "\<not> completes_login r" "run_state (app_surface sv dr r w) s = (resp, s')"
  shows "own_only (sv_lib sv) r s s'"
proof -
  let ?inner = "CurrentUser (sv_lib sv) (mux (sv_lib sv) (appRoutes sv dr))"
  have inner: "own_only (sv_lib sv) r s s'" if run: "run_state (?inner r' w') s = (resp, s')"
    and r': "r' = r \<or> r' = r\<lparr>BodyCap := n\<rparr>" for r' w' n
  proof -
    have "\<not> completes_login q" if "q = r' \<or> (\<exists>u. q = withUser r' u)" for q
      using that r' assms(2) by (auto simp: completes_login_def withUser_def)
    then have "own_only (sv_lib sv) r' s s'"
      by (intro CurrentUser_own [OF app_mux_spares _ run]) (use r' assms(1) in \<open>auto simp: UserFrom_def\<close>)
    then show ?thesis using r' by (auto simp: own_only_def acting_def req_cookie_def)
  qed
  show ?thesis
    using assms(3)
    by (auto simp: app_surface_def AppCSP_def csp_def PrivateCache_def CrossOrigin_def BodyLimit_def run_answer
        intro: own_only_refl inner split: if_splits)
qed



end
