(* ===== verification/PhotoRace.thy ===== *)
theory PhotoRace
  imports PhotoFiles System
begin

text \<open>
  Many uploads, removals and deletions at once (\<open>internal/web/photo.go\<close>, \<open>account.go\<close>): each request
  is a thread that stops between the calls that touch what the threads share, the database, the
  photo directory and the one processing slot, and the threads' calls interleave in any order.
\<close>

section \<open>The threads\<close>

text \<open>
  Where a request has got to: nowhere yet; waiting at the \<open>select\<close> of \<open>processPhoto\<close>; inside
  \<open>processLocked\<close>; about to save the processed photo; about to name the saved file in the database;
  about to remove the new file after \<open>SetPhoto\<close> failed; about to remove the old file after the
  database stopped naming it; answered.
\<close>

datatype phase =
    Idle
  | Waiting User instant string
  | Processing User instant string
  | Saving User instant Result
  | Naming User instant Result string
  | Undoing string
  | Cleaning string
  | Answered

record race =
  rc_web :: web
  rc_slot :: bool
  rc_phase :: "nat \<Rightarrow> phase"
  rc_drawn :: "string set"

text \<open>What a request still means to do with the files: the keys it alone knows.\<close>

fun own_keys :: "phase \<Rightarrow> string set" where
  "own_keys (Naming u now res key) = {key}"
| "own_keys (Undoing key) = {key}"
| "own_keys (Cleaning old) = (if old = [] then {} else {old})"
| "own_keys _ = {}"

definition set_phase :: "nat \<Rightarrow> phase \<Rightarrow> race \<Rightarrow> race" where
  "set_phase i p s = s\<lparr>rc_phase := (rc_phase s)(i := p)\<rparr>"

definition name_photo :: "lib \<Rightarrow> User \<Rightarrow> instant \<Rightarrow> Result \<Rightarrow> string \<Rightarrow> (unit, user_err + string) web_prog" where
  "name_photo lib u now res key =
     SetPhoto_service (l_fold lib) (ID u) key (RWidth res) (RHeight res) (dayStart now) now"

text \<open>
  One step of thread \<open>i\<close>.  A key is drawn at random: one that was never drawn before and names no
  file.  Processing gives the slot back on every exit, a panic of the processor included.  A request may be
  answered without reaching the photos at all.  With
  \<open>lossy\<close> the answer of an \<open>UPDATE\<close> that took effect may be lost, as when the client goes away at
  that moment; without it a call that fails has done nothing.
\<close>

inductive race_step :: "bool \<Rightarrow> lib \<Rightarrow> codecs \<Rightarrow> nat \<Rightarrow> race \<Rightarrow> race \<Rightarrow> bool" for lossy lib cd i where
  arrive: "rc_phase s i = Idle \<Longrightarrow> race_step lossy lib cd i s (set_phase i (Waiting u now data) s)"
| turned_away: "rc_phase s i = Idle \<Longrightarrow> race_step lossy lib cd i s (set_phase i Answered s)"
| take_slot: "rc_phase s i = Waiting u now data \<Longrightarrow> \<not> rc_slot s \<Longrightarrow>
    race_step lossy lib cd i s (set_phase i (Processing u now data) s\<lparr>rc_slot := True\<rparr>)"
| wait_ends: "rc_phase s i = Waiting u now data \<Longrightarrow> processPhoto cd w data = Inl (st, msg) \<Longrightarrow>
    w = SlotTimeout \<or> w = ClientGone \<Longrightarrow> race_step lossy lib cd i s (set_phase i Answered s)"
| processed: "rc_phase s i = Processing u now data \<Longrightarrow> processPhoto cd SlotTaken data = Inr res \<Longrightarrow>
    race_step lossy lib cd i s (set_phase i (Saving u now res) s\<lparr>rc_slot := False\<rparr>)"
| refused: "rc_phase s i = Processing u now data \<Longrightarrow> processPhoto cd SlotTaken data = Inl (st, msg) \<Longrightarrow>
    race_step lossy lib cd i s (set_phase i Answered s\<lparr>rc_slot := False\<rparr>)"
| panicked: "rc_phase s i = Processing u now data \<Longrightarrow>
    race_step lossy lib cd i s (set_phase i Answered s\<lparr>rc_slot := False\<rparr>)"
| saved: "rc_phase s i = Saving u now res \<Longrightarrow> length rnd = keyBytes \<Longrightarrow> key = NewKey rnd \<Longrightarrow>
    key \<notin> rc_drawn s \<Longrightarrow> w_files (rc_web s) (key @ ext) = None \<Longrightarrow> has_prefix tmp ''.upload-'' \<Longrightarrow>
    run_state (Save tmp key (JPEG res)) (rc_web s) = (Inr x, w') \<Longrightarrow>
    race_step lossy lib cd i s
      (set_phase i (Naming u now res key) s\<lparr>rc_web := w', rc_drawn := insert key (rc_drawn s)\<rparr>)"
| not_saved: "rc_phase s i = Saving u now res \<Longrightarrow> length rnd = keyBytes \<Longrightarrow> key = NewKey rnd \<Longrightarrow>
    key \<notin> rc_drawn s \<Longrightarrow> w_files (rc_web s) (key @ ext) = None \<Longrightarrow> has_prefix tmp ''.upload-'' \<Longrightarrow>
    run_state (Save tmp key (JPEG res)) (rc_web s) = (Inl e, w') \<Longrightarrow>
    race_step lossy lib cd i s
      (set_phase i Answered s\<lparr>rc_web := w', rc_drawn := insert key (rc_drawn s)\<rparr>)"
| named: "rc_phase s i = Naming u now res key \<Longrightarrow>
    run_state (name_photo lib u now res key) (rc_web s) = (Inr old, w') \<Longrightarrow>
    race_step lossy lib cd i s (set_phase i (Cleaning old) s\<lparr>rc_web := w'\<rparr>)"
| not_named: "rc_phase s i = Naming u now res key \<Longrightarrow>
    run_state (name_photo lib u now res key) (rc_web s) = (Inl e, w') \<Longrightarrow>
    race_step lossy lib cd i s (set_phase i (Undoing key) s\<lparr>rc_web := w'\<rparr>)"
| answer_lost: "lossy \<Longrightarrow> rc_phase s i = Naming u now res key \<Longrightarrow>
    run_state (name_photo lib u now res key) (rc_web s) = (Inr old, w') \<Longrightarrow>
    race_step lossy lib cd i s (set_phase i (Undoing key) s\<lparr>rc_web := w'\<rparr>)"
| undone: "rc_phase s i = Undoing key \<Longrightarrow> run_state (removePhotoFile key) (rc_web s) = (x, w') \<Longrightarrow>
    race_step lossy lib cd i s (set_phase i Answered s\<lparr>rc_web := w'\<rparr>)"
| cleaned: "rc_phase s i = Cleaning old \<Longrightarrow> run_state (remove_if_named old) (rc_web s) = (x, w') \<Longrightarrow>
    race_step lossy lib cd i s (set_phase i Answered s\<lparr>rc_web := w'\<rparr>)"
| photo_removed: "rc_phase s i = Idle \<Longrightarrow> run_state (RemovePhoto_service (l_fold lib) uid) (rc_web s) = (Inr old, w') \<Longrightarrow>
    race_step lossy lib cd i s (set_phase i (Cleaning old) s\<lparr>rc_web := w'\<rparr>)"
| not_removed: "rc_phase s i = Idle \<Longrightarrow> run_state (RemovePhoto_service (l_fold lib) uid) (rc_web s) = (Inl e, w') \<Longrightarrow>
    race_step lossy lib cd i s (set_phase i Answered s\<lparr>rc_web := w'\<rparr>)"
| account_deleted: "rc_phase s i = Idle \<Longrightarrow> run_state (DeleteAccount (l_fold lib) uid now) (rc_web s) = (Inr old, w') \<Longrightarrow>
    race_step lossy lib cd i s (set_phase i (Cleaning old) s\<lparr>rc_web := w'\<rparr>)"
| not_deleted: "rc_phase s i = Idle \<Longrightarrow> run_state (DeleteAccount (l_fold lib) uid now) (rc_web s) = (Inl e, w') \<Longrightarrow>
    race_step lossy lib cd i s
      (set_phase i Answered s\<lparr>rc_web := w'\<rparr>)"
| elsewhere: "w_files w' = w_files (rc_web s) \<Longrightarrow> stored_keys (c_db w') = stored_keys (c_db (rc_web s)) \<Longrightarrow>
    db_ok (l_fold lib) (c_db w') \<Longrightarrow> race_step lossy lib cd i s (s\<lparr>rc_web := w'\<rparr>)"

inductive race_reachable :: "bool \<Rightarrow> lib \<Rightarrow> codecs \<Rightarrow> race \<Rightarrow> bool" for lossy lib cd where
  start: "photos_on_disk (l_fold lib) (rc_web s) \<Longrightarrow> \<not> rc_slot s \<Longrightarrow> rc_phase s = (\<lambda>_. Idle) \<Longrightarrow>
    stored_keys (c_db (rc_web s)) \<subseteq> rc_drawn s \<Longrightarrow> race_reachable lossy lib cd s"
| step: "race_reachable lossy lib cd s \<Longrightarrow> race_step lossy lib cd i s s' \<Longrightarrow> race_reachable lossy lib cd s'"

lemma set_phase_simps [simp]:
  "rc_phase (set_phase i p s) = (rc_phase s)(i := p)" "rc_slot (set_phase i p s) = rc_slot s"
  "rc_web (set_phase i p s) = rc_web s" "rc_drawn (set_phase i p s) = rc_drawn s"
  by (simp_all add: set_phase_def)

section \<open>The slot\<close>

fun is_processing :: "phase \<Rightarrow> bool" where
  "is_processing (Processing u now data) = True"
| "is_processing _ = False"

text \<open>The slot is full exactly while one thread is processing.\<close>

definition slot_ok :: "race \<Rightarrow> bool" where
  "slot_ok s = (rc_slot s = (\<exists>i. is_processing (rc_phase s i)) \<and>
     (\<forall>i j. is_processing (rc_phase s i) \<longrightarrow> is_processing (rc_phase s j) \<longrightarrow> i = j))"

lemma slot_ok_elsewhere [simp]:
  "slot_ok (s\<lparr>rc_web := w\<rparr>) = slot_ok s" "slot_ok (s\<lparr>rc_drawn := K\<rparr>) = slot_ok s"
  by (simp_all add: slot_ok_def)

lemma slot_ok_same [simp]:
  assumes "\<not> is_processing p" "\<not> is_processing (rc_phase s i)"
  shows "slot_ok (set_phase i p s) = slot_ok s"
proof -
  have "is_processing (rc_phase (set_phase i p s) j) = is_processing (rc_phase s j)" for j
    using assms by simp
  then show ?thesis by (simp only: slot_ok_def set_phase_simps(2))
qed

lemma slot_ok_taken:
  assumes "slot_ok s" "rc_phase s' = (rc_phase s)(i := p)" "\<not> rc_slot s" "rc_slot s'" "is_processing p"
  shows "slot_ok s'"
  using assms unfolding slot_ok_def by auto

lemma slot_ok_free:
  assumes "slot_ok s" "rc_phase s' = (rc_phase s)(i := p)" "is_processing (rc_phase s i)" "\<not> rc_slot s'" "\<not> is_processing p"
  shows "slot_ok s'"
proof -
  have "\<not> is_processing (rc_phase s' j)" for j
  proof (cases "j = i")
    case False
    have "is_processing (rc_phase s j) \<Longrightarrow> j = i" using assms(1,3) unfolding slot_ok_def by blast
    moreover have "rc_phase s' j = rc_phase s j" using False assms(2) by simp
    ultimately show ?thesis using False by fastforce
  qed (use assms(2,5) in simp)
  then show ?thesis using assms(4) by (simp add: slot_ok_def)
qed

lemma race_step_slot: "race_step lossy lib cd i s s' \<Longrightarrow> slot_ok s \<Longrightarrow> slot_ok s'"
proof (induction rule: race_step.induct)
  case (take_slot s u now data)
  from take_slot(3) show ?case
    by (rule slot_ok_taken [where i = i and p = "Processing u now data"]) (simp_all add: take_slot)
next
  case (processed s u now data res)
  from processed(3) show ?case
    by (rule slot_ok_free [where i = i and p = "Saving u now res"]) (simp_all add: processed)
next
  case (refused s u now data st msg)
  from refused(3) show ?case
    by (rule slot_ok_free [where i = i and p = Answered]) (simp_all add: refused)
next
  case (panicked s u now data)
  from panicked(2) show ?case
    by (rule slot_ok_free [where i = i and p = Answered]) (simp_all add: panicked)
qed simp_all

lemma race_slot: "race_reachable lossy lib cd s \<Longrightarrow> slot_ok s"
  by (induction rule: race_reachable.induct) (auto intro: race_step_slot, simp add: slot_ok_def)

section \<open>Names and files\<close>

definition race_ok :: "lib \<Rightarrow> race \<Rightarrow> bool" where
  "race_ok lib s = (photos_on_disk (l_fold lib) (rc_web s) \<and> stored_keys (c_db (rc_web s)) \<subseteq> rc_drawn s \<and>
     (\<forall>i. own_keys (rc_phase s i) \<subseteq> rc_drawn s - stored_keys (c_db (rc_web s))) \<and>
     (\<forall>i j. i \<noteq> j \<longrightarrow> own_keys (rc_phase s i) \<inter> own_keys (rc_phase s j) = {}) \<and>
     (\<forall>i u now res key. rc_phase s i = Naming u now res key \<longrightarrow>
        ValidKey key \<and> w_files (rc_web s) (key @ ext) \<noteq> None))"

lemma race_okI:
  assumes ok: "race_ok lib s" and ph: "rc_phase s' = (rc_phase s)(i := p)"
    and disk: "photos_on_disk (l_fold lib) (rc_web s')" and drawn: "rc_drawn s \<subseteq> rc_drawn s'"
    and names: "stored_keys (c_db (rc_web s')) \<subseteq> stored_keys (c_db (rc_web s)) \<union> own_keys (rc_phase s i)"
    and mine: "own_keys p \<subseteq> own_keys (rc_phase s i) \<union> (rc_drawn s' - rc_drawn s) \<union> stored_keys (c_db (rc_web s))"
    and gone: "own_keys p \<inter> stored_keys (c_db (rc_web s')) = {}"
    and whole: "\<And>u now res key. p = Naming u now res key \<Longrightarrow> ValidKey key \<and> w_files (rc_web s') (key @ ext) \<noteq> None"
    and files: "\<And>j k. j \<noteq> i \<Longrightarrow> k \<in> own_keys (rc_phase s j) \<Longrightarrow> ValidKey k \<Longrightarrow>
      w_files (rc_web s') (k @ ext) = w_files (rc_web s) (k @ ext)"
  shows "race_ok lib s'"
proof -
  let ?S = "stored_keys (c_db (rc_web s))" and ?S' = "stored_keys (c_db (rc_web s'))"
  have own: "own_keys (rc_phase s j) \<subseteq> rc_drawn s - ?S" for j using ok by (simp add: race_ok_def)
  have apart: "own_keys (rc_phase s i) \<inter> own_keys (rc_phase s j) = {}" if "j \<noteq> i" for j
    using ok that by (simp add: race_ok_def)
  have S: "?S \<subseteq> rc_drawn s" using ok by (simp add: race_ok_def)
  have new: "own_keys (rc_phase s j) \<inter> own_keys p = {}" if "j \<noteq> i" for j
    using mine own [of j] apart [OF that] by blast
  have "?S' \<subseteq> rc_drawn s'" using names S own [of i] drawn by blast
  moreover have "own_keys (rc_phase s' j) \<subseteq> rc_drawn s' - ?S'" for j
  proof (cases "j = i")
    case True
    have "own_keys p \<subseteq> rc_drawn s' - ?S'" using mine gone own [of i] S drawn by blast
    then show ?thesis using True ph by simp
  next
    case False
    then have "own_keys (rc_phase s j) \<subseteq> rc_drawn s' - ?S'" using own [of j] apart names drawn by blast
    then show ?thesis using False ph by simp
  qed
  moreover have "own_keys (rc_phase s' j) \<inter> own_keys (rc_phase s' k) = {}" if "j \<noteq> k" for j k
    using that new [of j] new [of k] ok ph by (auto simp: race_ok_def split: if_splits)
  moreover have "ValidKey key \<and> w_files (rc_web s') (key @ ext) \<noteq> None"
    if "rc_phase s' j = Naming u now res key" for j u now res key
  proof (cases "j = i")
    case False
    then have "rc_phase s j = Naming u now res key" using that ph by simp
    moreover from this have "ValidKey key \<and> w_files (rc_web s) (key @ ext) \<noteq> None"
      using ok by (simp add: race_ok_def)
    ultimately show ?thesis using files [OF False, of key] by simp
  qed (use that whole ph in simp)
  ultimately show ?thesis using disk by (simp add: race_ok_def)
qed

text \<open>A step that touches neither the names nor the files.\<close>

lemma race_ok_slot [simp]: "race_ok lib (s\<lparr>rc_slot := b\<rparr>) = race_ok lib s"
  by (simp add: race_ok_def)

lemma race_ok_quiet [simp]:
  assumes "race_ok lib s" "own_keys p = {}"
  shows "race_ok lib (set_phase i p s)"
proof (rule race_okI [OF assms(1), where i = i and p = p])
  show "photos_on_disk (l_fold lib) (rc_web (set_phase i p s))" using assms(1) by (simp add: race_ok_def)
qed (use assms(2) in auto)

lemma race_ok_start:
  "photos_on_disk (l_fold lib) (rc_web s) \<Longrightarrow> rc_phase s = (\<lambda>_. Idle) \<Longrightarrow>
    stored_keys (c_db (rc_web s)) \<subseteq> rc_drawn s \<Longrightarrow> race_ok lib s"
  by (simp add: race_ok_def)

text \<open>The steps that touch the disk or the names.\<close>

lemma race_ok_save:
  assumes ok: "race_ok lib s" and i: "rc_phase s i = Saving u now res"
    and key: "length rnd = keyBytes" "key = NewKey rnd" "key \<notin> rc_drawn s" "w_files (rc_web s) (key @ ext) = None"
    and save: "has_prefix tmp ''.upload-''" "run_state (Save tmp key (JPEG res)) (rc_web s) = (r, w')"
    and s': "rc_phase s' = (rc_phase s)(i := p)" "rc_web s' = w'" "rc_drawn s' = insert key (rc_drawn s)"
    and p: "own_keys p = {} \<and> (\<forall>u now res k. p \<noteq> Naming u now res k) \<or> p = Naming u now res key \<and> r = Inr ()"
  shows "race_ok lib s'"
proof (rule race_okI [OF ok s'(1)])
  have mine: "own_keys p \<subseteq> {key}" by (rule disjE [OF p]) simp_all
  have whole: "r = Inr () \<and> k = key" if "p = Naming u' now' res' k" for u' now' res' k
    by (rule disjE [OF p]) (simp_all add: that)
  have disk: "photos_on_disk (l_fold lib) (rc_web s)" using ok by (simp add: race_ok_def)
  note saved = Save_keeps [OF save(2,1) disk key(4)]
  have db: "c_db w' = c_db (rc_web s)" by (rule same_db [OF keeps_photos(1) save(2)])
  have valid: "ValidKey key" using NewKey_valid key(1,2) by simp
  show "photos_on_disk (l_fold lib) (rc_web s')" using saved(1) s'(2) by simp
  show "rc_drawn s \<subseteq> rc_drawn s'" using s'(3) by auto
  show "stored_keys (c_db (rc_web s')) \<subseteq> stored_keys (c_db (rc_web s)) \<union> own_keys (rc_phase s i)"
    using db s'(2) by simp
  show "own_keys p \<subseteq> own_keys (rc_phase s i) \<union> (rc_drawn s' - rc_drawn s) \<union> stored_keys (c_db (rc_web s))"
    using mine key(3) s'(3) by blast
  show "own_keys p \<inter> stored_keys (c_db (rc_web s')) = {}"
    using mine saved(3) db s'(2) by auto
  show "ValidKey k \<and> w_files (rc_web s') (k @ ext) \<noteq> None" if "p = Naming u' now' res' k" for u' now' res' k
    using whole [OF that] valid saved(2) s'(2) by simp
  show "w_files (rc_web s') (k @ ext) = w_files (rc_web s) (k @ ext)"
    if "j \<noteq> i" "k \<in> own_keys (rc_phase s j)" "ValidKey k" for j k
  proof -
    have "k \<in> rc_drawn s" using that(2) ok by (auto simp: race_ok_def)
    then have "k \<noteq> key" using key(3) by auto
    moreover have "k @ ext \<noteq> tmp" using temp_name [OF save(1) that(3)] by simp
    ultimately show ?thesis using Save_effect [OF save(2,1)] s'(2) by (simp add: ext_def)
  qed
qed

text \<open>The database stops naming \<open>old\<close> and may now name what the thread has saved.\<close>

lemma race_ok_renamed:
  assumes ok: "race_ok lib s"
    and m: "conn_only m" "run_state m (rc_web s) = (res, w')" "db_ok (l_fold lib) (c_db w')"
    and new: "new \<subseteq> own_keys (rc_phase s i)" "on_disk (w_files (rc_web s)) new"
    and ren: "renamed new old (c_db (rc_web s)) (c_db w')"
    and s': "rc_phase s' = (rc_phase s)(i := Cleaning old)" "rc_web s' = w'" "rc_drawn s' = rc_drawn s"
  shows "race_ok lib s'"
proof (rule race_okI [OF ok s'(1)])
  have disk: "photos_on_disk (l_fold lib) (rc_web s)" using ok by (simp add: race_ok_def)
  have files: "w_files w' = w_files (rc_web s)" by (rule conn_only_outside(2) [OF m(1,2)])
  have old: "old \<in> stored_keys (c_db (rc_web s))" "old \<notin> stored_keys (c_db w')" if "old \<noteq> []"
  proof -
    show in_db: "old \<in> stored_keys (c_db (rc_web s))" using ren that by (simp add: renamed_def)
    have "own_keys (rc_phase s i) \<subseteq> rc_drawn s - stored_keys (c_db (rc_web s))" using ok by (simp add: race_ok_def)
    then have "old \<notin> new" using in_db new(1) by blast
    then show "old \<notin> stored_keys (c_db w')" using ren that by (simp add: renamed_def)
  qed
  show "photos_on_disk (l_fold lib) (rc_web s')"
    using renamed_on_disk [OF disk m(1,2,3) ren new(2)] s'(2) by simp
  show "stored_keys (c_db (rc_web s')) \<subseteq> stored_keys (c_db (rc_web s)) \<union> own_keys (rc_phase s i)"
    using ren new(1) s'(2) by (auto simp: renamed_def)
  show "own_keys (Cleaning old) \<subseteq> own_keys (rc_phase s i) \<union> (rc_drawn s' - rc_drawn s) \<union> stored_keys (c_db (rc_web s))"
    using old(1) by auto
  show "own_keys (Cleaning old) \<inter> stored_keys (c_db (rc_web s')) = {}"
    using old(2) s'(2) by auto
qed (use s' conn_only_outside(2) [OF m(1,2)] in simp_all)

text \<open>A thread removes the file of a key of its own.\<close>

lemma race_ok_removed:
  assumes ok: "race_ok lib s" and key: "key \<in> own_keys (rc_phase s i)"
    and rm: "run_state (removePhotoFile key) (rc_web s) = (x, w')"
    and s': "rc_phase s' = (rc_phase s)(i := Answered)" "rc_web s' = w'" "rc_drawn s' = rc_drawn s"
  shows "race_ok lib s'"
proof (rule race_okI [OF ok s'(1)])
  have disk: "photos_on_disk (l_fold lib) (rc_web s)" using ok by (simp add: race_ok_def)
  note rmd = removePhotoFile_effect [OF rm]
  have out: "key \<notin> stored_keys (c_db (rc_web s))" using key ok by (auto simp: race_ok_def)
  show "photos_on_disk (l_fold lib) (rc_web s')" using removePhotoFile_keeps [OF disk out rm] s'(2) by simp
  show "w_files (rc_web s') (k @ ext) = w_files (rc_web s) (k @ ext)" if "j \<noteq> i" "k \<in> own_keys (rc_phase s j)" for j k
  proof -
    have "own_keys (rc_phase s j) \<inter> own_keys (rc_phase s i) = {}" using ok that(1) by (simp add: race_ok_def)
    then have "k \<noteq> key" using key that(2) by blast
    then show ?thesis using rmd(2) s'(2) by simp
  qed
qed (use s' removePhotoFile_effect(1) [OF rm] in simp_all)

lemma race_ok_failed:
  assumes ok: "race_ok lib s"
    and m: "conn_only m" "run_state m (rc_web s) = (res, w')" "c_db w' = c_db (rc_web s)"
    and s': "rc_phase s' = (rc_phase s)(i := p)" "rc_web s' = w'" "rc_drawn s' = rc_drawn s"
    and p: "own_keys p \<subseteq> own_keys (rc_phase s i)" "\<And>u now res k. p \<noteq> Naming u now res k"
  shows "race_ok lib s'"
proof (rule race_okI [OF ok s'(1)])
  have files: "w_files w' = w_files (rc_web s)" by (rule conn_only_outside(2) [OF m(1,2)])
  then show "photos_on_disk (l_fold lib) (rc_web s')"
    using ok m(3) s'(2) by (simp add: race_ok_def photos_on_disk_def)
  have "own_keys (rc_phase s i) \<subseteq> rc_drawn s - stored_keys (c_db (rc_web s))" using ok by (simp add: race_ok_def)
  then show "own_keys p \<inter> stored_keys (c_db (rc_web s')) = {}" using p(1) m(3) s'(2) by auto
  show "own_keys p \<subseteq> own_keys (rc_phase s i) \<union> (rc_drawn s' - rc_drawn s) \<union> stored_keys (c_db (rc_web s))"
    using p(1) by auto
qed (use s' m(3) p(2) conn_only_outside(2) [OF m(1,2)] in simp_all)

lemma service_calls:
  "conn_only (name_photo lib u now res key)" "conn_only (RemovePhoto_service L uid)" "conn_only (DeleteAccount L uid t)"
  "keeps (db_ok (l_fold lib)) (name_photo lib u now res key)" "keeps (db_ok L) (RemovePhoto_service L uid)"
  "keeps (db_ok L) (DeleteAccount L uid t)"
  unfolding name_photo_def by (intro conn_only_intros | intro keeps_intros stmt_intros)+

lemma race_step_ok:
  assumes "race_step False lib cd i s s'" "race_ok lib s"
  shows "race_ok lib s'"
proof -
  have disk: "photos_on_disk (l_fold lib) (rc_web s)" and db: "db_ok (l_fold lib) (c_db (rc_web s))"
    using assms(2) by (simp_all add: race_ok_def photos_on_disk_def)
  show ?thesis using assms(1)
  proof (cases rule: race_step.cases)
    case (saved u now res rnd key tmp x w')
    then show ?thesis
      by (intro race_ok_save [OF assms(2) saved(2-8), where p = "Naming u now res key"]) simp_all
  next
    case (not_saved u now res rnd key tmp e w')
    then show ?thesis
      by (intro race_ok_save [OF assms(2) not_saved(2-8), where p = Answered]) simp_all
  next
    case (named u now res key old w')
    have there: "w_files (rc_web s) (key @ ext) \<noteq> None" using assms(2) named(2) by (auto simp: race_ok_def)
    have "renamed {key} old (c_db (rc_web s)) (c_db w')"
      using SetPhoto_service_renames [OF db] named(3) unfolding name_photo_def by fastforce
    then show ?thesis
      using named there db_ok_service [OF service_calls(4) named(3) disk]
      by (intro race_ok_renamed [OF assms(2) service_calls(1) named(3), where new = "{key}"])
        (simp_all add: on_disk_def)
  next
    case (not_named u now res key e w')
    have "c_db w' = c_db (rc_web s)"
      using SetPhoto_service_renames [OF db] not_named(3) unfolding name_photo_def by fastforce
    then show ?thesis
      using not_named by (intro race_ok_failed [OF assms(2) service_calls(1) not_named(3), where i = i
        and p = "Undoing key"]) simp_all
  next
    case (photo_removed uid old w')
    have "renamed {} old (c_db (rc_web s)) (c_db w')"
      using RemovePhoto_service_renames [OF db photo_removed(3)] by simp
    then show ?thesis
      using photo_removed db_ok_service [OF service_calls(5) photo_removed(3) disk]
      by (intro race_ok_renamed [OF assms(2) service_calls(2) photo_removed(3), where new = "{}"])
        (simp_all add: on_disk_def)
  next
    case (account_deleted uid now old w')
    have "renamed {} old (c_db (rc_web s)) (c_db w')"
      using DeleteAccount_renames [OF db account_deleted(3)] by simp
    then show ?thesis
      using account_deleted db_ok_service [OF service_calls(6) account_deleted(3) disk]
      by (intro race_ok_renamed [OF assms(2) service_calls(3) account_deleted(3), where new = "{}"])
        (simp_all add: on_disk_def)
  next
    case (not_removed uid e w')
    have "c_db w' = c_db (rc_web s)" using RemovePhoto_service_renames [OF db not_removed(3)] by simp
    then show ?thesis
      using not_removed by (intro race_ok_failed [OF assms(2) service_calls(2) not_removed(3), where i = i and p = Answered]) simp_all
  next
    case (not_deleted uid now e w')
    have "c_db w' = c_db (rc_web s)" using DeleteAccount_renames [OF db not_deleted(3)] by simp
    then show ?thesis
      using not_deleted by (intro race_ok_failed [OF assms(2) service_calls(3) not_deleted(3), where i = i
        and p = Answered]) simp_all
  next
    case (undone key x w')
    then show ?thesis by (intro race_ok_removed [OF assms(2) _ undone(3), where i = i]) simp_all
  next
    case (cleaned old x w')
    show ?thesis
    proof (cases "old = []")
      case True
      then have "w' = rc_web s" using cleaned(3) by (simp add: remove_if_named_def)
      then have "s' = set_phase i Answered s" using cleaned(1) by (simp add: set_phase_def)
      then show ?thesis using assms(2) by simp
    next
      case False
      then have "run_state (removePhotoFile old) (rc_web s) = (x, w')" using cleaned(3) by (simp add: remove_if_named_def)
      then show ?thesis
        using cleaned False by (intro race_ok_removed [OF assms(2), where key = old and i = i]) simp_all
    qed
  next
    case (elsewhere w')
    then show ?thesis using assms(2) by (simp add: race_ok_def photos_on_disk_def)
  qed (use assms(2) in simp_all)
qed

section \<open>The handlers are runs of one thread\<close>

definition race_run :: "bool \<Rightarrow> lib \<Rightarrow> codecs \<Rightarrow> race \<Rightarrow> race \<Rightarrow> bool" where
  "race_run lossy lib cd = (\<lambda>s s'. \<exists>i. race_step lossy lib cd i s s')\<^sup>*\<^sup>*"

lemma race_run_refl [simp]: "race_run lossy lib cd s s"
  by (simp add: race_run_def)

lemma race_run_step:
  "race_step lossy lib cd i s t \<Longrightarrow> race_run lossy lib cd t s' \<Longrightarrow> race_run lossy lib cd s s'"
  unfolding race_run_def by (blast intro: converse_rtranclp_into_rtranclp)

text \<open>A run that ends with thread \<open>i\<close> answered and the world \<open>w'\<close>.\<close>

definition runs_to :: "bool \<Rightarrow> lib \<Rightarrow> codecs \<Rightarrow> nat \<Rightarrow> race \<Rightarrow> web \<Rightarrow> bool" where
  "runs_to lossy lib cd i s w' =
     (\<exists>s'. race_run lossy lib cd s s' \<and> rc_phase s' i = Answered \<and> rc_web s' = w')"

lemma runs_to_step: "race_step lossy lib cd i s t \<Longrightarrow> runs_to lossy lib cd i t w' \<Longrightarrow> runs_to lossy lib cd i s w'"
  unfolding runs_to_def by (blast intro: race_run_step)

lemma runs_to_answered: "rc_phase s i = Answered \<Longrightarrow> rc_web s = w' \<Longrightarrow> runs_to lossy lib cd i s w'"
  unfolding runs_to_def by (blast intro: race_run_refl)

text \<open>A page rendered after the last step on the photos only reads.\<close>

lemma runs_to_rendered:
  assumes "rc_phase s i = Answered" and m: "conn_only m" "\<And>I. keeps I m" "run_state m (rc_web s) = (r, w')"
    and "photos_on_disk (l_fold lib) w'"
  shows "runs_to lossy lib cd i s w'"
proof (rule runs_to_step [where t = "s\<lparr>rc_web := w'\<rparr>"])
  show "race_step lossy lib cd i s (s\<lparr>rc_web := w'\<rparr>)"
    using same_db [OF m(2,3)] conn_only_outside(2) [OF m(1,3)] assms(5)
    by (intro race_step.elsewhere) (simp_all add: photos_on_disk_def)
qed (simp add: runs_to_answered assms(1))

lemma store_photo_runs:
  assumes i: "rc_phase s i = Saving u now res" and disk: "photos_on_disk (l_fold lib) (rc_web s)"
    and key: "length rnd = keyBytes" "key = NewKey rnd" "key \<notin> rc_drawn s" "w_files (rc_web s) (key @ ext) = None"
      "has_prefix tmp ''.upload-''"
    and run: "run_state (store_photo lib cfg now key tmp u res wr) (rc_web s) = (resp, w')"
  shows "runs_to lossy lib cd i s w'"
proof -
  have final: "photos_on_disk (l_fold lib) w'"
    using store_photo_keeps [OF disk key(5,4), of cfg now u res wr] run by simp
  obtain r1 w1 where save: "run_state (Save tmp key (JPEG res)) (rc_web s) = (r1, w1)" by fastforce
  obtain r2 w2 where nm: "run_state (name_photo lib u now res key) w1 = (r2, w2)" by fastforce
  note nm' = nm [unfolded name_photo_def]
  let ?s1 = "set_phase i (Naming u now res key) s\<lparr>rc_web := w1, rc_drawn := insert key (rc_drawn s)\<rparr>"
  show ?thesis
  proof (cases r1)
    case (Inl e)
    then have "w1 = w'" using run save by (simp add: store_photo_def run_on_result run_answer)
    then show ?thesis
      by (intro runs_to_step [OF race_step.not_saved [OF i key save [unfolded Inl]]] runs_to_answered) simp_all
  next
    case (Inr x)
    have s1: "race_step lossy lib cd i s ?s1" by (rule race_step.saved [OF i key save [unfolded Inr]])
    have p1: "rc_phase ?s1 i = Naming u now res key" "rc_web ?s1 = w1" by simp_all
    show ?thesis
    proof (cases r2)
      case (Inl e)
      let ?s2 = "set_phase i (Undoing key) ?s1\<lparr>rc_web := w2\<rparr>"
      obtain y w3 where rm: "run_state (removePhotoFile key) w2 = (y, w3)" by (rule prod.exhaust)
      let ?s3 = "set_phase i Answered ?s2\<lparr>rc_web := w3\<rparr>"
      have s2: "race_step lossy lib cd i ?s1 ?s2"
        using nm Inl p1 by (intro race_step.not_named) simp_all
      have s3: "race_step lossy lib cd i ?s2 ?s3"
        using rm by (intro race_step.undone [where key = key and x = y]) simp_all
      have "runs_to lossy lib cd i ?s3 w'"
      proof (cases "e = ErrPhotoNotAllowed")
        case True
        then have "run_state (photo_message lib cfg now 422 u msgPhotoToday wr) w3 = (resp, w')"
          using run save nm' rm Inr Inl by (simp add: store_photo_def run_on_result)
        then show ?thesis
          by (intro runs_to_rendered [OF _ photo_message_reads(1,2) _ final]) simp_all
      next
        case False
        then have "w3 = w'" using run save nm' rm Inr Inl by (simp add: store_photo_def run_on_result run_answer)
        then show ?thesis by (intro runs_to_answered) simp_all
      qed
      then show ?thesis by (intro runs_to_step [OF s1] runs_to_step [OF s2] runs_to_step [OF s3])
    next
      case (Inr old)
      let ?s2 = "set_phase i (Cleaning old) ?s1\<lparr>rc_web := w2\<rparr>"
      obtain y w3 where rm: "run_state (remove_if_named old) w2 = (y, w3)" by (rule prod.exhaust)
      have s2: "race_step lossy lib cd i ?s1 ?s2"
        using nm Inr p1 by (intro race_step.named) simp_all
      have s3: "race_step lossy lib cd i ?s2 (set_phase i Answered ?s2\<lparr>rc_web := w3\<rparr>)"
        using rm by (intro race_step.cleaned [where old = old and x = y]) simp_all
      have "w3 = w'" using run save nm' rm \<open>r1 = Inr x\<close> Inr by (simp add: store_photo_def run_on_result run_answer)
      then show ?thesis
        by (intro runs_to_step [OF s1] runs_to_step [OF s2] runs_to_step [OF s3] runs_to_answered) simp_all
    qed
  qed
qed

lemma turned_away_runs:
  assumes "rc_phase s i = Idle" and m: "conn_only m" "\<And>I. keeps I m" "run_state m (rc_web s) = (r, w')"
    and "photos_on_disk (l_fold lib) w'"
  shows "runs_to lossy lib cd i s w'"
  by (intro runs_to_step [OF race_step.turned_away [OF assms(1)]] runs_to_rendered [OF _ m(1,2) _ assms(5)])
    (simp_all add: m(3))

lemma answer_reads: "conn_only (answer resp)" "keeps I (answer resp)"
  by (intro conn_only_intros) (intro keeps_intros)

text \<open>From the body on: the wait, the processor, and what is kept.\<close>

lemma waiting_runs:
  assumes i: "rc_phase s i = Idle" and disk: "photos_on_disk (l_fold lib) (rc_web s)"
    and final: "photos_on_disk (l_fold lib) w'" and free: "slot = SlotTaken \<longrightarrow> \<not> rc_slot s"
    and key: "length rnd = keyBytes" "key = NewKey rnd" "key \<notin> rc_drawn s" "w_files (rc_web s) (key @ ext) = None"
      "has_prefix tmp ''.upload-''"
    and run: "run_state (case processPhoto cd slot data of
        Inl (st, msg) \<Rightarrow> if msg = [] then answer (http_Error ''internal server error'' st wr)
          else photo_message lib cfg now st u msg wr
      | Inr res \<Rightarrow> store_photo lib cfg now key tmp u res wr) (rc_web s) = (resp, w')"
  shows "runs_to lossy lib cd i s w'"
proof -
  let ?s1 = "set_phase i (Waiting u now data) s"
  have s1: "race_step lossy lib cd i s ?s1" by (rule race_step.arrive [OF i])
  have refused: "runs_to lossy lib cd i t w'"
    if t: "rc_phase t i = Answered" "rc_web t = rc_web s" and "processPhoto cd slot data = Inl m" for t m
  proof (cases "snd m = []")
    case True
    then show ?thesis using run that by (intro runs_to_answered) (auto simp: run_answer split: prod.splits)
  next
    case False
    then have "run_state (photo_message lib cfg now (fst m) u (snd m) wr) (rc_web t) = (resp, w')"
      using run that by (simp split: prod.splits)
    then show ?thesis by (rule runs_to_rendered [OF t(1) photo_message_reads(1,2) _ final])
  qed
  have ends: "runs_to lossy lib cd i s w'" if out: "slot \<noteq> SlotTaken"
  proof -
    obtain st msg where m: "processPhoto cd slot data = Inl (st, msg)"
      using out by (cases slot) (auto simp: processPhoto_def [of cd SlotTimeout] processPhoto_def [of cd ClientGone])
    let ?s2 = "set_phase i Answered ?s1"
    have s2: "race_step lossy lib cd i ?s1 ?s2"
      using out by (intro race_step.wait_ends [OF _ m]) (cases slot; simp)+
    have "runs_to lossy lib cd i ?s2 w'" by (rule refused [OF _ _ m]) simp_all
    then show ?thesis by (intro runs_to_step [OF s1] runs_to_step [OF s2])
  qed
  have "runs_to lossy lib cd i s w'" if taken: "slot = SlotTaken"
  proof -
    let ?s2 = "set_phase i (Processing u now data) ?s1\<lparr>rc_slot := True\<rparr>"
    have s2: "race_step lossy lib cd i ?s1 ?s2" using free taken by (intro race_step.take_slot) simp_all
    show ?thesis
    proof (cases "processPhoto cd slot data")
      case (Inl m)
      let ?s3 = "set_phase i Answered ?s2\<lparr>rc_slot := False\<rparr>"
      have s3: "race_step lossy lib cd i ?s2 ?s3"
        using Inl taken by (intro race_step.refused [where st = "fst m" and msg = "snd m"]) simp_all
      have "runs_to lossy lib cd i ?s3 w'" by (rule refused [OF _ _ Inl]) simp_all
      then show ?thesis by (intro runs_to_step [OF s1] runs_to_step [OF s2] runs_to_step [OF s3])
    next
      case (Inr res)
      let ?s3 = "set_phase i (Saving u now res) ?s2\<lparr>rc_slot := False\<rparr>"
      have "race_step lossy lib cd i ?s2 ?s3" using Inr taken by (intro race_step.processed) simp_all
      moreover have "runs_to lossy lib cd i ?s3 w'"
        using run Inr disk key by (intro store_photo_runs [where rnd = rnd and key = key and tmp = tmp]) simp_all
      ultimately show ?thesis by (intro runs_to_step [OF s1] runs_to_step [OF s2] runs_to_step [of lossy lib cd i ?s2])
    qed
  qed
  then show ?thesis using ends by blast
qed

lemma upload_runs:
  assumes i: "rc_phase s i = Idle" and disk: "photos_on_disk (l_fold lib) (rc_web s)"
    and free: "slot = SlotTaken \<longrightarrow> \<not> rc_slot s"
    and key: "length rnd = keyBytes" "NewKey rnd \<notin> rc_drawn s" "w_files (rc_web s) (NewKey rnd @ ext) = None"
      "has_prefix tmp ''.upload-''"
    and run: "run_state (handlePhotoUpload lib cfg cd now slot rnd tmp r wr) (rc_web s) = (resp, w')"
  shows "runs_to lossy lib cd i s w'"
proof -
  have final: "photos_on_disk (l_fold lib) w'"
    using upload_keeps_photos [OF disk key(4,3), of cfg cd now slot r wr] run by simp
  note away = turned_away_runs [OF i answer_reads _ final] turned_away_runs [OF i photo_message_reads(1,2) _ final]
    turned_away_runs [OF i photo_message_reads(3,4) _ final]
  show ?thesis
    using run waiting_runs [OF i disk final free key(1) refl key(2-4)] away
    by (auto simp: handlePhotoUpload_def signed_in_def if_active_def split: option.splits if_splits sum.splits)
qed

text \<open>Removing a photo and deleting an account: the database forgets a key, then its file goes.\<close>

lemma forgetting_runs:
  assumes m: "run_state m (rc_web s) = (res, w1)"
    and failed: "\<And>e. res = Inl e \<Longrightarrow> race_step lossy lib cd i s (set_phase i Answered s\<lparr>rc_web := w1\<rparr>)"
    and forgot: "\<And>old. res = Inr old \<Longrightarrow> race_step lossy lib cd i s (set_phase i (Cleaning old) s\<lparr>rc_web := w1\<rparr>)"
    and run: "run_state (on_result m (\<lambda>e. answer (g e)) (\<lambda>old. do {
      _ \<leftarrow> remove_if_named old; answer (k old) })) (rc_web s) = (resp, w')"
  shows "runs_to lossy lib cd i s w'"
proof (cases res)
  case (Inl e)
  then have "w1 = w'" using run m by (simp add: run_on_result run_answer)
  then show ?thesis by (intro runs_to_step [OF failed [OF Inl]] runs_to_answered) simp_all
next
  case (Inr old)
  let ?s1 = "set_phase i (Cleaning old) s\<lparr>rc_web := w1\<rparr>"
  obtain x w2 where cl: "run_state (remove_if_named old) w1 = (x, w2)" by (rule prod.exhaust)
  let ?s2 = "set_phase i Answered ?s1\<lparr>rc_web := w2\<rparr>"
  have "race_step lossy lib cd i ?s1 ?s2" using cl by (intro race_step.cleaned [where old = old and x = x]) simp_all
  moreover have "runs_to lossy lib cd i ?s2 w'"
    using run m Inr cl by (intro runs_to_answered) (simp_all add: run_on_result run_answer)
  ultimately show ?thesis by (intro runs_to_step [OF forgot [OF Inr]] runs_to_step [of lossy lib cd i ?s1])
qed

lemma remove_runs:
  assumes i: "rc_phase s i = Idle" and disk: "photos_on_disk (l_fold lib) (rc_web s)"
    and run: "run_state (handlePhotoRemove lib r wr) (rc_web s) = (resp, w')"
  shows "runs_to lossy lib cd i s w'"
proof -
  have away: "runs_to lossy lib cd i s w'" if "run_state (answer x) (rc_web s) = (resp, w')" for x
    by (rule turned_away_runs [OF i answer_reads that]) (use disk that in \<open>simp add: run_answer\<close>)
  have "runs_to lossy lib cd i s w'"
    if "run_state (on_result (RemovePhoto_service (l_fold lib) uid) (\<lambda>e. answer (g e)) (\<lambda>old. do {
      _ \<leftarrow> remove_if_named old; answer (k old) })) (rc_web s) = (resp, w')" for uid g k
    by (rule forgetting_runs [OF surjective_pairing _ _ that])
      (rule race_step.not_removed [OF i] race_step.photo_removed [OF i], rule prod_eqI, simp_all)+
  then show ?thesis
    using run away by (auto simp: handlePhotoRemove_def signed_in_def if_active_def split: option.splits if_splits)
qed

lemma delete_runs:
  assumes i: "rc_phase s i = Idle" and disk: "photos_on_disk (l_fold lib) (rc_web s)"
    and run: "run_state (handleAccountDelete lib now r wr) (rc_web s) = (resp, w')"
  shows "runs_to lossy lib cd i s w'"
proof -
  have away: "runs_to lossy lib cd i s w'" if "run_state (answer x) (rc_web s) = (resp, w')" for x
    by (rule turned_away_runs [OF i answer_reads that]) (use disk that in \<open>simp add: run_answer\<close>)
  have del: "runs_to lossy lib cd i s w'"
    if "run_state (on_result (DeleteAccount (l_fold lib) uid now) (\<lambda>e. answer (g e)) (\<lambda>old. do {
      _ \<leftarrow> remove_if_named old; answer (k old) })) (rc_web s) = (resp, w')" for uid g k
    by (rule forgetting_runs [OF surjective_pairing _ _ that])
      (rule race_step.not_deleted [OF i] race_step.account_deleted [OF i], rule prod_eqI, simp_all)+
  have one_answer: "(\<lambda>err. if err = ErrUserNotFound then answer x else answer y) =
      (\<lambda>err. answer (if err = ErrUserNotFound then x else y))" for x y :: response
    by (rule ext) simp
  show ?thesis
    using run away del
    by (auto simp: handleAccountDelete_def signed_in_def with_form_def one_answer remove_if_named_def [symmetric]
        split: option.splits if_splits)
qed

section \<open>The other requests\<close>

text \<open>Every other operation of the services keeps the names of the photos: its calls are steps elsewhere.\<close>

definition names_are :: "string set \<Rightarrow> db \<Rightarrow> bool" where
  "names_are K d = (stored_keys d = K)"

lemma blind_names:
  "blind login_tokens_update (names_are K)" "blind sessions_update (names_are K)" "blind moods_update (names_are K)"
  "blind mood_history_update (names_are K)" "blind guestbook_entries_update (names_are K)"
  "blind page_styles_update (names_are K)" "blind deleted_handles_update (names_are K)"
  by (simp_all add: blind_def names_are_def stored_keys_def)

lemma update_users_names:
  assumes "update_users L P f d = Inr d'" "\<And>u. u_id (f u) = u_id u" "\<And>u. u_photo_key (f u) = u_photo_key u"
  shows "stored_keys d' = stored_keys d"
proof -
  have "users d' = map (\<lambda>u. if P u then f u else u) (users d)" using update_usersD(1) [OF assms(1,2)] by simp
  then have "map u_photo_key (users d') = map u_photo_key (users d)" by (simp add: assms(3))
  then have "u_photo_key ` set (users d') = u_photo_key ` set (users d)" by (metis set_map)
  then show ?thesis unfolding set_eq_iff stored_keys_iff by (metis (no_types, lifting) image_iff)
qed

lemma user_statements_names:
  "stmt_keeps (names_are K) (ClaimHandle L h t u r)" "stmt_keeps (names_are K) (SetDisplayName L u n)"
  "stmt_keeps (names_are K) (UpsertUserByEmail L rid e)"
proof -
  show "stmt_keeps (names_are K) (UpsertUserByEmail L rid e)"
    by (rule stmt_keepsI)
      (auto simp: UpsertUserByEmail_def names_are_def stored_keys_iff new_user_def split: option.splits)
qed (rule stmt_keepsI, auto simp: ClaimHandle_def SetDisplayName_def Let_def names_are_def
    split: option.splits sum.splits dest!: update_users_names)+

lemmas other_tables = token_changes session_changes mood_changes history_changes guestbook_changes style_changes
  reserve_changes

lemmas names_intros = user_statements_names other_tables [THEN blind_keeps] blind_names

fun names_photos :: "service_op \<Rightarrow> bool" where
  "names_photos (OpSetPhoto u key wd ht ds t) = True"
| "names_photos (OpRemovePhoto u) = True"
| "names_photos (OpDeleteAccount u t) = True"
| "names_photos _ = False"

lemma other_operations_elsewhere:
  fixes w :: conn
  assumes "op_wf x" "db_ok L (c_db w)" "\<not> names_photos x"
  shows "db_ok L (c_db (after_op parse ul H L x w))" "stored_keys (c_db (after_op parse ul H L x w)) = stored_keys (c_db w)"
proof -
  show "db_ok L (c_db (after_op parse ul H L x w))" by (rule schema_after_op [OF assms(1,2)])
  let ?I = "names_are (stored_keys (c_db w))"
  have now: "?I (c_db w)" by (simp add: names_are_def)
  have "?I (c_db (after_op parse ul H L x w))"
    using assms(3) now
    by (cases x) (simp_all add: after_op_def, (rule keepsD [where I = ?I], intro keeps_intros names_intros, assumption)+)
  then show "stored_keys (c_db (after_op parse ul H L x w)) = stored_keys (c_db w)" by (simp add: names_are_def)
qed

section \<open>Properties\<close>

lemma race_reachable_ok: "race_reachable False lib cd s \<Longrightarrow> race_ok lib s"
proof (induction rule: race_reachable.induct)
  case (start s)
  then show ?case using race_ok_start by blast
next
  case (step s i s')
  then show ?case using race_step_ok by blast
qed

text \<open>C7: However uploads, removals, deletions and the other requests interleave, and wherever one of them
  stops, every photo the database names has its file on disk, and no request is about to remove the
  file of a photo the database names.\<close>

theorem concurrent_photos_on_disk:
  assumes "race_reachable False lib cd s"
  shows "photos_on_disk (l_fold lib) (rc_web s) \<and>
    (\<forall>i. own_keys (rc_phase s i) \<inter> stored_keys (c_db (rc_web s)) = {})"
  using race_reachable_ok [OF assms] unfolding race_ok_def by blast

text \<open>A waiting upload gets the slot at once or after the upload that holds it.\<close>

lemma slot_comes_free:
  assumes "slot_ok s" "rc_phase s i = Waiting u now data"
  shows "\<exists>s'. race_run lossy lib cd s s' \<and> rc_phase s' i = Processing u now data"
proof -
  have take: "\<exists>s'. race_run lossy lib cd t s' \<and> rc_phase s' i = Processing u now data"
    if "rc_phase t i = Waiting u now data" "\<not> rc_slot t" for t
  proof -
    have "race_run lossy lib cd t (set_phase i (Processing u now data) t\<lparr>rc_slot := True\<rparr>)"
      by (rule race_run_step [OF race_step.take_slot [OF that] race_run_refl])
    then show ?thesis by (rule_tac exI, rule_tac conjI, assumption) simp
  qed
  show ?thesis
  proof (cases "rc_slot s")
    case True
    then obtain j where "is_processing (rc_phase s j)" using assms(1) by (auto simp: slot_ok_def)
    then obtain v now' data' where j: "rc_phase s j = Processing v now' data'" by (cases "rc_phase s j") auto
    let ?t = "set_phase j Answered s\<lparr>rc_slot := False\<rparr>"
    have "rc_phase ?t i = Waiting u now data" using assms(2) j by auto
    then obtain s' where "race_run lossy lib cd ?t s'" "rc_phase s' i = Processing u now data"
      using take [of ?t] by auto
    then show ?thesis using race_run_step [OF race_step.panicked [OF j]] by blast
  qed (use take assms(2) in blast)
qed

text \<open>C11: At most one upload is being processed at any time; the slot is full exactly while one is, so no exit
  of the processor, a panic included, leaves it full, and an upload that waits can always still get it.\<close>

theorem one_photo_at_a_time:
  assumes "race_reachable lossy lib cd s"
  shows "rc_slot s = (\<exists>i. is_processing (rc_phase s i)) \<and>
    (\<forall>i j. is_processing (rc_phase s i) \<longrightarrow> is_processing (rc_phase s j) \<longrightarrow> i = j) \<and>
    (\<forall>i u now data. rc_phase s i = Waiting u now data \<longrightarrow>
       (\<exists>s'. race_run lossy lib cd s s' \<and> rc_phase s' i = Processing u now data))"
  using race_slot [OF assms] slot_comes_free unfolding slot_ok_def by blast


section \<open>An answer that is lost\<close>

text \<open>
  When \<open>SetPhoto\<close> took effect and its answer did not arrive, \<open>handlePhotoUpload\<close> removes the file the
  database now names.
\<close>

lemma SetPhoto_names:
  assumes "fst (SetPhoto L uid key wd ht ds upl now d) = Inr old"
  shows "key \<in> stored_keys (snd (SetPhoto L uid key wd ht ds upl now d))"
proof -
  let ?P = "\<lambda>u. u_id u = uid \<and> u_can_upload_photos u \<and> null_or (\<lambda>t. t < ds) (u_photo_uploaded_at u)"
  let ?f = "\<lambda>u. u\<lparr>u_photo_key := Some key, u_photo_width := Some wd, u_photo_height := Some ht,
      u_photo_uploaded_at := Some upl\<rparr>"
  obtain u d' where u: "find ?P (users d) = Some u" and d': "update_users L ?P ?f d = Inr d'"
      "snd (SetPhoto L uid key wd ht ds upl now d) = d'"
    using assms unfolding SetPhoto_def Let_def by (auto split: option.splits sum.splits)
  have "users d' = map (\<lambda>u. if ?P u then ?f u else u) (users d)" using update_usersD(1) [OF d'(1)] by simp
  moreover have "u \<in> set (users d)" "?P u" using find_Some_in [OF u] by auto
  ultimately have "?f u \<in> set (users d')" by force
  then show ?thesis unfolding d'(2) stored_keys_iff by (intro bexI [of _ "?f u"]) simp_all
qed

lemma lost_answer_loses_photo:
  assumes i: "rc_phase s i = Naming u now res key" "ValidKey key"
    and nm: "run_state (name_photo lib u now res key) (rc_web s) = (Inr old, w1)" and "w_disk_faults w1 = []"
  shows "\<exists>s'. race_run True lib cd s s' \<and> rc_phase s' i = Answered \<and> \<not> photos_on_disk (l_fold lib) (rc_web s')"
proof -
  let ?s1 = "set_phase i (Undoing key) s\<lparr>rc_web := w1\<rparr>"
  obtain x w2 where rm: "run_state (removePhotoFile key) w1 = (x, w2)" by (rule prod.exhaust)
  let ?s2 = "set_phase i Answered ?s1\<lparr>rc_web := w2\<rparr>"
  have "race_step True lib cd i s ?s1" by (rule race_step.answer_lost [OF TrueI i(1) nm])
  moreover have "race_step True lib cd i ?s1 ?s2" using rm by (intro race_step.undone [where key = key and x = x]) simp_all
  ultimately have "race_run True lib cd s ?s2" by (blast intro: race_run_step race_run_refl)
  moreover have "w_files w2 (key @ ext) = None"
    using rm i(2) assms(4) by (auto simp: removePhotoFile_def Remove_def path_def run_simps split: option.splits)
  moreover have "key \<in> stored_keys (c_db w1)"
    using nm unfolding name_photo_def
    by (cases rule: exec_cases [of "SetPhoto (l_fold lib) (ID u) key (int32 (RWidth res)) (int32 (RHeight res)) (dayStart now) now" "rc_web s"])
      (auto simp: SetPhoto_service_def Let_def run_attempt split: sum.splits dest!: SetPhoto_names)
  then have "key \<in> stored_keys (c_db w2)" using removePhotoFile_effect(1) [OF rm] by simp
  ultimately show ?thesis by (intro exI [of _ ?s2]) (auto simp: photos_on_disk_def on_disk_def)
qed

section \<open>Demonstration\<close>

definition demo_race :: race where
  "demo_race = \<lparr>rc_web = demo_pictured, rc_slot = False, rc_phase = (\<lambda>_. Idle), rc_drawn = {PhotoStore.demo_key}\<rparr>"

lemma demo_race_reachable: "race_reachable lossy demo_lib demo_codecs demo_race"
  by (rule race_reachable.start)
    (simp_all add: demo_race_def demo_lib_def demo_pictured_ok, simp add: demo_pictured_def stored_keys_def)

text \<open>A photo is removed: its file is still there, and nothing names it.\<close>

definition demo_forgotten :: web where
  "demo_forgotten = snd (run_state (RemovePhoto_service id (u_id demo_user)) demo_pictured)"

lemma concurrent_photos_on_disk_witness:
  "photos_on_disk id demo_forgotten \<and> PhotoStore.demo_key \<notin> stored_keys (c_db demo_forgotten)"
proof -
  let ?s = "set_phase 0 (Cleaning PhotoStore.demo_key) demo_race\<lparr>rc_web := demo_forgotten\<rparr>"
  have "fst (run_state (RemovePhoto_service id (u_id demo_user)) demo_pictured) = Inr PhotoStore.demo_key"
    by code_simp
  then have "race_step False demo_lib demo_codecs 0 demo_race ?s"
    unfolding demo_forgotten_def
    by (intro race_step.photo_removed [where uid = "u_id demo_user"]) (simp_all add: demo_race_def demo_lib_def prod_eq_iff)
  then have "race_reachable False demo_lib demo_codecs ?s"
    by (rule race_reachable.step [OF demo_race_reachable])
  from concurrent_photos_on_disk [OF this] show ?thesis
    by (auto simp: demo_lib_def PhotoStore.demo_key_def dest: spec [of _ 0])
qed

definition demo_two :: race where
  "demo_two = set_phase 0 (Processing (fromRow demo_user) 0 ''PNG'')
     (set_phase 1 (Waiting (fromRow demo_user) 0 ''PNG'') (set_phase 0 (Waiting (fromRow demo_user) 0 ''PNG'') demo_race))
     \<lparr>rc_slot := True\<rparr>"

lemma one_photo_at_a_time_witness:
  "\<exists>s'. race_run False demo_lib demo_codecs demo_two s' \<and>
     rc_phase s' 1 = Processing (fromRow demo_user) 0 ''PNG''"
proof -
  let ?p = "Waiting (fromRow demo_user) 0 ''PNG''"
  have "race_step False demo_lib demo_codecs 0 demo_race (set_phase 0 ?p demo_race)"
    by (rule race_step.arrive) (simp add: demo_race_def)
  moreover have "race_step False demo_lib demo_codecs 1 (set_phase 0 ?p demo_race) (set_phase 1 ?p (set_phase 0 ?p demo_race))"
    by (rule race_step.arrive) (simp add: demo_race_def)
  moreover have "race_step False demo_lib demo_codecs 0 (set_phase 1 ?p (set_phase 0 ?p demo_race)) demo_two"
    unfolding demo_two_def by (rule race_step.take_slot) (simp_all add: demo_race_def)
  ultimately have "race_reachable False demo_lib demo_codecs demo_two"
    by (intro race_reachable.step [OF race_reachable.step [OF race_reachable.step [OF demo_race_reachable]]])
  from one_photo_at_a_time [OF this] show ?thesis by (simp add: demo_two_def)
qed

lemma demo_new_key: "NewKey (byte 255 # b) \<noteq> PhotoStore.demo_key"
proof -
  have "bits_of 8 (code (byte 255)) = True # True # True # True # True # [True, True, True]" by code_simp
  moreover have "base32_char (bits_val [True, True, True, True, True]) = CHR ''7''" by code_simp
  ultimately have "\<exists>x. NewKey (byte 255 # b) = CHR ''7'' # x"
    by (simp add: NewKey_def base32_def Let_def lower_byte_def code_def)
  then show ?thesis by (auto simp: PhotoStore.demo_key_def)
qed


end
