(* ===== verification/Operator.thy ===== *)
theory Operator
  imports Response Users Sessions
begin

text \<open>
  The operator's side: \<open>cmd/server/purge.go\<close>, which deletes rows nothing can use any more, and
  \<open>internal/stats\<close>, the numbers of the \<open>-stats\<close> run.
\<close>

section \<open>The purge\<close>

definition purgeRetention :: duration where "purgeRetention = 7 * 24 * hour"
definition purgeInterval :: duration where "purgeInterval = hour"

text \<open>
  One purge: what its log line counts, or nothing when one of its statements fails, which stops
  it there.
\<close>

definition purge :: "duration \<Rightarrow> ('z, (nat \<times> nat \<times> nat) option) prog" where
  "purge retention = 
     on_result (PurgeExpiredLoginTokens retention) (\<lambda>_. State_Monad.return None) (\<lambda>toks.
     on_result (PurgeExpired retention) (\<lambda>_. State_Monad.return None) (\<lambda>expired_sessions.
     on_result (PurgeDeletedHandles_service DeletedHandleReservation) (\<lambda>_. State_Monad.return None) (\<lambda>handles.
     State_Monad.return (Some (toks, expired_sessions, handles)))))"

text \<open>\<open>purgeLoop\<close>: once at the start and once a tick, until the context ends; the ticks' times are given.\<close>

definition tick :: "instant \<Rightarrow> ('z, unit) prog" where
  "tick t = State (\<lambda>w. ((), w\<lparr>c_now := t\<rparr>))"

primrec purge_ticks :: "duration \<Rightarrow> instant list \<Rightarrow> ('z, (nat \<times> nat \<times> nat) option list) prog" where
  "purge_ticks retention [] = State_Monad.return []"
| "purge_ticks retention (t # ts) = do {
     _ \<leftarrow> tick t;
     r \<leftarrow> purge retention;
     rs \<leftarrow> purge_ticks retention ts;
     State_Monad.return (r # rs)
   }"

definition purgeLoop :: "duration \<Rightarrow> instant list \<Rightarrow> ('z, (nat \<times> nat \<times> nat) option list) prog" where
  "purgeLoop retention ticks = do {
     r \<leftarrow> purge retention;
     rs \<leftarrow> purge_ticks retention ticks;
     State_Monad.return (r # rs)
   }"

section \<open>The numbers\<close>

record Report =
  rp_At :: instant
  rp_row :: stats_row

text \<open>The instant is shown in Argentina's zone; the numbers are the row's.\<close>

definition Collect :: "instant \<Rightarrow> ('z, pg_error + Report) prog" where
  "Collect now = attempt (exec (CollectStats now)) id (\<lambda>row.
     State_Monad.return (Inr \<lparr>rp_At = now, rp_row = row\<rparr>))"

definition minutes_text :: "instant \<Rightarrow> string" where
  "minutes_text t = (let s = t + argentina in case civil (s div day) of (y, m, d) \<Rightarrow>
     padded 4 y @ ''-'' @ padded 2 m @ ''-'' @ padded 2 d @ '' '' @ padded 2 (s mod day div hour) @ '':'' @
     padded 2 (s mod hour div minute) @ '' ART'')"

text \<open>\<open>%-17s %3d\<close> and the note.\<close>

definition report_line :: "string \<Rightarrow> nat \<Rightarrow> string \<Rightarrow> string" where
  "report_line label n note =
     (let num = dec_text (int n) in
      label @ replicate (17 - length label) (CHR '' '') @ '' '' @ replicate (3 - length num) (CHR '' '') @ num @
      (if note \<noteq> [] then ''      '' @ note else []) @ [LF])"

definition WriteTo :: "Report \<Rightarrow> string" where
  "WriteTo r = (let n = rp_row r in
     ''retratar stats at '' @ minutes_text (rp_At r) @ [LF, LF] @
     report_line ''accounts'' (st_Accounts n) [] @
     report_line ''pages (handle)'' (st_Pages n) [] @
     report_line ''signed in, 7d'' (st_SignedIn7d n) ''distinct users with a session created in the last 7 days'' @
     [LF] @
     report_line ''mood changes, 7d'' (st_MoodChanges7d n) ''rows in mood_history in the last 7 days'' @
     report_line ''changed mood, 7d'' (st_ChangedMood7d n) ''distinct users with at least one change in the last 7 days'' @
     ''week two'' @ [LF] @
     report_line ''  eligible'' (st_WeekTwoEligible n) ''pages whose account is at least 14 days old'' @
     report_line ''  2+ changes'' (st_WeekTwoPassed n)
       ''of those, how many changed mood 2+ times between day 7 and day 14 of their account'' @
     [LF] @
     report_line ''guestbook, total'' (st_GuestbookTotal n) [] @
     report_line ''guestbook, 7d'' (st_Guestbook7d n) [] @
     report_line ''reciprocal pairs'' (st_ReciprocalPairs n)
       ''unordered pairs {a, b} where a signed b's book and b signed a's (any state)'' @
     [LF] @
     report_line ''photos now'' (st_PhotosNow n) ''accounts with a current photo'' @
     report_line ''photo uploads, 7d'' (st_PhotoUploads7d n)
       ''photo_uploaded_at in the last 7 days (one per account at most; it's the last upload)'' @
     report_line ''allowlisted'' (st_Allowlisted n) [])"

section \<open>A purge is invisible\<close>

lemma find_filter_unused: "(\<And>x. x \<in> set xs \<Longrightarrow> P x \<Longrightarrow> Q x) \<Longrightarrow> find P (filter Q xs) = find P xs"
  by (induction xs) auto

text \<open>What a purge takes away: some rows past the retention, of three tables.\<close>

definition purged :: "duration \<Rightarrow> instant \<Rightarrow> db \<Rightarrow> db \<Rightarrow> bool" where
  "purged retention now d d' = (\<exists>P Q R.
     d' = d\<lparr>login_tokens := filter P (login_tokens d), sessions := filter Q (sessions d),
        deleted_handles := filter R (deleted_handles d)\<rparr> \<and>
     (\<forall>t. \<not> P t \<longrightarrow> lt_expires_at t < now - retention) \<and>
     (\<forall>s. \<not> Q s \<longrightarrow> session_dead_at s < now - retention) \<and>
     (\<forall>r. \<not> R r \<longrightarrow> d_deleted_at r < now - DeletedHandleReservation))"

lemma purged_refl: "purged n now d d"
  unfolding purged_def by (intro exI [of _ "\<lambda>_. True"]) simp

lemma purged_trans:
  assumes "purged n now d d1" and "purged n now d1 d2"
  shows "purged n now d d2"
proof -
  obtain P Q R where 1: "d1 = d\<lparr>login_tokens := filter P (login_tokens d), sessions := filter Q (sessions d),
        deleted_handles := filter R (deleted_handles d)\<rparr>"
    "\<And>t. \<not> P t \<Longrightarrow> lt_expires_at t < now - n" "\<And>s. \<not> Q s \<Longrightarrow> session_dead_at s < now - n"
    "\<And>r. \<not> R r \<Longrightarrow> d_deleted_at r < now - DeletedHandleReservation"
    using assms(1) unfolding purged_def by blast
  obtain P' Q' R' where 2: "d2 = d1\<lparr>login_tokens := filter P' (login_tokens d1), sessions := filter Q' (sessions d1),
        deleted_handles := filter R' (deleted_handles d1)\<rparr>"
    "\<And>t. \<not> P' t \<Longrightarrow> lt_expires_at t < now - n" "\<And>s. \<not> Q' s \<Longrightarrow> session_dead_at s < now - n"
    "\<And>r. \<not> R' r \<Longrightarrow> d_deleted_at r < now - DeletedHandleReservation"
    using assms(2) unfolding purged_def by blast
  show ?thesis
    unfolding purged_def
    by (rule exI [of _ "\<lambda>t. P t \<and> P' t"], rule exI [of _ "\<lambda>s. Q s \<and> Q' s"], rule exI [of _ "\<lambda>r. R r \<and> R' r"])
      (use 1(2-4) 2(2-4) in \<open>auto simp: 1(1) 2(1) conj_commute\<close>)
qed

lemma purged_tables:
  "(\<And>t. \<not> P t \<Longrightarrow> lt_expires_at t < now - n) \<Longrightarrow> purged n now d (d\<lparr>login_tokens := filter P (login_tokens d)\<rparr>)"
  "(\<And>s. \<not> Q s \<Longrightarrow> session_dead_at s < now - n) \<Longrightarrow> purged n now d (d\<lparr>sessions := filter Q (sessions d)\<rparr>)"
  "(\<And>r. \<not> R r \<Longrightarrow> d_deleted_at r < now - DeletedHandleReservation) \<Longrightarrow>
     purged n now d (d\<lparr>deleted_handles := filter R (deleted_handles d)\<rparr>)"
proof -
  show "purged n now d (d\<lparr>login_tokens := filter P (login_tokens d)\<rparr>)"
    if "\<And>t. \<not> P t \<Longrightarrow> lt_expires_at t < now - n"
    unfolding purged_def
    by (rule exI [of _ P], rule exI [of _ "\<lambda>_. True"], rule exI [of _ "\<lambda>_. True"]) (use that in simp)
  show "purged n now d (d\<lparr>sessions := filter Q (sessions d)\<rparr>)"
    if "\<And>s. \<not> Q s \<Longrightarrow> session_dead_at s < now - n"
    unfolding purged_def
    by (rule exI [of _ "\<lambda>_. True"], rule exI [of _ Q], rule exI [of _ "\<lambda>_. True"]) (use that in simp)
  show "purged n now d (d\<lparr>deleted_handles := filter R (deleted_handles d)\<rparr>)"
    if "\<And>r. \<not> R r \<Longrightarrow> d_deleted_at r < now - DeletedHandleReservation"
    unfolding purged_def
    by (rule exI [of _ "\<lambda>_. True"], rule exI [of _ "\<lambda>_. True"], rule exI [of _ R]) (use that in simp)
qed

definition purges :: "duration \<Rightarrow> ('z, 'r) prog \<Rightarrow> bool" where
  "purges n m = (\<forall>w. purged n (c_now w) (c_db w) (c_db (snd (run_state m w))) \<and>
     c_now (snd (run_state m w)) = c_now w)"

lemma purges_exec:
  assumes "\<And>now d. purged n now d (snd (q now d))"
  shows "purges n (attempt (exec q) h (\<lambda>x. State_Monad.return (Inr x)))"
  unfolding purges_def
proof
  fix w :: "'z conn_scheme"
  show "purged n (c_now w) (c_db w) (c_db (snd (run_state (attempt (exec q) h (\<lambda>x. State_Monad.return (Inr x))) w))) \<and>
     c_now (snd (run_state (attempt (exec q) h (\<lambda>x. State_Monad.return (Inr x))) w)) = c_now w"
    by (cases rule: exec_cases [of q w])
      (auto simp: run_attempt purged_refl assms split: sum.splits)
qed

lemma purges_services:
  "purges n (PurgeExpiredLoginTokens n)" "purges n (PurgeExpired n)"
  "purges n (PurgeDeletedHandles_service DeletedHandleReservation)"
  unfolding PurgeExpiredLoginTokens_def PurgeExpired_def PurgeDeletedHandles_service_def
  by (rule purges_exec; simp add: PurgeLoginTokens_def PurgeSessions_def PurgeDeletedHandles_def Let_def;
      rule purged_tables; simp)+

lemma purges_on_result:
  assumes "purges n m" and "\<And>e. purges n (h e)" and "\<And>x. purges n (k x)"
  shows "purges n (on_result m h k)"
  unfolding purges_def
proof
  fix w
  obtain r w1 where m: "run_state m w = (r, w1)" by fastforce
  have 1: "purged n (c_now w) (c_db w) (c_db w1)" "c_now w1 = c_now w"
    using assms(1) m by (auto simp: purges_def dest: spec [of _ w])
  have step: "purged n (c_now w) (c_db w) (c_db (snd (run_state j w1))) \<and> c_now (snd (run_state j w1)) = c_now w"
    if "purges n j" for j
    using that 1(2) purged_trans [OF 1(1)] unfolding purges_def by metis
  show "purged n (c_now w) (c_db w) (c_db (snd (run_state (on_result m h k) w))) \<and>
      c_now (snd (run_state (on_result m h k) w)) = c_now w"
    using step [OF assms(2)] step [OF assms(3)] by (simp add: run_on_result m split: sum.splits)
qed

lemma purges_return: "purges n (State_Monad.return x)"
  by (simp add: purges_def purged_refl)

lemma purge_purges: "purges n (purge n)"
  unfolding purge_def by (intro purges_on_result purges_services purges_return)

text \<open>C39: A purge is invisible to everything but the space it frees: whichever of its statements fail,
  at no later time does any sign-in link, session or handle answer differently than it would have
  without the purge, the sign-in budget counts the same links, and accounts and pages are as they
  were.\<close>

theorem purge_invisible:
  assumes "run_state (purge purgeRetention) w = (r, w')" and "c_now w \<le> t"
    and "list_all (\<lambda>k. lt_created_at k \<le> lt_expires_at k) (login_tokens (c_db w))"
  shows "fst (ConsumeLoginToken h t (c_db w')) = fst (ConsumeLoginToken h t (c_db w)) \<and>
    fst (CountRecentLoginTokens a LoginBudgetWindow t (c_db w')) =
      fst (CountRecentLoginTokens a LoginBudgetWindow t (c_db w)) \<and>
    fst (LookupSession sh t (c_db w')) = fst (LookupSession sh t (c_db w)) \<and>
    fst (ClaimHandle L handle t uid DeletedHandleReservation t (c_db w')) =
      fst (ClaimHandle L handle t uid DeletedHandleReservation t (c_db w)) \<and>
    users (c_db w') = users (c_db w) \<and> moods (c_db w') = moods (c_db w) \<and>
    guestbook_entries (c_db w') = guestbook_entries (c_db w) \<and> page_styles (c_db w') = page_styles (c_db w)"
proof -
  have "purged purgeRetention (c_now w) (c_db w) (c_db w')"
    using purge_purges [of purgeRetention] assms(1) unfolding purges_def by (metis snd_conv)
  then obtain P Q R where d': "c_db w' = (c_db w)\<lparr>login_tokens := filter P (login_tokens (c_db w)),
        sessions := filter Q (sessions (c_db w)), deleted_handles := filter R (deleted_handles (c_db w))\<rparr>"
    and P: "\<And>k. \<not> P k \<Longrightarrow> lt_expires_at k < c_now w - purgeRetention"
    and Q: "\<And>s. \<not> Q s \<Longrightarrow> session_dead_at s < c_now w - purgeRetention"
    and R: "\<And>r. \<not> R r \<Longrightarrow> d_deleted_at r < c_now w - DeletedHandleReservation"
    unfolding purged_def by blast
  have long: "LoginBudgetWindow \<le> purgeRetention" "0 \<le> purgeRetention"
    by (simp_all add: LoginBudgetWindow_def TokenTTL_def purgeRetention_def)
  have tokens: "find (\<lambda>k. lt_token_hash k = h \<and> lt_consumed_at k = None \<and> t < lt_expires_at k) (filter P ks) =
      find (\<lambda>k. lt_token_hash k = h \<and> lt_consumed_at k = None \<and> t < lt_expires_at k) ks" for ks
    by (rule find_filter_unused) (use P long assms(2) in fastforce)
  have count: "filter (\<lambda>k. lt_email k = a \<and> t - LoginBudgetWindow < lt_created_at k) (filter P (login_tokens (c_db w))) =
      filter (\<lambda>k. lt_email k = a \<and> t - LoginBudgetWindow < lt_created_at k) (login_tokens (c_db w))"
    unfolding filter_filter
    by (rule filter_cong) (use P long assms(2,3) in \<open>fastforce simp: list_all_iff\<close>)+
  have sess: "find (\<lambda>s. s_session_hash s = sh \<and> s_revoked_at s = None \<and> t < s_expires_at s) (filter Q (sessions (c_db w))) =
      find (\<lambda>s. s_session_hash s = sh \<and> s_revoked_at s = None \<and> t < s_expires_at s) (sessions (c_db w))"
    by (rule find_filter_unused) (use Q long assms(2) in \<open>fastforce simp: session_dead_at_def\<close>)
  have "R r" if "t - DeletedHandleReservation < d_deleted_at r" for r
    using R that assms(2) by fastforce
  then have res: "reserved L handle (t - DeletedHandleReservation) (c_db w') =
      reserved L handle (t - DeletedHandleReservation) (c_db w)"
    by (auto simp: reserved_def d' list_ex_iff)
  have claim: "fst (ClaimHandle L handle t uid DeletedHandleReservation t (c_db w')) =
      fst (ClaimHandle L handle t uid DeletedHandleReservation t (c_db w))"
    unfolding ClaimHandle_def res Let_def
    by (auto simp: d' update_users_def Let_def split: option.splits)
  show ?thesis
    using claim
    by (simp add: d' ConsumeLoginToken_def CountRecentLoginTokens_def LookupSession_def tokens
        count [unfolded filter_filter] sess Let_def split: option.splits)
qed

definition demo_stale :: conn where
  "demo_stale = \<lparr>c_db = empty_db\<lparr>login_tokens :=
       [\<lparr>lt_id = 1, lt_token_hash = ''old'', lt_email = ''a@b'', lt_created_at = 0,
         lt_expires_at = TokenTTL, lt_consumed_at = None\<rparr>,
        \<lparr>lt_id = 2, lt_token_hash = ''new'', lt_email = ''a@b'', lt_created_at = 30 * day,
         lt_expires_at = 30 * day + TokenTTL, lt_consumed_at = None\<rparr>]\<rparr>,
     c_now = 30 * day, c_faults = []\<rparr>"

lemma demo_stale_purged:
  "run_state (purge purgeRetention) demo_stale =
     (Some (1, 0, 0), demo_stale\<lparr>c_db := (c_db demo_stale)\<lparr>login_tokens := tl (login_tokens (c_db demo_stale))\<rparr>\<rparr>)"
  by (simp add: purge_def demo_stale_def run_simps PurgeExpiredLoginTokens_def PurgeExpired_def
      PurgeDeletedHandles_service_def PurgeLoginTokens_def PurgeSessions_def PurgeDeletedHandles_def
      purgeRetention_def TokenTTL_def empty_db_def)

lemma purge_invisible_witness:
  "fst (ConsumeLoginToken ''new'' (30 * day + minute)
     ((c_db demo_stale)\<lparr>login_tokens := tl (login_tokens (c_db demo_stale))\<rparr>)) =
   fst (ConsumeLoginToken ''new'' (30 * day + minute) (c_db demo_stale))"
proof -
  have "c_now demo_stale \<le> 30 * day + minute" by (simp add: demo_stale_def)
  moreover have "list_all (\<lambda>k. lt_created_at k \<le> lt_expires_at k) (login_tokens (c_db demo_stale))"
    by (simp add: demo_stale_def TokenTTL_def)
  ultimately show ?thesis
    using purge_invisible [OF demo_stale_purged, where t = "30 * day + minute" and h = "''new''"] by simp
qed

end
