(* ===== verification/Site.thy ===== *)
theory Site
  imports Authority PhotoRace Operator
begin

text \<open>
  The site from the outside: any requests, in any order, from anybody, the purges and the operator in
  between, through the whole chain of \<open>Handler\<close>.  What the services keep true of their tables, and the
  photos of the files they name, holds in every state such a history reaches.
\<close>

text \<open>The form reads one colour for a slot.\<close>

lemma slot_order_distinct: "distinct (map sl_Key ss) \<Longrightarrow> distinct (map fst (slot_order cs ss))"
proof (induction ss)
  case (Cons s ss)
  have "fst ` set (slot_order cs ss) \<subseteq> sl_Key ` set ss"
    by (auto simp: slot_order_def set_column)
  then show ?case using Cons by (auto simp: slot_order_def column_Cons split: option.splits)
qed (simp add: slot_order_def)

lemma parseDraft_distinct:
  assumes "parseDraft form moodKey reset = Some draft" shows "distinct (map fst (Colors draft))"
proof -
  have "draft_colors form moodKey reset Slots = Some (Colors draft)"
    using assms by (auto simp: parseDraft_def split: option.splits)
  then have "Colors draft = slot_order (Colors draft) Slots" using draft_colors_Some distinct_slots by blast
  then show ?thesis using slot_order_distinct [OF distinct_slots] by metis
qed

lemma keeps_case_draft:
  "keeps I a \<Longrightarrow> (\<And>x. m = Some x \<Longrightarrow> keeps I (b x)) \<Longrightarrow> keeps I (case m of None \<Rightarrow> a | Some x \<Rightarrow> b x)"
  by (cases m) auto

section \<open>What a handler keeps when its services do\<close>

text \<open>
  The interface between the handlers and the services: an invariant of the database that every
  method a handler may call keeps, the three that name photos left aside.
\<close>

locale tame_services =
  fixes I :: "db \<Rightarrow> bool" and lib :: lib
  assumes RequestLogin: "keeps I (RequestLogin (l_parse_address lib) (l_lower lib) (l_hash lib) rid tok a :: (site, user_err + string) state)"
    and CompleteLogin: "keeps I (CompleteLogin (l_fold lib) (l_hash lib) uid raw :: (site, user_err + User) state)"
    and ClaimHandle: "keeps I (ClaimHandle_service (l_fold lib) u h t :: (site, user_err + User) state)"
    and SetDisplayName: "keeps I (SetDisplayName_service (l_fold lib) u n :: (site, user_err + User) state)"
    and Issue: "keeps I (Issue (l_hash lib) rid tok u :: (site, session_err + string) state)"
    and Revoke: "keeps I (Revoke (l_hash lib) raw :: (site, session_err + unit) state)"
    and SetMood: "keeps I (SetMood rid u key note :: (site, mood_err + Mood) state)"
    and Sign: "keeps I (Sign rid p au body :: (site, guestbook_err + Entry) state)"
    and Hide: "keeps I (Hide p e :: (site, guestbook_err + unit) state)"
    and Show: "keeps I (Show p e :: (site, guestbook_err + unit) state)"
    and SetStyle: "distinct (map fst (Colors st)) \<Longrightarrow> keeps I (SetStyle u st t :: (site, user_err + unit) state)"
    and PurgeLoginTokens: "keeps I (PurgeExpiredLoginTokens ret :: (site, user_err + nat) state)"
    and PurgeHandles: "keeps I (PurgeDeletedHandles_service ret :: (site, user_err + nat) state)"
    and PurgeSessions: "keeps I (PurgeExpired ret :: (site, session_err + nat) state)"
begin

lemmas calls = RequestLogin CompleteLogin ClaimHandle SetDisplayName Issue Revoke SetMood Sign Hide Show
  PurgeLoginTokens PurgeHandles PurgeSessions

lemma session_handlers:
  "keeps I (handleLoginRequest lib cfg rid tok r w :: (site, response) state)"
  "keeps I (handleLoginComplete lib uid sid stok r w :: (site, response) state)"
  "keeps I (handleLogout lib r w :: (site, response) state)"
  unfolding handleLoginRequest_def handleLoginComplete_def handleLogout_def Let_def
  by (rule calls | rule keeps_intros)+

lemma owner_handlers:
  "keeps I (handleClaimSubmit lib now r w :: (site, response) state)"
  "keeps I (handleMoodSubmit lib cfg now rid r w :: (site, response) state)"
  "keeps I (handleNameSubmit lib cfg now r w :: (site, response) state)"
  unfolding handleClaimSubmit_def handleMoodSubmit_def mood_refused_def handleNameSubmit_def Let_def signed_in_def
  by (rule calls | rule keeps_intros)+

lemma guestbook_handlers:
  "keeps I (handleGuestbookSign lib cfg rid r w :: (site, response) state)"
  "keeps I (handleGuestbookHide lib r w :: (site, response) state)"
  "keeps I (handleGuestbookShow lib r w :: (site, response) state)"
  unfolding handleGuestbookSign_def guestbookOwner_def handleGuestbookHide_def handleGuestbookShow_def
    setGuestbookEntryHidden_def Let_def
  by (rule calls | rule keeps_intros)+

lemma purges: "keeps I (purge retention :: (site, (nat \<times> nat \<times> nat) option) state)"
  unfolding purge_def by (rule calls | rule keeps_intros)+

lemma keeps_set_style:
  assumes "parseDraft form moodKey reset = Some draft"
  shows "keeps I (SetStyle u draft t :: (site, user_err + unit) state)"
  by (rule SetStyle) (rule parseDraft_distinct [OF assms])

lemma style_handler: "keeps I (handleStyleSubmit lib cfg now r w :: (site, response) state)"
  unfolding handleStyleSubmit_def Let_def signed_in_def
  by (rule keeps_set_style, assumption | rule keeps_case_draft | rule keeps_intros)+

lemmas tame_handlers = session_handlers owner_handlers guestbook_handlers style_handler

end

text \<open>The invariant of the whole store is also kept by the methods that name photos.\<close>

locale all_services = tame_services +
  assumes SetPhoto: "keeps I (SetPhoto_service (l_fold lib) u key wd ht ds t :: (site, user_err + string) state)"
    and RemovePhoto: "keeps I (RemovePhoto_service (l_fold lib) u :: (site, user_err + string) state)"
    and DeleteAccount: "keeps I (DeleteAccount (l_fold lib) u t :: (site, user_err + string) state)"
begin

lemma photo_handlers:
  "keeps I (handlePhotoUpload lib cfg cd now slot rnd tmp r w :: (site, response) state)"
  "keeps I (handlePhotoRemove lib r w :: (site, response) state)"
  "keeps I (handleAccountDelete lib now r w :: (site, response) state)"
  unfolding handlePhotoUpload_def store_photo_def handlePhotoRemove_def handleAccountDelete_def signed_in_def
  by (rule SetPhoto RemovePhoto DeleteAccount | rule keeps_intros)+

end

section \<open>The services keep their part\<close>

lemma keeps_store_inv:
  assumes "keeps (db_ok L) m" "keeps accounts_ok m" "keeps mood_log m" "keeps entries_ok m" "keeps page_styles_ok m"
  shows "keeps (store_inv L) m"
  using assms by (simp add: keeps_def store_inv_def)

lemmas table_keepers = account_methods SetMood_mood_log Sign_entries_ok Hide_entries_ok Show_entries_ok

lemmas table_intros = keeps_intros stmt_intros DeleteUser_invariants changes_keep blind_invariants

interpretation stored: all_services "store_inv (l_fold lib)" lib for lib
  by unfold_locales
    (rule keeps_store_inv;
      (rule table_keepers | rule SetStyle_page_styles_ok, assumption | intro table_intros; assumption?))+

interpretation named: tame_services "names_are K" lib for K lib
  by unfold_locales (intro keeps_intros names_intros; assumption?)+

section \<open>What a request leaves of the files\<close>

text \<open>
  The tables are as the services keep them, and every photo they name has its file.
\<close>

definition site_ok :: "lib \<Rightarrow> site \<Rightarrow> bool" where
  "site_ok lib s = (store_inv (l_fold lib) (c_db s) \<and> on_disk (w_files s) (stored_keys (c_db s)))"

definition fresh_draws :: "draws \<Rightarrow> site \<Rightarrow> bool" where
  "fresh_draws dr s = (w_files s (NewKey (dr_key dr) @ ext) = None \<and> has_prefix (dr_tmp dr) ''.upload-'')"

definition carries :: "lib \<Rightarrow> draws \<Rightarrow> (site, 'r) state \<Rightarrow> bool" where
  "carries lib dr m = (\<forall>s. site_ok lib s \<longrightarrow> fresh_draws dr s \<longrightarrow> site_ok lib (snd (run_state m s)))"

lemma photos_site_ok: "site_ok lib s \<longleftrightarrow> store_inv (l_fold lib) (c_db s) \<and> photos_on_disk (l_fold lib) s"
  by (auto simp: site_ok_def photos_on_disk_def store_inv_def)

lemma same_effects: "effects s' = effects s \<Longrightarrow> site_ok lib s' = site_ok lib s"
  "effects s' = effects s \<Longrightarrow> fresh_draws dr s' = fresh_draws dr s"
  by (simp_all add: effects_def site_ok_def fresh_draws_def)

lemma carries_quiet: "quiet m \<Longrightarrow> carries lib dr m"
proof -
  assume m: "quiet m"
  have "effects (snd (run_state m s)) = effects s" for s using m by (simp add: quiet_def)
  then show ?thesis unfolding carries_def using same_effects(1) by blast
qed

lemma carries_after: "quiet m \<Longrightarrow> (\<And>x. carries lib dr (k x)) \<Longrightarrow> carries lib dr (State_Monad.bind m k)"
  unfolding carries_def
proof (intro allI impI)
  fix s
  assume m: "quiet m" and k: "\<And>x. \<forall>s. site_ok lib s \<longrightarrow> fresh_draws dr s \<longrightarrow> site_ok lib (snd (run_state (k x) s))"
    and s: "site_ok lib s" "fresh_draws dr s"
  obtain x s' where run: "run_state m s = (x, s')" by fastforce
  have "effects s' = effects s" by (rule quietD [OF m run])
  then have "site_ok lib s'" "fresh_draws dr s'" using s same_effects by blast+
  then show "site_ok lib (snd (run_state (State_Monad.bind m k) s))" using k run by simp
qed

lemma carries_on_result:
  "quiet m \<Longrightarrow> (\<And>e. carries lib dr (h e)) \<Longrightarrow> (\<And>x. carries lib dr (k x)) \<Longrightarrow> carries lib dr (on_result m h k)"
  unfolding on_result_def by (intro carries_after) (auto split: sum.splits)

lemma carries_if: "carries lib dr a \<Longrightarrow> carries lib dr b \<Longrightarrow> carries lib dr (if c then a else b)"
  by simp

lemma carries_option:
  "carries lib dr a \<Longrightarrow> (\<And>x. carries lib dr (b x)) \<Longrightarrow> carries lib dr (case r of None \<Rightarrow> a | Some x \<Rightarrow> b x)"
  by (cases r) auto

lemma carries_answer: "carries lib dr (answer resp)"
  by (rule carries_quiet) (rule quiet_answer)

lemma carries_rateLimit: "(\<And>w. carries lib dr (nxt r w)) \<Longrightarrow> carries lib dr (rateLimit x nxt r w)"
  unfolding rateLimit_def by (intro carries_after quiet_take carries_if carries_answer)

lemma carries_at_now: "(\<And>now. carries lib dr (h now r w)) \<Longrightarrow> carries lib dr (at_now h r w)"
  unfolding at_now_def by (intro carries_after) (simp_all add: quiet_def)

text \<open>A request that names no photos leaves the files too, wherever mail goes.\<close>

definition same_files :: "(site, 'r) state \<Rightarrow> bool" where
  "same_files m = (\<forall>s. w_files (snd (run_state m s)) = w_files s)"

lemma same_files_conn: "conn_only m \<Longrightarrow> same_files m"
  unfolding same_files_def using conn_only_outside(2) [OF _ surjective_pairing] by blast

lemma same_files_on_result:
  "same_files m \<Longrightarrow> (\<And>e. same_files (h e)) \<Longrightarrow> (\<And>x. same_files (k x)) \<Longrightarrow> same_files (on_result m h k)"
  by (auto simp: same_files_def run_on_result split: prod.splits sum.splits) (metis snd_conv)+

lemma tame_site_ok:
  assumes "keeps (store_inv (l_fold lib)) m" "\<And>K. keeps (names_are K) m" "same_files m" and "site_ok lib s"
  shows "site_ok lib (snd (run_state m s))"
proof -
  have "stored_keys (c_db (snd (run_state m s))) = stored_keys (c_db s)"
    using keepsD [OF assms(2), of "stored_keys (c_db s)" s] by (simp add: names_are_def)
  then show ?thesis
    using assms(1,3,4) by (simp add: site_ok_def keeps_def same_files_def)
qed

lemma carries_tame:
  "keeps (store_inv (l_fold lib)) m \<Longrightarrow> (\<And>K. keeps (names_are K) m) \<Longrightarrow> same_files m \<Longrightarrow> carries lib dr m"
  unfolding carries_def using tame_site_ok by blast

lemma same_files_login: "same_files (handleLoginRequest lib cfg rid tok r w)"
proof -
  have send: "same_files (do { sent \<leftarrow> mailer_Send t u b; answer (f sent) })" for t u b and f :: "bool \<Rightarrow> response"
    by (simp add: same_files_def run_simps run_answer split: list.splits)
  have *: "same_files (do { sent \<leftarrow> mailer_Send t u b; if \<not> sent then answer x else answer y })" for t u b x y
    using send [of t u b "\<lambda>sent. if \<not> sent then x else y"] by (simp add: if_distrib [of answer])
  show ?thesis
    unfolding handleLoginRequest_def
    by (auto intro!: same_files_on_result * conn_only_user [THEN same_files_conn] conn_only_answer [THEN same_files_conn]
        split: option.splits sum.splits)
qed

lemma carries_tame_handlers:
  "carries lib dr (handleLoginRequest lib cfg rid tok r w)" "carries lib dr (handleLoginComplete lib uid sid stok r w)"
  "carries lib dr (handleLogout lib r w)" "carries lib dr (handleClaimSubmit lib now r w)"
  "carries lib dr (handleMoodSubmit lib cfg now rid r w)" "carries lib dr (handleNameSubmit lib cfg now r w)"
  "carries lib dr (handleGuestbookSign lib cfg rid r w)" "carries lib dr (handleGuestbookHide lib r w)"
  "carries lib dr (handleGuestbookShow lib r w)" "carries lib dr (handleStyleSubmit lib cfg now r w)"
  by (rule carries_tame; (rule stored.tame_handlers named.tame_handlers same_files_login |
    intro same_files_conn conn_only_intros))+

lemma carries_photo_handlers:
  "carries lib dr (handlePhotoUpload lib cfg cd now slot (dr_key dr) (dr_tmp dr) r w)"
  "carries lib dr (handlePhotoRemove lib r w)" "carries lib dr (handleAccountDelete lib now r w)"
proof -
  have *: "carries lib dr m"
    if "keeps (store_inv (l_fold lib)) m" and "\<And>s. photos_on_disk (l_fold lib) s \<Longrightarrow> fresh_draws dr s \<Longrightarrow>
      photos_on_disk (l_fold lib) (snd (run_state m s))" for m :: "(site, response) state"
    using that by (simp add: carries_def photos_site_ok keeps_def)
  note stay = photos_stay_on_disk [where tmp = "dr_tmp dr" and rnd = "dr_key dr" and lib = lib, folded ext_def]
  show "carries lib dr (handlePhotoUpload lib cfg cd now slot (dr_key dr) (dr_tmp dr) r w)"
    by (rule *, rule stored.photo_handlers) (rule stay [THEN conjunct1]; simp add: fresh_draws_def)
  show "carries lib dr (handlePhotoRemove lib r w)"
    by (rule *, rule stored.photo_handlers) (rule stay [THEN conjunct2, THEN conjunct1]; simp add: fresh_draws_def)
  show "carries lib dr (handleAccountDelete lib now r w)"
    by (rule *, rule stored.photo_handlers) (rule stay [THEN conjunct2, THEN conjunct2]; simp add: fresh_draws_def)
qed

section \<open>Through the router\<close>

lemma app_routes_carry:
  "list_all (\<lambda>(meth, ps, h). carries (sv_lib sv) dr (h r w)) (appRoutes sv dr)"
  by (simp add: appRoutes_def Let_def quiet_reads [THEN carries_quiet] quiet_photos [THEN carries_quiet]
      carries_tame_handlers carries_photo_handlers carries_rateLimit carries_at_now)

lemma mux_carries: "carries (sv_lib sv) dr (mux lib (appRoutes sv dr) r w)"
proof -
  have "carries (sv_lib sv) dr (h (r\<lparr>PathValues := vs\<rparr>) w)"
    if "find_route r (appRoutes sv dr) = Some (vs, h)" for vs h
    using find_route_Some [OF that] app_routes_carry [of sv dr "r\<lparr>PathValues := vs\<rparr>" w]
    by (fastforce simp: list_all_iff)
  then show ?thesis by (auto simp: mux_def Let_def carries_answer split: option.splits)
qed

lemma CurrentUser_carries: "(\<And>r w. carries lib dr (nxt r w)) \<Longrightarrow> carries lib dr (CurrentUser lib' nxt r w)"
  unfolding CurrentUser_def by (intro carries_option carries_if carries_on_result quiet_reads carries_answer)

lemma app_surface_carries: "carries (sv_lib sv) dr (app_surface sv dr r w)"
  by (simp add: app_surface_def AppCSP_def csp_def PrivateCache_def CrossOrigin_def BodyLimit_def carries_answer
      CurrentUser_carries mux_carries)

lemma Handler_carries: "carries (sv_lib sv) dr (Handler sv dr r w)"
proof -
  have "carries (sv_lib sv) dr (hostSplit sv (app_surface sv dr) (page_surface sv) r' w')" for r' w'
    by (auto simp: hostSplit_def Let_def app_surface_carries carries_answer carries_quiet [OF page_surface_quiet]
        split: option.splits)
  then have "carries (sv_lib sv) dr (SecurityHeaders b (hostSplit sv (app_surface sv dr) (page_surface sv)) r' w')" for b r' w'
    by (simp add: SecurityHeaders_def Let_def)
  then show ?thesis
    unfolding carries_def Handler_run using same_effects(1) [OF RequestLogger_effects] by blast
qed

section \<open>Histories of the site\<close>

text \<open>\<open>UPDATE users SET can_upload_photos = true WHERE handle = \<dots>\<close>, which the runbook has the operator run.\<close>

definition grant_photos :: "string \<Rightarrow> db \<Rightarrow> db" where
  "grant_photos h d = d\<lparr>users := map (\<lambda>u. if u_handle u = Some h then u\<lparr>u_can_upload_photos := True\<rparr> else u) (users d)\<rparr>"

text \<open>
  A site starts on empty tables, with whatever is in its photo directory.  A step is a request, with
  the answers of the random source and of the disk; a purge; a grant; or anything outside: time passes,
  the process starts anew with other limiters and another log, the next calls, sends and file
  operations fail in another way.  A photo key is one that names no file yet.
\<close>

inductive site_reachable :: "server \<Rightarrow> site \<Rightarrow> bool" for sv where
  start: "c_db s = empty_db \<Longrightarrow> site_reachable sv s"
| request: "site_reachable sv s \<Longrightarrow> fresh_draws dr s \<Longrightarrow> run_state (Handler sv dr r w) s = (resp, s') \<Longrightarrow>
    site_reachable sv s'"
| purging: "site_reachable sv s \<Longrightarrow> run_state (purge retention) s = (counts, s') \<Longrightarrow> site_reachable sv s'"
| granting: "site_reachable sv s \<Longrightarrow> site_reachable sv (s\<lparr>c_db := grant_photos h (c_db s)\<rparr>)"
| environment: "site_reachable sv s \<Longrightarrow> c_db s' = c_db s \<Longrightarrow> w_files s' = w_files s \<Longrightarrow> site_reachable sv s'"

text \<open>The grant changes one column, which no invariant reads.\<close>

lemma grant_row:
  assumes "\<And>u. f (u\<lparr>u_can_upload_photos := True\<rparr>) = f u"
  shows "map f (users (grant_photos h d)) = map f (users d)" "f ` set (users (grant_photos h d)) = f ` set (users d)"
    "list_all P (map f (users (grant_photos h d))) = list_all P (map f (users d))"
proof -
  show f: "map f (users (grant_photos h d)) = map f (users d)" using assms by (simp add: grant_photos_def)
  show "f ` set (users (grant_photos h d)) = f ` set (users d)" by (metis f set_map)
  show "list_all P (map f (users (grant_photos h d))) = list_all P (map f (users d))" by (simp only: f)
qed

lemma grant_column:
  "(\<And>u. f (u\<lparr>u_can_upload_photos := True\<rparr>) = f u) \<Longrightarrow> column f (users (grant_photos h d)) = column f (users d)"
  unfolding grant_photos_def by (auto intro!: column_map_same)

lemma grant_users: "users_ok L (users (grant_photos h d)) = users_ok L (users d)"
    "list_all account_ok (users (grant_photos h d)) = list_all account_ok (users d)"
    "stored_keys (grant_photos h d) = stored_keys d" "user_ids (grant_photos h d) = user_ids d"
proof -
  have [simp]: "account_ok (u\<lparr>u_can_upload_photos := True\<rparr>) = account_ok u"
    "user_check (u\<lparr>u_can_upload_photos := True\<rparr>) = user_check u" for u
    by (simp_all add: account_ok_def user_check_def split: option.split)
  show "users_ok L (users (grant_photos h d)) = users_ok L (users d)"
    unfolding users_ok_def user_keys_def
    using grant_row(1) [of u_id h d] grant_row(1) [of "\<lambda>u. L (u_email u)" h d]
      grant_row(3) [of user_check id h d] grant_column [of u_photo_key h d]
      grant_column [of "\<lambda>u. map_option L (u_handle u)" h d] by (simp add: list.pred_map)
  show "list_all account_ok (users (grant_photos h d)) = list_all account_ok (users d)"
    using grant_row(3) [of account_ok id h d] by (simp add: list.pred_map)
  show "stored_keys (grant_photos h d) = stored_keys d"
    unfolding stored_keys_def using grant_column [of u_photo_key h d] by simp
  show "user_ids (grant_photos h d) = user_ids d"
    unfolding user_ids_def using grant_row(2) [of u_id h d] by simp
qed

lemma grant_ok: "store_inv L (grant_photos h d) = store_inv L d"
proof -
  have rest: "login_tokens (grant_photos h d) = login_tokens d" "sessions (grant_photos h d) = sessions d"
    "moods (grant_photos h d) = moods d" "mood_history (grant_photos h d) = mood_history d"
    "guestbook_entries (grant_photos h d) = guestbook_entries d" "page_styles (grant_photos h d) = page_styles d"
    "deleted_handles (grant_photos h d) = deleted_handles d" by (simp_all add: grant_photos_def)
  show ?thesis
    by (simp add: store_inv_def db_ok_def accounts_ok_def mood_log_def entries_ok_def page_styles_ok_def references_ok_def
        grant_users rest)
qed

lemma site_reachable_ok: "site_reachable sv s \<Longrightarrow> site_ok (sv_lib sv) s"
proof (induction rule: site_reachable.induct)
  case (start s)
  moreover have "stored_keys empty_db = {}" by (simp add: stored_keys_def empty_db_def)
  ultimately show ?case by (simp add: site_ok_def store_inv_empty on_disk_def)
next
  case (request s dr r w resp s')
  then show ?case using Handler_carries [of sv dr r w] unfolding carries_def by (metis snd_conv)
next
  case (purging s retention counts s')
  have "same_files (purge retention :: (site, (nat \<times> nat \<times> nat) option) state)"
    unfolding purge_def by (intro same_files_conn conn_only_intros)
  then show ?case
    using tame_site_ok [OF stored.purges named.purges] purging by (metis snd_conv)
next
  case (granting s h)
  then show ?case by (simp add: site_ok_def grant_ok grant_users)
next
  case (environment s s')
  then show ?case by (simp add: site_ok_def)
qed

section \<open>Properties\<close>

text \<open>C3: Whatever requests reach the site, from whomever, on whatever host and path and in whatever order,
  with purges, the operator's grants and restarts in between and whichever calls to the database, the
  mail server or the disk fail: every table stays as the services that own it keep it, an account is
  active exactly when it has a handle, and every photo an account names is a file of the directory.\<close>

theorem site_consistent:
  assumes "site_reachable sv s"
  shows "store_inv (l_fold (sv_lib sv)) (c_db s) \<and>
    (\<forall>u\<in>set (users (c_db s)). (u_state u = ''active'' \<longleftrightarrow> u_handle u \<noteq> None) \<and>
       (\<forall>k. u_photo_key u = Some k \<longrightarrow> ValidKey k \<and> w_files s (k @ ''.jpg'') \<noteq> None))"
proof -
  have ok: "store_inv (l_fold (sv_lib sv)) (c_db s)" "on_disk (w_files s) (stored_keys (c_db s))"
    using site_reachable_ok [OF assms] by (simp_all add: site_ok_def)
  then have db: "db_ok (l_fold (sv_lib sv)) (c_db s)" "list_all account_ok (users (c_db s))"
    by (simp_all add: store_inv_def accounts_ok_def)
  have "u_state u = ''active'' \<longleftrightarrow> u_handle u \<noteq> None" if "u \<in> set (users (c_db s))" for u
    using db(2) that by (cases "u_handle u") (auto simp: list_all_iff account_ok_def StateActive_def StatePendingHandle_def)
  moreover have "ValidKey k \<and> w_files s (k @ ''.jpg'') \<noteq> None"
    if "u \<in> set (users (c_db s))" "u_photo_key u = Some k" for u k
  proof -
    have "k \<in> stored_keys (c_db s)" using that by (auto simp: stored_keys_iff)
    then show ?thesis using stored_key_valid [OF db(1)] ok(2) by (simp add: on_disk_def ext_def)
  qed
  ultimately show ?thesis using ok(1) by blast
qed

section \<open>A concrete run\<close>

text \<open>A visitor asks for a link, on a site nobody has used yet.\<close>

definition demo_ask :: request where
  "demo_ask = blank_request\<lparr>Method := ''POST'', Host := ''App.localhost:8080'', Path := ''/login'', Segments := [''login''],
     ReqHeaders := [(''Sec-Fetch-Site'', ''same-origin'')], PostForm := Some [(''email'', [''ana@example.com''])]\<rparr>"

lemma fresh_allows: "buckets l = [] \<Longrightarrow> 0 < maxBuckets l \<Longrightarrow> \<exists>l'. allow [] now key l = (True, l')"
  by (simp add: allow_def reap_def Let_def)

lemma take_fresh:
  assumes "s_visits s = []" "buckets (limiter_of x s) = []" "0 < maxBuckets (limiter_of x s)"
  shows "\<exists>l. run_state (take_token x r) s = (True, put_limiter x l s)"
proof -
  have "(put_limiter x l s)\<lparr>s_visits := tl (s_visits s)\<rparr> = put_limiter x l s" for l
    using assms(1) by (cases x; cases s) (simp_all add: put_limiter_def)
  then show ?thesis
    using assms fresh_allows [of "limiter_of x s" "s_clock s" "limiter_key (limiter_of x s) r"]
    by (auto simp: take_token_def Let_def)
qed

lemma demo_ask_email: "NormaliseEmail (l_parse_address demo_lib) (l_lower demo_lib) ''ana@example.com'' = Inr ''ana@example.com''"
  by code_simp

lemma demo_ask_sent:
  assumes "c_db s = empty_db" "c_faults s = []" "w_mail_faults s = []" "w_sent s = []"
    "ParseForm r = Some [(''email'', [''ana@example.com''])]" "FormValue r [(''email'', [''ana@example.com''])] ''email'' = ''ana@example.com''"
  shows "w_sent (snd (run_state (handleLoginRequest demo_lib cfg rid tok r w) s)) = 
   [(''ana@example.com'', loginSubject, loginBody (BaseURL cfg @ ''/login/'' @ tok))]"
  using assms demo_ask_email RequestLogin_quiet [OF demo_ask_email, where w = s]
  by (simp add: handleLoginRequest_def run_on_result run_simps run_answer empty_db_def sent_recently_def LoginBudget_def)

lemma demo_ask_app: "on_app demo_server demo_ask" by code_simp

lemma demo_ask_route:
  assumes "Segments r = [''login'']" "Method r = ''POST''" "CleanPath r"
  shows "mux lib (appRoutes sv dr) r w = rateLimit Writes (rateLimit Logins48
    (handleLoginRequest (sv_lib sv) (sv_Config sv) (dr_rid dr) (dr_token dr))) (r\<lparr>PathValues := []\<rparr>) w"
  by (simp add: mux_def appRoutes_def Let_def route_values_def method_serves_def assms)

lemma demo_ask_app_sent:
  "w_sent (snd (run_state (app_surface demo_server demo_draws (demo_ask\<lparr>CtxRequestID := x\<rparr>) w) (demo_site empty_db))) \<noteq> []"
proof -
  let ?r = "demo_ask\<lparr>CtxRequestID := x\<rparr>" and ?s = "demo_site empty_db"
  let ?f = "[(''email'', [''ana@example.com''])]"
  have cross: "\<not> cross_origin lib ?r" for lib
    unfolding cross_origin_update by (simp add: cross_origin_def demo_ask_def req_header_def)
  have r: "Segments ?r = [''login'']" "Method ?r = ''POST''" "CleanPath ?r" "\<not> HasBody ?r" "req_cookie ?r c = None"
    "ParseForm (?r\<lparr>PathValues := []\<rparr>) = Some ?f" "FormValue (?r\<lparr>PathValues := []\<rparr>) ?f ''email'' = ''ana@example.com''" for c
    by (simp_all add: demo_ask_def blank_request_def req_cookie_def ParseForm_def FormValue_def)
  note fresh = limiter_of_def new_limiters_def newRateLimiter_def newNetworkLimiter_def limiterMaxBuckets_def Let_def
  obtain l1 where l1: "run_state (take_token Writes (?r\<lparr>PathValues := []\<rparr>)) ?s = (True, put_limiter Writes l1 ?s)"
    using take_fresh [of ?s Writes] by (auto simp: demo_site_def fresh)
  obtain l2 where l2: "run_state (take_token Logins48 (?r\<lparr>PathValues := []\<rparr>)) (put_limiter Writes l1 ?s) =
      (True, put_limiter Logins48 l2 (put_limiter Writes l1 ?s))"
    using take_fresh [of "put_limiter Writes l1 ?s" Logins48] by (auto simp: demo_site_def fresh put_limiter_def)
  have outside: "c_db (put_limiter Logins48 l2 (put_limiter Writes l1 ?s)) = empty_db"
    "c_faults (put_limiter Logins48 l2 (put_limiter Writes l1 ?s)) = []"
    "w_mail_faults (put_limiter Logins48 l2 (put_limiter Writes l1 ?s)) = []"
    "w_sent (put_limiter Logins48 l2 (put_limiter Writes l1 ?s)) = []" by (simp_all add: put_limiter_def demo_site_def)
  show ?thesis
    using r cross by (simp add: app_surface_def AppCSP_def csp_def PrivateCache_def CrossOrigin_def BodyLimit_def
        CurrentUser_def demo_ask_route rateLimit_def l1 l2 demo_server_def demo_ask_sent outside)
qed

definition demo_asked :: "response \<times> site" where
  "demo_asked = run_state (Handler demo_server demo_draws demo_ask new_writer) (demo_site empty_db)"

lemma demo_asked_sent: "w_sent (snd demo_asked) \<noteq> []"
  unfolding demo_asked_def Handler_run run_RequestLogger SecurityHeaders_def Let_def hostSplit_def
  using demo_ask_app [unfolded on_app_def] demo_ask_app_sent by (simp split: prod.splits) (metis snd_conv)

lemma site_consistent_witness:
  "w_sent (snd demo_asked) \<noteq> [] \<and> store_inv id (c_db (snd demo_asked))"
proof -
  have "fresh_draws demo_draws (demo_site empty_db)"
    by (simp add: fresh_draws_def demo_site_def demo_draws_def has_prefix_def)
  moreover have "site_reachable demo_server (demo_site empty_db)" by (rule site_reachable.start) simp
  ultimately have "site_reachable demo_server (snd demo_asked)"
    unfolding demo_asked_def using site_reachable.request surjective_pairing by blast
  moreover have "l_fold (sv_lib demo_server) = id" by (simp add: demo_server_def demo_lib_def)
  ultimately show ?thesis using site_consistent demo_asked_sent by metis
qed

end
