(* ===== verification/OgCard.thy ===== *)
theory OgCard
  imports Page "HOL-Library.Sublist"
begin

text \<open>
  \<open>internal/ogcard\<close>: the palette read from the theme's stylesheet, and the layout of the preview
  image.  The typefaces (whether a face can be built at a size, and how wide it draws a text) and the
  PNG encoder are libraries and arguments here; a card is its background and the lines it draws.
\<close>

section \<open>The palette\<close>

text \<open>\<open>regexp\<close>, for what \<open>moodRuleRE\<close> uses: all the ways to match, the preferred one first.\<close>

datatype re =
    Str string
  | Many "char \<Rightarrow> bool"
  | Many1 "char \<Rightarrow> bool"
  | Rep nat "char \<Rightarrow> bool"
  | Alt re re
  | Group re

fun greedy :: "(char \<Rightarrow> bool) \<Rightarrow> string \<Rightarrow> string list" where
  "greedy P [] = [[]]"
| "greedy P (c # cs) = (if P c then greedy P cs @ [c # cs] else [c # cs])"

fun re_match :: "re \<Rightarrow> string \<Rightarrow> (string list \<times> string) list" where
  "re_match (Str l) s = (if prefix l s then [([], drop (length l) s)] else [])"
| "re_match (Many P) s = map (Pair []) (greedy P s)"
| "re_match (Many1 P) s = (case s of [] \<Rightarrow> [] | c # cs \<Rightarrow> if P c then map (Pair []) (greedy P cs) else [])"
| "re_match (Rep n P) s = (if n \<le> length s \<and> list_all P (take n s) then [([], drop n s)] else [])"
| "re_match (Alt a b) s = re_match a s @ re_match b s"
| "re_match (Group a) s = map (\<lambda>(cs, t). (take (length s - length t) s # cs, t)) (re_match a s)"

fun re_seq :: "re list \<Rightarrow> string \<Rightarrow> (string list \<times> string) list" where
  "re_seq [] s = [([], s)]"
| "re_seq (r # rs) s = concat (map (\<lambda>(cs, t). map (\<lambda>(ds, u). (cs @ ds, u)) (re_seq rs t)) (re_match r s))"

text \<open>\<open>FindAllSubmatch\<close> of a pattern that matches no empty text.\<close>

function find_all :: "re list \<Rightarrow> string \<Rightarrow> string list list" where
  "find_all rs [] = []"
| "find_all rs (c # s) = (case re_seq rs (c # s) of
     (cs, t) # _ \<Rightarrow> if length t \<le> length s then cs # find_all rs t else find_all rs s
   | [] \<Rightarrow> find_all rs s)"
  by pat_completeness auto
termination by (relation "measure (\<lambda>(_, s). length s)") auto

definition in_range :: "nat \<Rightarrow> nat \<Rightarrow> char \<Rightarrow> bool" where
  "in_range a b c = (a \<le> code c \<and> code c \<le> b)"

definition re_space :: "char \<Rightarrow> bool" where
  "re_space c = (c \<in> {CHR '' '', CHR 0x09, CHR 0x0A, CHR 0x0C, CHR 0x0D})"

text \<open>\<open>[^}]*\<close>.\<close>

definition in_rule :: re where "in_rule = Many (\<lambda>c. c \<noteq> CHR ''}'')"

definition hexColorPattern :: "re list" where
  "hexColorPattern = [Str ''#'', Group (Alt (Rep 6 hex_any) (Rep 3 hex_any))]"

definition moodRuleRE :: "re list" where
  "moodRuleRE = [Str ''.mood-'', Group (Many1 (in_range 97 122)), Many re_space, Str ''{'', in_rule,
     Str ''--mood-bg:'', Many re_space] @ hexColorPattern @ [in_rule, Str ''--mood-fg:'', Many re_space] @
     hexColorPattern @ [in_rule, Str ''}'']"

type_synonym rgba = "nat \<times> nat \<times> nat \<times> nat"

record Colors =
  Background :: rgba
  Foreground :: rgba

type_synonym Palette = "string \<rightharpoonup> Colors"

text \<open>
  \<open>Sscanf\<close> with \<open>%02x%02x%02x\<close>: on the digits \<open>moodRuleRE\<close> has matched it reads them in pairs.
\<close>

definition parseHexColor :: "string \<Rightarrow> rgba option" where
  "parseHexColor hex =
     (let full = (case hex of [a, b, c] \<Rightarrow> [a, a, b, b, c, c] | _ \<Rightarrow> hex);
          pair = (\<lambda>i. 16 * hex_val (full ! i) + hex_val (full ! Suc i))
      in if length full = 6 \<and> list_all hex_any full then Some (pair 0, pair 2, pair 4, 255) else None)"

fun add_rules :: "string list list \<Rightarrow> Palette \<Rightarrow> Palette option" where
  "add_rules [] p = Some p"
| "add_rules (m # ms) p = (case m of
     [key, bg, fg] \<Rightarrow> (case parseHexColor bg of None \<Rightarrow> None | Some b \<Rightarrow>
       (case parseHexColor fg of None \<Rightarrow> None | Some f \<Rightarrow>
         add_rules ms (p(key \<mapsto> \<lparr>Background = b, Foreground = f\<rparr>))))
   | _ \<Rightarrow> None)"

definition ParsePalette :: "string \<Rightarrow> Palette option" where
  "ParsePalette css = (let matches = find_all moodRuleRE css in
     if matches = [] then None else add_rules matches (\<lambda>_. None))"

section \<open>Faces\<close>

definition Width :: int where "Width = 1200"
definition Height :: int where "Height = 630"
definition padding :: int where "padding = 80"
definition handleSize :: int where "handleSize = 64"
definition handleMinSize :: int where "handleMinSize = 28"
definition handleStep :: int where "handleStep = 4"
definition labelSize :: int where "labelSize = 40"
definition noteSize :: int where "noteSize = 34"
definition maxNoteLines :: nat where "maxNoteLines = 4"
definition noneClass :: string where "noneClass = ''none''"

datatype weight = Regular | Bold

text \<open>\<open>fn_width\<close> is \<open>font.MeasureString\<close> in 64ths of a pixel.\<close>

record fonts =
  fn_builds :: "weight \<Rightarrow> int \<Rightarrow> bool"
  fn_width :: "weight \<Rightarrow> int \<Rightarrow> string \<Rightarrow> int"

definition maxWidth :: int where "maxWidth = 64 * (Width - 2 * padding)"

text \<open>\<open>int(size * 1.35)\<close>: the product is a whole number of hundredths here.\<close>

definition lineHeight :: "int \<Rightarrow> int" where "lineHeight s = s * 135 div 100"

text \<open>\<open>fitSize\<close>; a face that cannot be built is the error.\<close>

function fitSize :: "fonts \<Rightarrow> weight \<Rightarrow> string \<Rightarrow> int \<Rightarrow> int \<Rightarrow> int \<Rightarrow> int option" where
  "fitSize fn f s sz minSize maxw =
     (if sz > minSize then
        (if \<not> fn_builds fn f sz then None
         else if fn_width fn f sz s \<le> maxw then Some sz
         else fitSize fn f s (sz - handleStep) minSize maxw)
      else Some minSize)"
  by pat_completeness auto
termination by (relation "measure (\<lambda>(_, _, _, sz, minSize, _). nat (sz - minSize))") (auto simp: handleStep_def)

declare fitSize.simps [simp del]

section \<open>Wrapping\<close>

definition of_runes :: "nat list \<Rightarrow> string" where
  "of_runes rs = concat (map encode_rune rs)"

definition ellipsis :: string where "ellipsis = [CHR 0xE2, CHR 0x80, CHR 0xA6]"

text \<open>\<open>for end > 0 && d.MeasureString(...) > maxWidth { end-- }\<close>.\<close>

primrec shrink :: "(nat \<Rightarrow> bool) \<Rightarrow> nat \<Rightarrow> nat" where
  "shrink fits 0 = 0"
| "shrink fits (Suc n) = (if fits (Suc n) then Suc n else shrink fits n)"

definition truncateWithEllipsis :: "(string \<Rightarrow> int) \<Rightarrow> nat list \<Rightarrow> int \<Rightarrow> string" where
  "truncateWithEllipsis width rs maxw =
     of_runes (take (shrink (\<lambda>n. width (of_runes (take n rs) @ ellipsis) \<le> maxw) (length rs)) rs) @ ellipsis"

text \<open>The loop of \<open>wrapLines\<close>, with the number of lines still allowed.\<close>

fun wrap_from :: "(string \<Rightarrow> int) \<Rightarrow> int \<Rightarrow> nat \<Rightarrow> nat list \<Rightarrow> string list" where
  "wrap_from width maxw 0 rs = []"
| "wrap_from width maxw (Suc k) rs =
     (if rs = [] then [] else
      let e0 = shrink (\<lambda>n. width (of_runes (take n rs)) \<le> maxw) (length rs);
          e = (if e0 = 0 then 1 else e0)
      in if k = 0 \<and> e < length rs then [truncateWithEllipsis width rs maxw]
         else of_runes (take e rs) # wrap_from width maxw k (drop e rs))"

definition wrapLines :: "(string \<Rightarrow> int) \<Rightarrow> string \<Rightarrow> int \<Rightarrow> nat \<Rightarrow> string list" where
  "wrapLines width s maxw maxLines = (if s = [] then [] else wrap_from width maxw maxLines (runes s))"

section \<open>The card\<close>

text \<open>One line of text: its face, and the pixel where its baseline starts.\<close>

record drawn =
  dn_weight :: weight
  dn_size :: int
  dn_text :: string
  dn_x :: int
  dn_y :: int

definition drawLine :: "weight \<Rightarrow> int \<Rightarrow> string \<Rightarrow> int \<Rightarrow> int \<Rightarrow> drawn" where
  "drawLine f sz s x y = \<lparr>dn_weight = f, dn_size = sz, dn_text = s, dn_x = x, dn_y = y\<rparr>"

text \<open>Lines under each other, drawn before and after the step down.\<close>

fun lines_down :: "string list \<Rightarrow> int \<Rightarrow> drawn list" where
  "lines_down [] y = []"
| "lines_down (l # ls) y = drawLine Regular noteSize l padding y # lines_down ls (y + lineHeight noteSize)"

fun down_lines :: "string list \<Rightarrow> int \<Rightarrow> drawn list" where
  "down_lines [] y = []"
| "down_lines (l # ls) y = (let y1 = y + lineHeight noteSize in
     drawLine Regular noteSize l padding y1 # down_lines ls y1)"

definition drawCard :: "fonts \<Rightarrow> Card \<Rightarrow> drawn list option" where
  "drawCard fn c =
     (let title = (if cd_Name c \<noteq> [] then cd_Name c else cd_Handle c) in
      case fitSize fn Bold title handleSize handleMinSize maxWidth of
        None \<Rightarrow> None
      | Some sz \<Rightarrow>
          if \<not> fn_builds fn Bold sz then None
          else if \<not> fn_builds fn Bold labelSize then None
          else if \<not> fn_builds fn Regular noteSize then None
          else
            (let y0 = padding + handleSize;
                 head = drawLine Bold sz title padding y0;
                 y1 = y0 + lineHeight labelSize + labelSize;
                 note = fn_width fn Regular noteSize
             in if cd_MoodLabel c = [] \<and> cd_MoodNote c = []
                then Some (head # lines_down (wrapLines note EmptyStateText maxWidth maxNoteLines) y1)
                else Some (head # drawLine Bold labelSize (cd_MoodLabel c) padding y1 #
                  down_lines (wrapLines note (cd_MoodNote c) maxWidth maxNoteLines) (y1 + lineHeight noteSize))))"

text \<open>\<open>Render\<close>: \<open>encode\<close> is drawing on the background and \<open>png.Encode\<close>.\<close>

definition Render :: "fonts \<Rightarrow> (Colors \<Rightarrow> drawn list \<Rightarrow> string option) \<Rightarrow> Palette \<Rightarrow> Card \<Rightarrow> string option" where
  "Render fn encode palette c =
     (case (case palette (cd_MoodClass c) of None \<Rightarrow> palette noneClass | found \<Rightarrow> found) of
        None \<Rightarrow> None
      | Some colors \<Rightarrow> (case drawCard fn c of None \<Rightarrow> None | Some ds \<Rightarrow> encode colors ds))"

section \<open>Sizes and lines\<close>

lemma fitSize_spec:
  "fitSize fn f s sz minSize maxw = Some n \<Longrightarrow> minSize \<le> sz \<Longrightarrow>
   minSize \<le> n \<and> n \<le> sz \<and> (n = minSize \<or> fn_width fn f n s \<le> maxw)"
proof (induction fn f s sz minSize maxw rule: fitSize.induct)
  case (1 fn f s sz minSize maxw)
  show ?case
  proof (cases "minSize \<le> sz - handleStep")
    case True
    then show ?thesis
      using 1 fitSize.simps [of fn f s sz minSize maxw] by (auto simp: handleStep_def split: if_splits)
  next
    case False
    then have "fitSize fn f s (sz - handleStep) minSize maxw = Some minSize"
      by (subst fitSize.simps) simp
    then show ?thesis
      using 1(2,3) fitSize.simps [of fn f s sz minSize maxw] by (auto split: if_splits)
  qed
qed

lemma shrink_le: "shrink fits n \<le> n"
  by (induction n) auto

lemma shrink_fits: "shrink fits n = 0 \<or> fits (shrink fits n)"
  by (induction n) auto

lemma of_runes_append [simp]: "of_runes (a @ b) = of_runes a @ of_runes b"
  by (simp add: of_runes_def)

text \<open>A line that is wider than allowed is a single rune, or an ellipsis alone.\<close>

definition line_ok :: "(string \<Rightarrow> int) \<Rightarrow> int \<Rightarrow> string \<Rightarrow> bool" where
  "line_ok width maxw l = (width l \<le> maxw \<or> l = ellipsis \<or> (\<exists>r. l = encode_rune r))"

text \<open>The lines of a text: all of it in order, or as much as the last line holds with an ellipsis.\<close>

definition shows_text :: "nat \<Rightarrow> nat list \<Rightarrow> string list \<Rightarrow> bool" where
  "shows_text k rs ls = (concat ls = of_runes rs \<or>
     (\<exists>n. concat ls = of_runes (take n rs) @ ellipsis \<and> length ls = k))"

lemma truncate_ok: "line_ok width maxw (truncateWithEllipsis width rs maxw)"
  using shrink_fits [of "\<lambda>n. width (of_runes (take n rs) @ ellipsis) \<le> maxw" "length rs"]
  by (auto simp: truncateWithEllipsis_def line_ok_def of_runes_def)

lemma wrap_from_spec:
  "length (wrap_from width maxw k rs) \<le> k \<and> list_all (line_ok width maxw) (wrap_from width maxw k rs) \<and>
   (0 < k \<longrightarrow> shows_text k rs (wrap_from width maxw k rs))"
proof (induction k arbitrary: rs)
  case (Suc k)
  let ?fit = "shrink (\<lambda>n. width (of_runes (take n rs)) \<le> maxw) (length rs)"
  let ?e = "if ?fit = 0 then 1 else ?fit"
  show ?case
  proof (cases "rs = []")
    case True
    then show ?thesis by (simp add: shows_text_def of_runes_def)
  next
    case rs: False
    have e: "?e \<le> length rs" using rs shrink_le [of _ "length rs"] by (auto simp: Suc_le_eq)
    have line: "line_ok width maxw (of_runes (take ?e rs))"
    proof (cases "?fit = 0")
      case True
      then have "?e = 1" by simp
      moreover obtain r rs' where "rs = r # rs'" using rs by (cases rs) auto
      ultimately show ?thesis unfolding \<open>?e = 1\<close> by (auto simp: line_ok_def of_runes_def)
    next
      case False
      then show ?thesis
        using shrink_fits [of "\<lambda>n. width (of_runes (take n rs)) \<le> maxw" "length rs"] by (auto simp: line_ok_def)
    qed
    show ?thesis
    proof (cases "k = 0 \<and> ?e < length rs")
      case True
      then have "wrap_from width maxw (Suc k) rs = [truncateWithEllipsis width rs maxw]"
        using rs by (simp add: Let_def)
      then show ?thesis
        using True truncate_ok by (auto simp: shows_text_def truncateWithEllipsis_def)
    next
      case False
      let ?ls = "wrap_from width maxw k (drop ?e rs)"
      have w: "wrap_from width maxw (Suc k) rs = of_runes (take ?e rs) # ?ls"
        using rs False by (auto simp: Let_def)
      have split: "of_runes (take ?e rs) @ of_runes (drop ?e rs) = of_runes rs"
        by (metis append_take_drop_id of_runes_append)
      have "shows_text (Suc k) rs (of_runes (take ?e rs) # ?ls)"
      proof (cases "k = 0")
        case True
        then have "take ?e rs = rs" using False by auto
        then show ?thesis using True by (simp add: shows_text_def)
      next
        case k: False
        then have "shows_text k (drop ?e rs) ?ls" using Suc.IH by simp
        then consider "concat ?ls = of_runes (drop ?e rs)"
          | n where "concat ?ls = of_runes (take n (drop ?e rs)) @ ellipsis" "length ?ls = k"
          by (auto simp: shows_text_def)
        then show ?thesis
        proof cases
          case 1
          then show ?thesis using split by (simp add: shows_text_def)
        next
          case (2 n)
          have "of_runes (take ?e rs) @ of_runes (take n (drop ?e rs)) = of_runes (take (?e + n) rs)"
            by (metis of_runes_append take_add)
          then have "concat (of_runes (take ?e rs) # ?ls) = of_runes (take (?e + n) rs) @ ellipsis"
            using 2(1) by simp
          then show ?thesis using 2(2) unfolding shows_text_def by auto
        qed
      qed
      then show ?thesis unfolding w using Suc.IH [of "drop ?e rs"] line by simp
    qed
  qed
qed simp

lemma wrapLines_spec:
  "length (wrapLines width s maxw k) \<le> k" "list_all (line_ok width maxw) (wrapLines width s maxw k)"
  "0 < k \<Longrightarrow> shows_text k (runes s) (wrapLines width s maxw k)"
  using wrap_from_spec [of width maxw k "runes s"]
  by (auto simp: wrapLines_def shows_text_def of_runes_def runes_def)

section \<open>What a card shows\<close>

lemma lines_down_spec:
  "map dn_text (lines_down ls y) = ls" "length (lines_down ls y) = length ls"
  "list_all (\<lambda>d. dn_weight d = Regular \<and> dn_x d = padding \<and> y \<le> dn_y d \<and> dn_y d \<le> y + 45 * int (length ls))
     (lines_down ls y)"
  by (induction ls arbitrary: y) (fastforce simp: drawLine_def lineHeight_def noteSize_def list_all_iff)+

lemma down_lines_spec:
  "map dn_text (down_lines ls y) = ls" "length (down_lines ls y) = length ls"
  "list_all (\<lambda>d. dn_weight d = Regular \<and> dn_x d = padding \<and> y \<le> dn_y d \<and> dn_y d \<le> y + 45 * int (length ls))
     (down_lines ls y)"
  by (induction ls arbitrary: y) (fastforce simp: drawLine_def lineHeight_def noteSize_def Let_def list_all_iff)+

definition title_of :: "Card \<Rightarrow> string" where
  "title_of c = (if cd_Name c \<noteq> [] then cd_Name c else cd_Handle c)"

definition note_of :: "Card \<Rightarrow> string" where
  "note_of c = (if cd_MoodLabel c = [] \<and> cd_MoodNote c = [] then EmptyStateText else cd_MoodNote c)"

definition note_lines :: "drawn list \<Rightarrow> string list" where
  "note_lines ds = map dn_text (filter (\<lambda>d. dn_weight d = Regular) ds)"

definition in_card :: "drawn \<Rightarrow> bool" where
  "in_card d = (dn_x d = padding \<and> padding + handleSize \<le> dn_y d \<and> dn_y d \<le> Height - 2 * padding)"

lemma note_lines_all: "list_all (\<lambda>d. dn_weight d = Regular \<and> P d) ds \<Longrightarrow> note_lines ds = map dn_text ds"
  by (simp add: note_lines_def list_all_iff)

lemma note_lines_Bold [simp]: "note_lines (drawLine Bold sz t x y # ds) = note_lines ds"
  by (simp add: note_lines_def drawLine_def)

lemma drawCard_cases:
  assumes "drawCard fn c = Some ds"
  obtains sz rest where "fitSize fn Bold (title_of c) handleSize handleMinSize maxWidth = Some sz"
    and "ds = drawLine Bold sz (title_of c) padding (padding + handleSize) # rest"
    and "note_lines rest = wrapLines (fn_width fn Regular noteSize) (note_of c) maxWidth maxNoteLines"
    and "length rest \<le> Suc (length (note_lines rest))" and "list_all in_card rest"
proof -
  let ?ls = "wrapLines (fn_width fn Regular noteSize) (note_of c) maxWidth maxNoteLines"
  have len: "int (length ?ls) \<le> 4" using wrapLines_spec(1) [of _ _ _ maxNoteLines] by (simp add: maxNoteLines_def)
  obtain sz where sz: "fitSize fn Bold (title_of c) handleSize handleMinSize maxWidth = Some sz"
    using assms by (auto simp: drawCard_def title_of_def Let_def split: option.splits)
  have in_down: "list_all in_card (lines_down ?ls 238)" "list_all in_card (down_lines ?ls 283)"
    using lines_down_spec(3) [where ls = ?ls and y = 238] down_lines_spec(3) [where ls = ?ls and y = 283] len
    by (fastforce simp: list_all_iff in_card_def padding_def handleSize_def Height_def)+
  show ?thesis
  proof (cases "cd_MoodLabel c = [] \<and> cd_MoodNote c = []")
    case True
    then have "ds = drawLine Bold sz (title_of c) padding (padding + handleSize) # lines_down ?ls 238"
      using assms sz
      by (simp add: drawCard_def title_of_def note_of_def Let_def lineHeight_def labelSize_def padding_def
          handleSize_def split: if_splits)
    then show ?thesis
      using that [OF sz] note_lines_all [OF lines_down_spec(3) [where ls = ?ls and y = 238]] in_down(1)
      by (simp add: lines_down_spec(1,2))
  next
    case False
    then have "ds = drawLine Bold sz (title_of c) padding (padding + handleSize) #
        drawLine Bold labelSize (cd_MoodLabel c) padding 238 # down_lines ?ls 283"
      using assms sz
      by (auto simp: drawCard_def title_of_def note_of_def Let_def lineHeight_def labelSize_def noteSize_def
          padding_def handleSize_def split: if_splits)
    moreover have "in_card (drawLine Bold labelSize (cd_MoodLabel c) padding 238)"
      by (simp add: in_card_def drawLine_def padding_def handleSize_def Height_def)
    ultimately show ?thesis
      using that [OF sz] note_lines_all [OF down_lines_spec(3) [where ls = ?ls and y = 283]] in_down(2)
      by (simp add: down_lines_spec(1,2))
  qed
qed

text \<open>A preview card never runs out of its frame, whatever the texts and the typeface: it draws at most
  six lines, all with their baselines inside the margins; its title is drawn between 28 and 64
  points, and only at 28 may it be too wide; the note takes at most four lines that fit (or hold a
  single rune), and they show all of it or all that fits with an ellipsis.\<close>

theorem card_in_frame:
  assumes "drawCard fn c = Some ds"
  shows "length ds \<le> 6 \<and> list_all in_card ds \<and>
    (\<exists>sz. 28 \<le> sz \<and> sz \<le> 64 \<and> hd ds = drawLine Bold sz (title_of c) 80 144 \<and>
       (sz = 28 \<or> fn_width fn Bold sz (title_of c) \<le> maxWidth)) \<and>
    length (note_lines ds) \<le> 4 \<and> list_all (line_ok (fn_width fn Regular noteSize) maxWidth) (note_lines ds) \<and>
    shows_text 4 (runes (note_of c)) (note_lines ds)"
proof -
  obtain sz rest where sz: "fitSize fn Bold (title_of c) handleSize handleMinSize maxWidth = Some sz"
    and ds: "ds = drawLine Bold sz (title_of c) padding (padding + handleSize) # rest"
    and nl: "note_lines rest = wrapLines (fn_width fn Regular noteSize) (note_of c) maxWidth maxNoteLines"
    and len: "length rest \<le> Suc (length (note_lines rest))" and inside: "list_all in_card rest"
    by (rule drawCard_cases [OF assms])
  have four: "maxNoteLines = 4" by (simp add: maxNoteLines_def)
  note w = wrapLines_spec [where width = "fn_width fn Regular noteSize" and s = "note_of c" and maxw = maxWidth and k = 4]
  have size: "28 \<le> sz \<and> sz \<le> 64 \<and> (sz = 28 \<or> fn_width fn Bold sz (title_of c) \<le> maxWidth)"
    using fitSize_spec [OF sz] by (simp add: handleSize_def handleMinSize_def)
  have eq: "note_lines ds = wrapLines (fn_width fn Regular noteSize) (note_of c) maxWidth 4"
    using nl by (simp add: ds four)
  have "length ds \<le> 6" using len w(1) nl four by (simp add: ds)
  moreover have "list_all in_card ds"
    using inside by (simp add: ds in_card_def drawLine_def padding_def handleSize_def Height_def)
  moreover have "hd ds = drawLine Bold sz (title_of c) 80 144"
    by (simp add: ds padding_def handleSize_def)
  ultimately show ?thesis
    using size w unfolding eq by auto
qed

text \<open>A typeface with square letters.\<close>

definition demo_fonts :: fonts where
  "demo_fonts = \<lparr>fn_builds = (\<lambda>_ sz. 0 < sz), fn_width = (\<lambda>_ sz s. 64 * sz * int (length s))\<rparr>"

definition demo_card :: Card where
  "demo_card = \<lparr>cd_Handle = ''ana'', cd_Name = ''Ana de la esquina'', cd_MoodClass = ''feliz'', cd_MoodLabel = ''Feliz'',
     cd_MoodNote = ''un lunes''\<rparr>"

definition demo_drawn :: "drawn list" where
  "demo_drawn = [drawLine Bold 60 ''Ana de la esquina'' 80 144, drawLine Bold 40 ''Feliz'' 80 238,
      drawLine Regular 34 ''un lunes'' 80 328]"

lemma demo_card_drawn: "drawCard demo_fonts demo_card = Some demo_drawn"
  by code_simp

lemma card_in_frame_witness:
  "list_all in_card demo_drawn \<and> shows_text 4 (runes (note_of demo_card)) (note_lines demo_drawn)"
  using card_in_frame [OF demo_card_drawn] by blast

section \<open>A rule of the shipped theme\<close>

lemma theme_rule_parsed:
  "map_option (\<lambda>p. (p ''feliz'', p ''none'')) (ParsePalette ''.mood-none{--mood-bg:#f4f4f4;--mood-fg:#222}'') =
     Some (None, Some \<lparr>Background = (0xf4, 0xf4, 0xf4, 255), Foreground = (0x22, 0x22, 0x22, 255)\<rparr>)"
  by code_simp

end
