(* ===== verification/Mail.thy ===== *)
theory Mail
  imports Config
begin

text \<open>
  \<open>internal/mail\<close>: the message and the conversation with the relay.  The relay is an argument: for
  each command, whether it fails and with what text.  The deadline of the connection is one of the
  ways its steps fail.
\<close>

section \<open>The message\<close>

definition crlf :: string where "crlf = [CR, LF]"

definition buildMessage :: "string \<Rightarrow> string \<Rightarrow> string \<Rightarrow> string \<Rightarrow> string" where
  "buildMessage from_addr to_addr subject body =
     ''From: '' @ from_addr @ crlf @ ''To: '' @ to_addr @ crlf @ ''Subject: '' @ subject @ crlf @
     ''MIME-Version: 1.0'' @ crlf @ ''Content-Type: text/plain; charset=utf-8'' @ crlf @ crlf @ body"

text \<open>How a reader takes a message apart: header lines up to the first empty one, then the body.\<close>

fun first_line :: "string \<Rightarrow> (string \<times> string) option" where
  "first_line (a # b # s) = (if a = CR \<and> b = LF then Some ([], s)
     else map_option (\<lambda>(l, t). (a # l, t)) (first_line (b # s)))"
| "first_line _ = None"

lemma first_line_shorter: "first_line s = Some (l, t) \<Longrightarrow> length t < length s"
  by (induction s arbitrary: l t rule: first_line.induct) (auto split: if_splits)

function read_message :: "string \<Rightarrow> (string list \<times> string) option" where
  "read_message s = (case first_line s of None \<Rightarrow> None
     | Some (l, t) \<Rightarrow> if l = [] then Some ([], t) else map_option (\<lambda>(ls, b). (l # ls, b)) (read_message t))"
  by pat_completeness auto
termination by (relation "measure length") (auto dest: first_line_shorter)

declare read_message.simps [simp del]

lemma first_line_append: "CR \<notin> set l \<Longrightarrow> first_line (l @ crlf @ t) = Some (l, t)"
proof (induction l)
  case (Cons c l)
  obtain d s where "l @ crlf @ t = d # s" by (cases l) (auto simp: crlf_def)
  then show ?case using Cons by auto
qed (simp add: crlf_def)

lemma read_line:
  "CR \<notin> set l \<Longrightarrow> l \<noteq> [] \<Longrightarrow> read_message (l @ crlf @ t) = map_option (\<lambda>(ls, b). (l # ls, b)) (read_message t)"
  by (subst read_message.simps) (simp add: first_line_append)

lemma read_empty: "read_message (crlf @ t) = Some ([], t)"
  by (subst read_message.simps) (simp add: crlf_def)

text \<open>
  A message whose addresses and subject hold no line break is read back as the five headers and the
  body that went in, whatever the body holds.
\<close>

lemma message_roundtrip:
  assumes "CR \<notin> set f" and "CR \<notin> set t" and "CR \<notin> set subject"
  shows "read_message (buildMessage f t subject body) =
    Some ([''From: '' @ f, ''To: '' @ t, ''Subject: '' @ subject, ''MIME-Version: 1.0'',
      ''Content-Type: text/plain; charset=utf-8''], body)"
proof -
  have "buildMessage f t subject body = (''From: '' @ f) @ crlf @ (''To: '' @ t) @ crlf @
      (''Subject: '' @ subject) @ crlf @ ''MIME-Version: 1.0'' @ crlf @
      ''Content-Type: text/plain; charset=utf-8'' @ crlf @ crlf @ body"
    by (simp add: buildMessage_def)
  then show ?thesis
    using assms by (simp add: read_line read_empty del: append.simps append_Cons append_assoc)
qed

section \<open>The conversation\<close>

datatype smtp_err = SMTPStatus int string | OtherErr string

text \<open>What is said to the relay, in order.\<close>

datatype said =
    STARTTLS
  | AUTH string string
  | MAIL string
  | RCPT string
  | DATA
  | Message string
  | QUIT

record relay =
  rl_dial :: "string option"
  rl_deadline :: "string option"
  rl_greeting :: "string option"
  rl_offers_tls :: bool
  rl_tls :: "string option"
  rl_auth :: "string option"
  rl_mail :: "string option"
  rl_rcpt :: "string \<Rightarrow> smtp_err option"
  rl_data :: "string option"
  rl_write :: "string option"
  rl_close :: "string option"
  rl_quit :: "string option"

definition isLoopbackHost :: "string \<Rightarrow> bool" where
  "isLoopbackHost host =
     (if host = ''localhost'' then True
      else case ParseIP host of None \<Rightarrow> False | Some ip \<Rightarrow> IsLoopback ip)"

definition domainOf :: "string \<Rightarrow> string" where
  "domainOf addr = (case cut_at (CHR ''@'') addr of None \<Rightarrow> ''unknown'' | Some (_, domain) \<Rightarrow> domain)"

definition smtpStatus :: "smtp_err \<Rightarrow> string" where
  "smtpStatus err = (case err of SMTPStatus n _ \<Rightarrow> ''smtp status '' @ dec_text n | OtherErr _ \<Rightarrow> ''rejected'')"

text \<open>Steps taken until one fails; what a step says has been said even when its answer is a failure.\<close>

fun run_steps :: "(said list \<times> string option) list \<Rightarrow> said list \<times> string option" where
  "run_steps [] = ([], None)"
| "run_steps ((ws, err) # ss) = (case err of
     Some e \<Rightarrow> (ws, Some e)
   | None \<Rightarrow> (case run_steps ss of (vs, e) \<Rightarrow> (ws @ vs, e)))"

definition wrapped :: "string \<Rightarrow> string option \<Rightarrow> string option" where
  "wrapped stage e = map_option (\<lambda>t. stage @ '': '' @ t) e"

text \<open>
  \<open>smtp.PlainAuth\<close> refuses a connection that is neither encrypted nor to the local host, and
  \<open>Client.Auth\<close> then quits.
\<close>

definition plain_auth_starts :: "bool \<Rightarrow> string \<Rightarrow> bool" where
  "plain_auth_starts tls host = (tls \<or> host \<in> {''localhost'', ''127.0.0.1'', ''::1''})"

definition starttls_step :: "relay \<Rightarrow> string \<Rightarrow> string \<Rightarrow> said list \<times> string option" where
  "starttls_step rl addr host =
     (if rl_offers_tls rl then ([STARTTLS], wrapped ''starttls'' (rl_tls rl))
      else if \<not> isLoopbackHost host then ([], Some (''relay at '' @ addr @ '' does not offer STARTTLS''))
      else ([], None))"

definition auth_step :: "relay \<Rightarrow> string \<Rightarrow> string \<Rightarrow> string \<Rightarrow> said list \<times> string option" where
  "auth_step rl host user pass =
     (if plain_auth_starts (rl_offers_tls rl) host then ([AUTH user pass], wrapped ''auth'' (rl_auth rl))
      else ([QUIT], Some ''auth: unencrypted connection''))"

definition rcpt_step :: "relay \<Rightarrow> string \<Rightarrow> said list \<times> string option" where
  "rcpt_step rl rcpt = ([RCPT rcpt],
     map_option (\<lambda>err. ''rcpt to '' @ domainOf rcpt @ '': '' @ smtpStatus err) (rl_rcpt rl rcpt))"

definition sendMailWithDeadline ::
  "relay \<Rightarrow> string \<Rightarrow> string \<Rightarrow> string \<Rightarrow> string \<Rightarrow> string \<Rightarrow> string list \<Rightarrow> string \<Rightarrow> said list \<times> string option" where
  "sendMailWithDeadline rl addr host user pass from_addr rcpts msg = run_steps
     ([([], wrapped ''dial'' (rl_dial rl)), ([], wrapped ''set deadline'' (rl_deadline rl)),
       ([], wrapped ''new client'' (rl_greeting rl)),
       starttls_step rl addr host, auth_step rl host user pass,
       ([MAIL from_addr], wrapped ''mail from'' (rl_mail rl))] @
      map (rcpt_step rl) rcpts @
      [([DATA], wrapped ''data'' (rl_data rl)), ([Message msg], wrapped ''write message'' (rl_write rl)),
       ([], wrapped ''close message'' (rl_close rl)), ([QUIT], rl_quit rl)])"

text \<open>\<open>SMTPSender.Send\<close>.  \<open>net.JoinHostPort\<close> brackets a host with a colon.\<close>

definition JoinHostPort :: "string \<Rightarrow> string \<Rightarrow> string" where
  "JoinHostPort host port =
     (if contains_byte host (CHR '':'') then ''['' @ host @ '']:'' @ port else host @ '':'' @ port)"

definition SMTPSender_Send ::
  "relay \<Rightarrow> string \<Rightarrow> string \<Rightarrow> string \<Rightarrow> string \<Rightarrow> string \<Rightarrow> string \<Rightarrow> string \<Rightarrow> string \<Rightarrow> said list \<times> string option" where
  "SMTPSender_Send rl host port user pass from_addr to_addr subject body =
     (let addr = JoinHostPort host port;
          msg = buildMessage from_addr to_addr subject body
      in case sendMailWithDeadline rl addr host user pass from_addr [to_addr] msg of
           (ws, err) \<Rightarrow> (ws, wrapped (''send mail via '' @ addr) err))"

section \<open>The senders\<close>

text \<open>\<open>LogSender.Send\<close> of \<open>log.go\<close>: the message becomes a log line, and that cannot fail.\<close>

record mail_line =
  ml_to :: string
  ml_subject :: string
  ml_body :: string

definition LogSender_Send :: "string \<Rightarrow> string \<Rightarrow> string \<Rightarrow> mail_line list \<Rightarrow> mail_line list \<times> string option" where
  "LogSender_Send to_addr subject body log = (log @ [\<lparr>ml_to = to_addr, ml_subject = subject, ml_body = body\<rparr>], None)"

text \<open>\<open>Sender\<close>: what is said to the relay, what is logged, and the error.\<close>

definition Sender_Send ::
  "relay \<Rightarrow> mail_sender \<Rightarrow> string \<Rightarrow> string \<Rightarrow> string \<Rightarrow> mail_line list \<Rightarrow> said list \<times> mail_line list \<times> string option" where
  "Sender_Send rl snd_by to_addr subject body log = (case snd_by of
     SMTPSender host port user pass from_addr \<Rightarrow>
       (case SMTPSender_Send rl host port user pass from_addr to_addr subject body of (ws, err) \<Rightarrow> (ws, log, err))
   | LogSender \<Rightarrow> (case LogSender_Send to_addr subject body log of (log', err) \<Rightarrow> ([], log', err)))"

text \<open>A production configuration logs no message, and so no sign-in link; any other sends none.\<close>

lemma production_logs_no_mail:
  assumes "Sender_Send rl (newMailSender c) to_addr subject body log = (ws, log', err)"
  shows "IsProduction c \<Longrightarrow> log' = log" "\<not> IsProduction c \<Longrightarrow> ws = [] \<and> err = None"
  using assms by (auto simp: Sender_Send_def LogSender_Send_def newMailSender_def split: prod.splits)

section \<open>What the relay learns\<close>

definition encrypted_first :: "relay \<Rightarrow> said list \<Rightarrow> bool" where
  "encrypted_first rl ws = (ws = [] \<or> (hd ws = STARTTLS \<and> rl_offers_tls rl \<and> (tl ws \<noteq> [] \<longrightarrow> rl_tls rl = None)))"

lemma run_steps_silent: "run_steps (([], None) # ss) = run_steps ss"
  by (simp split: prod.splits)

lemma run_steps_all:
  "run_steps ss = (ws, None) \<Longrightarrow> ws = concat (map fst ss)"
  by (induction ss arbitrary: ws) (auto split: option.splits prod.splits)

lemma sendMail_encrypted:
  assumes "\<not> isLoopbackHost host"
    and "sendMailWithDeadline rl addr host user pass from_addr rcpts msg = (ws, err)"
  shows "encrypted_first rl ws"
proof (cases "rl_dial rl = None \<and> rl_deadline rl = None \<and> rl_greeting rl = None \<and> rl_offers_tls rl")
  case True
  then obtain rest where "sendMailWithDeadline rl addr host user pass from_addr rcpts msg =
      run_steps (([STARTTLS], wrapped ''starttls'' (rl_tls rl)) # rest)"
    by (simp add: sendMailWithDeadline_def wrapped_def starttls_step_def run_steps_silent)
  then show ?thesis
    using assms(2) True
    by (cases "rl_tls rl") (auto simp: encrypted_first_def wrapped_def split: prod.splits)
next
  case False
  then have "ws = []"
    using assms by (auto simp: sendMailWithDeadline_def wrapped_def starttls_step_def split: option.splits prod.splits)
  then show ?thesis by (simp add: encrypted_first_def)
qed

text \<open>C40: A relay that is not on the local machine is told nothing before the connection is encrypted: no
  credentials, no addresses and no message leave in the clear, whatever the relay answers.  A send
  that reports no error has authenticated and handed over exactly the built message, for exactly
  its recipient.\<close>

theorem smtp_nothing_in_clear:
  assumes "\<not> isLoopbackHost host"
    and "SMTPSender_Send rl host port user pass from_addr to_addr subject body = (ws, err)"
  shows "encrypted_first rl ws \<and> (err = None \<longrightarrow>
    ws = [STARTTLS, AUTH user pass, MAIL from_addr, RCPT to_addr, DATA,
      Message (buildMessage from_addr to_addr subject body), QUIT])"
proof -
  let ?msg = "buildMessage from_addr to_addr subject body"
  let ?addr = "JoinHostPort host port"
  obtain e where run: "sendMailWithDeadline rl ?addr host user pass from_addr [to_addr] ?msg = (ws, e)"
    and e: "err = wrapped (''send mail via '' @ ?addr) e"
    using assms(2) by (auto simp: SMTPSender_Send_def Let_def split: prod.splits)
  have enc: "encrypted_first rl ws" by (rule sendMail_encrypted [OF assms(1) run])
  moreover have "ws = [STARTTLS, AUTH user pass, MAIL from_addr, RCPT to_addr, DATA, Message ?msg, QUIT]"
    if "err = None"
  proof -
    have "e = None" using that e by (simp add: wrapped_def)
    from run [unfolded sendMailWithDeadline_def \<open>e = None\<close>, THEN run_steps_all]
    have "ws = fst (starttls_step rl ?addr host) @ fst (auth_step rl host user pass) @
        [MAIL from_addr, RCPT to_addr, DATA, Message ?msg, QUIT]"
      by (simp add: rcpt_step_def)
    then show ?thesis
      using enc
      by (auto simp: encrypted_first_def starttls_step_def auth_step_def plain_auth_starts_def split: if_splits)
  qed
  ultimately show ?thesis by blast
qed

definition demo_relay :: relay where
  "demo_relay = \<lparr>rl_dial = None, rl_deadline = None, rl_greeting = None, rl_offers_tls = True, rl_tls = None,
     rl_auth = None, rl_mail = None, rl_rcpt = (\<lambda>r. if r = ''ana@example.com'' then None else Some (SMTPStatus 550 r)),
     rl_data = None, rl_write = None, rl_close = None, rl_quit = None\<rparr>"

lemma demo_not_loopback: "\<not> isLoopbackHost ''smtp.example.com''"
  by code_simp

lemma demo_sent: "snd (SMTPSender_Send demo_relay ''smtp.example.com'' ''587'' ''u'' ''p'' ''hola@retrat.ar''
    ''ana@example.com'' ''Tu link'' ''x'') = None"
  by code_simp

lemma smtp_nothing_in_clear_witness:
  "fst (SMTPSender_Send demo_relay ''smtp.example.com'' ''587'' ''u'' ''p'' ''hola@retrat.ar'' ''ana@example.com''
      ''Tu link'' ''x'') =
   [STARTTLS, AUTH ''u'' ''p'', MAIL ''hola@retrat.ar'', RCPT ''ana@example.com'', DATA,
     Message (buildMessage ''hola@retrat.ar'' ''ana@example.com'' ''Tu link'' ''x''), QUIT]"
  using smtp_nothing_in_clear [OF demo_not_loopback prod.collapse [symmetric]] demo_sent by blast

text \<open>The error for a refused recipient names its domain and a status, not the text of the relay.\<close>

lemma rcpt_error_text:
  "snd (SMTPSender_Send demo_relay ''smtp.example.com'' ''587'' ''u'' ''p'' ''hola@retrat.ar''
    ''bob@example.org'' ''Tu link'' ''x'') =
   Some ''send mail via smtp.example.com:587: rcpt to example.org: smtp status 550''"
  by code_simp

end
