(* ===== verification/Panics.thy ===== *)
theory Panics
  imports Router
begin

text \<open>
  \<open>Recover\<close> and \<open>statusRecorder\<close> of \<open>internal/web/middleware.go\<close>: what a visitor and the log are told
  when a handler panics.  Here a handler is what it does to its \<open>http.ResponseWriter\<close>, one call after
  the other, and how it ends; the handlers of the other theories, which all finish, are of this kind.
\<close>

section \<open>A response, call by call\<close>

text \<open>
  The calls on a \<open>ResponseWriter\<close>: a change of its headers, \<open>WriteHeader\<close>, \<open>Write\<close>.  A panic carries
  its value; \<open>http.ErrAbortHandler\<close> is the panic that means to cut the connection.
\<close>

datatype write_call = ChangeHeader "writer \<Rightarrow> writer" | WriteHeader int | Write string

datatype ending = Finished | Panicked string | AbortHandler

text \<open>
  The connection's side (\<open>net/http\<close>): the status, 0 until it is sent, with the headers as they are
  then; a second status is ignored.
\<close>

record connection =
  cn_writer :: writer
  cn_status :: int
  cn_header :: writer
  cn_body :: string

definition new_connection :: connection where
  "new_connection = \<lparr>cn_writer = new_writer, cn_status = 0, cn_header = new_writer, cn_body = []\<rparr>"

definition send_header :: "int \<Rightarrow> connection \<Rightarrow> connection" where
  "send_header st c = (if cn_status c \<noteq> 0 then c else c\<lparr>cn_status := st, cn_header := cn_writer c\<rparr>)"

definition conn_call :: "write_call \<Rightarrow> connection \<Rightarrow> connection" where
  "conn_call x c = (case x of
     ChangeHeader f \<Rightarrow> c\<lparr>cn_writer := f (cn_writer c)\<rparr>
   | WriteHeader st \<Rightarrow> send_header st c
   | Write b \<Rightarrow> (let c' = send_header 200 c in c'\<lparr>cn_body := cn_body c' @ b\<rparr>))"

text \<open>What the client has once the handler is back.\<close>

definition on_wire :: "write_call list \<Rightarrow> connection" where
  "on_wire calls = send_header 200 (fold conn_call calls new_connection)"

record statusRecorder =
  sr_status :: int
  sr_bytes :: nat

definition recorder_WriteHeader :: "int \<Rightarrow> statusRecorder \<Rightarrow> statusRecorder" where
  "recorder_WriteHeader st rec = rec\<lparr>sr_status := st\<rparr>"

definition recorder_Write :: "string \<Rightarrow> statusRecorder \<Rightarrow> statusRecorder" where
  "recorder_Write b rec =
     (let rec = (if sr_status rec = 0 then rec\<lparr>sr_status := 200\<rparr> else rec)
      in rec\<lparr>sr_bytes := sr_bytes rec + length b\<rparr>)"

definition recorder_call :: "write_call \<Rightarrow> statusRecorder \<Rightarrow> statusRecorder" where
  "recorder_call x rec = (case x of
     ChangeHeader f \<Rightarrow> rec | WriteHeader st \<Rightarrow> recorder_WriteHeader st rec | Write b \<Rightarrow> recorder_Write b rec)"

definition recorded :: "write_call list \<Rightarrow> statusRecorder" where
  "recorded calls = fold recorder_call calls \<lparr>sr_status = 0, sr_bytes = 0\<rparr>"

section \<open>The middleware\<close>

record panic_line =
  pl_RequestID :: string
  pl_Panic :: string
  pl_Path :: string

record noisy = site +
  n_panics :: "panic_line list"
  n_bytes :: "nat list"

type_synonym 'z raw_handler = "request \<Rightarrow> ('z noisy_scheme, write_call list \<times> ending) state"

text \<open>\<open>http.Error\<close>.\<close>

definition error_calls :: "string \<Rightarrow> int \<Rightarrow> write_call list" where
  "error_calls msg st =
     [ChangeHeader (\<lambda>w. set_header ''X-Content-Type-Options'' ''nosniff''
         (set_header ''Content-Type'' ''text/plain; charset=utf-8'' (w\<lparr>Header := (Header w)(''Content-Length'' := [])\<rparr>))),
      WriteHeader st, Write (msg @ [LF])]"

definition Recover :: "'z raw_handler \<Rightarrow> 'z raw_handler" where
  "Recover nxt r = do {
     out \<leftarrow> nxt r;
     (case out of (calls, end) \<Rightarrow> (case end of
        Panicked v \<Rightarrow> State (\<lambda>s. ((calls @ error_calls ''internal server error'' 500, Finished),
          s\<lparr>n_panics := n_panics s @ [\<lparr>pl_RequestID = RequestIDFrom r, pl_Panic = v, pl_Path = redactedPath (Path r)\<rparr>]\<rparr>))
      | _ \<Rightarrow> State_Monad.return out))
   }"

text \<open>The request logger, from the recorder's side; a panic passes it by without a line.\<close>

definition recorder_line :: "request \<Rightarrow> statusRecorder \<Rightarrow> log_line" where
  "recorder_line r rec = \<lparr>ll_RequestID = RequestIDFrom r, ll_Method = Method r, ll_Host = Host r,
     ll_Path = redactedPath (Path r), ll_Status = (if sr_status rec = 0 then 200 else sr_status rec)\<rparr>"

definition LogRequests :: "'z raw_handler \<Rightarrow> 'z raw_handler" where
  "LogRequests nxt r = do {
     out \<leftarrow> nxt r;
     (case out of (calls, end) \<Rightarrow>
        if end = Finished then State (\<lambda>s. (out, s\<lparr>s_log := s_log s @ [recorder_line r (recorded calls)],
          n_bytes := n_bytes s @ [sr_bytes (recorded calls)]\<rparr>))
        else State_Monad.return out)
   }"

section \<open>Handlers that finish\<close>

text \<open>
  A handler of the other theories: it sets the headers of its response, sends its status and writes
  its body, whose bytes \<open>render\<close> gives.
\<close>

definition calls_of :: "(body \<Rightarrow> string) \<Rightarrow> response \<Rightarrow> write_call list" where
  "calls_of render resp = [ChangeHeader (\<lambda>_. \<lparr>Header = RHeader resp, SetCookies = RCookies resp\<rparr>),
     WriteHeader (Status resp), Write (render (Body resp))]"

definition finishing :: "(body \<Rightarrow> string) \<Rightarrow> ('z noisy_ext) site_handler \<Rightarrow> 'z raw_handler" where
  "finishing render h r = do { resp \<leftarrow> h r new_writer; State_Monad.return (calls_of render resp, Finished) }"

lemma run_LogRequests_Recover:
  assumes "run_state (nxt r) s = ((calls, e), s1)"
  shows "run_state (LogRequests (Recover nxt) r) s = (case e of
     Panicked v \<Rightarrow>
       (let all = calls @ error_calls ''internal server error'' 500 in
        ((all, Finished), s1\<lparr>n_panics := n_panics s1 @ [\<lparr>pl_RequestID = RequestIDFrom r, pl_Panic = v, pl_Path = redactedPath (Path r)\<rparr>],
          s_log := s_log s1 @ [recorder_line r (recorded all)], n_bytes := n_bytes s1 @ [sr_bytes (recorded all)]\<rparr>))
   | Finished \<Rightarrow> ((calls, Finished), s1\<lparr>s_log := s_log s1 @ [recorder_line r (recorded calls)],
       n_bytes := n_bytes s1 @ [sr_bytes (recorded calls)]\<rparr>)
   | AbortHandler \<Rightarrow> ((calls, AbortHandler), s1))"
  using assms by (cases e) (simp_all add: LogRequests_def Recover_def Let_def)

section \<open>What is sent is sent\<close>

definition sends :: "write_call list \<Rightarrow> bool" where
  "sends calls = list_ex (\<lambda>x. case x of ChangeHeader f \<Rightarrow> False | _ \<Rightarrow> True) calls"

text \<open>The statuses handlers send are final ones: \<open>WriteHeader\<close> panics below 100, and 1xx is only informational.\<close>

definition statuses_ok :: "write_call list \<Rightarrow> bool" where
  "statuses_ok calls = list_all (\<lambda>x. case x of WriteHeader st \<Rightarrow> 200 \<le> st | _ \<Rightarrow> True) calls"

lemma send_header_simps [simp]:
  "cn_body (send_header st c) = cn_body c" "cn_writer (send_header st c) = cn_writer c"
  "cn_status c \<noteq> 0 \<Longrightarrow> send_header st c = c" "cn_status c = 0 \<Longrightarrow> cn_status (send_header st c) = st"
  by (simp_all add: send_header_def)

lemma fold_sent:
  "cn_status c \<noteq> 0 \<Longrightarrow> cn_status (fold conn_call calls c) = cn_status c \<and> cn_header (fold conn_call calls c) = cn_header c"
proof (induction calls arbitrary: c)
  case (Cons x calls)
  have "cn_status (conn_call x c) = cn_status c" "cn_header (conn_call x c) = cn_header c"
    using Cons.prems by (cases x; simp add: conn_call_def Let_def)+
  then show ?case using Cons by simp
qed simp

lemma fold_status:
  "cn_status c = 0 \<Longrightarrow> statuses_ok calls \<Longrightarrow> cn_status (fold conn_call calls c) \<noteq> 0 \<longleftrightarrow> sends calls"
proof (induction calls arbitrary: c)
  case (Cons x calls)
  show ?case
  proof (cases x)
    case (ChangeHeader f)
    then show ?thesis using Cons by (simp add: conn_call_def sends_def statuses_ok_def)
  next
    case (WriteHeader st)
    then have "cn_status (conn_call x c) \<noteq> 0" using Cons.prems by (simp add: conn_call_def statuses_ok_def)
    then show ?thesis using WriteHeader fold_sent by (simp add: sends_def)
  next
    case (Write b)
    then have "cn_status (conn_call x c) \<noteq> 0" using Cons.prems by (simp add: conn_call_def Let_def)
    then show ?thesis using Write fold_sent by (simp add: sends_def)
  qed
qed (simp add: sends_def)

lemma fold_unsent_body: "\<not> sends calls \<Longrightarrow> cn_body (fold conn_call calls c) = cn_body c"
proof (induction calls arbitrary: c)
  case (Cons x calls)
  then show ?case by (cases x) (simp_all add: sends_def conn_call_def)
qed simp

text \<open>What \<open>http.Error\<close> adds to what was written.\<close>

lemma on_wire_error:
  assumes "statuses_ok calls" "st \<noteq> 0"
  shows "cn_status (on_wire (calls @ error_calls msg st)) = (if sends calls then cn_status (on_wire calls) else st)"
    and "cn_body (on_wire (calls @ error_calls msg st)) = cn_body (on_wire calls) @ msg @ [LF]"
proof -
  let ?c = "fold conn_call calls new_connection"
  have "cn_status ?c \<noteq> 0 \<longleftrightarrow> sends calls" by (rule fold_status) (simp_all add: new_connection_def assms(1))
  then show "cn_status (on_wire (calls @ error_calls msg st)) = (if sends calls then cn_status (on_wire calls) else st)"
    and "cn_body (on_wire (calls @ error_calls msg st)) = cn_body (on_wire calls) @ msg @ [LF]"
    using assms(2)
    by (cases "sends calls"; simp add: on_wire_def error_calls_def conn_call_def send_header_def Let_def)+
qed

lemma recorded_error: "sr_status (recorded (calls @ error_calls msg st)) = (if st = 0 then 200 else st)"
  by (simp add: recorded_def error_calls_def recorder_call_def recorder_WriteHeader_def recorder_Write_def Let_def)

text \<open>The recorder counts the bytes that are written.\<close>

lemma recorded_bytes: "sr_bytes (recorded calls) = length (cn_body (on_wire calls))"
proof -
  have "sr_bytes (fold recorder_call calls rec) + length (cn_body c) = length (cn_body (fold conn_call calls c)) + sr_bytes rec"
    for rec c
  proof (induction calls arbitrary: rec c)
    case (Cons x calls)
    have "sr_bytes (recorder_call x rec) + length (cn_body c) = length (cn_body (conn_call x c)) + sr_bytes rec"
      by (cases x) (simp_all add: recorder_call_def conn_call_def recorder_WriteHeader_def recorder_Write_def Let_def)
    then show ?case using Cons [of "recorder_call x rec" "conn_call x c"] by simp
  qed simp
  from this [of "\<lparr>sr_status = 0, sr_bytes = 0\<rparr>" new_connection] show ?thesis
    by (simp add: recorded_def on_wire_def new_connection_def)
qed

section \<open>Properties\<close>

text \<open>C16: A panic never takes the process down and never shows the visitor what it was: the request is
  answered, with 500 and a plain error text when nothing was sent yet; what the handler changed
  stays, the log names the panic once, with a path that holds no sign-in token, and the request's
  own line says 500.  The panic that means to cut the connection passes through, with no line.\<close>

theorem panic_answered:
  assumes "run_state (nxt r) s = ((calls, e), s1)" and "statuses_ok calls" and "e \<noteq> Finished"
    and "run_state (LogRequests (Recover nxt) r) s = ((calls', e'), s')"
  shows "(e = AbortHandler \<longrightarrow> (calls', e', s') = (calls, AbortHandler, s1)) \<and>
    (\<forall>v. e = Panicked v \<longrightarrow> e' = Finished \<and> c_db s' = c_db s1 \<and>
      (\<not> sends calls \<longrightarrow> cn_status (on_wire calls') = 500 \<and> cn_body (on_wire calls') = ''internal server error'' @ [LF]) \<and>
      n_panics s' = n_panics s1 @ [\<lparr>pl_RequestID = RequestIDFrom r, pl_Panic = v, pl_Path = redactedPath (Path r)\<rparr>] \<and>
      s_log s' = s_log s1 @ [\<lparr>ll_RequestID = RequestIDFrom r, ll_Method = Method r, ll_Host = Host r,
        ll_Path = redactedPath (Path r), ll_Status = 500\<rparr>])"
proof -
  have "cn_body (on_wire calls) = []" if "\<not> sends calls"
    using fold_unsent_body [OF that] by (simp add: on_wire_def new_connection_def)
  then show ?thesis
    using assms(3,4) on_wire_error [OF assms(2), of 500 "''internal server error''"]
    unfolding run_LogRequests_Recover [where nxt = nxt and r = r, OF assms(1)]
    by (cases e) (auto simp: Let_def recorder_line_def recorded_error)
qed

text \<open>
  A handler that panics after it sent its status: the visitor sees the status it sent and its body
  with the error text at the end, while the request's line in the log says 500.
\<close>

lemma late_panic_seen_as_sent:
  assumes "run_state (nxt r) s = ((calls, Panicked v), s1)" and "statuses_ok calls" "sends calls"
  shows "cn_status (on_wire (fst (fst (run_state (LogRequests (Recover nxt) r) s)))) = cn_status (on_wire calls)"
    and "cn_body (on_wire (fst (fst (run_state (LogRequests (Recover nxt) r) s)))) =
      cn_body (on_wire calls) @ ''internal server error'' @ [LF]"
    and "ll_Status (last (s_log (snd (run_state (LogRequests (Recover nxt) r) s)))) = 500"
  using on_wire_error [OF assms(2), of 500 "''internal server error''"] assms(3)
  unfolding run_LogRequests_Recover [where nxt = nxt and r = r, OF assms(1)]
  by (simp_all add: Let_def recorder_line_def recorded_error)

text \<open>For the handlers of the other theories the chain with \<open>Recover\<close> and the recorder is the chain
  without them: the visitor has the response, and the log the line, that \<open>RequestLogger\<close> gives, and
  the bytes logged are those of the body.\<close>

theorem finishing_unchanged:
  assumes "run_state (RequestLogger h r new_writer) s = (resp, s1)" and "200 \<le> Status resp"
    and "run_state (LogRequests (Recover (finishing render h)) r) s = ((calls, e), s')"
  shows "e = Finished \<and> cn_status (on_wire calls) = Status resp \<and> cn_body (on_wire calls) = render (Body resp) \<and>
    cn_header (on_wire calls) = \<lparr>Header = RHeader resp, SetCookies = RCookies resp\<rparr> \<and>
    s_log s' = s_log s1 \<and> s' = s1\<lparr>n_bytes := n_bytes s1 @ [length (render (Body resp))]\<rparr>"
proof -
  obtain resp0 s0 where h: "run_state (h r new_writer) s = (resp0, s0)" by (rule prod.exhaust)
  then have resp: "resp0 = resp" and s1: "s1 = s0\<lparr>s_log := s_log s0 @ [RequestLogger_line r resp]\<rparr>"
    using assms(1) by (auto simp: run_RequestLogger)
  have run: "run_state (finishing render h r) s = ((calls_of render resp, Finished), s0)"
    using h resp by (simp add: finishing_def)
  have st: "Status resp \<noteq> 0" using assms(2) by simp
  have line: "recorder_line r (recorded (calls_of render resp)) = RequestLogger_line r resp"
    using st by (simp add: recorder_line_def RequestLogger_line_def recorded_def calls_of_def recorder_call_def
        recorder_WriteHeader_def recorder_Write_def Let_def)
  have n: "sr_bytes (recorded (calls_of render resp)) = length (render (Body resp))"
    using st by (simp add: recorded_def calls_of_def recorder_call_def recorder_WriteHeader_def recorder_Write_def Let_def)
  have out: "calls = calls_of render resp" "e = Finished"
    "s' = s1\<lparr>n_bytes := n_bytes s1 @ [length (render (Body resp))]\<rparr>"
    using assms(3) unfolding run_LogRequests_Recover [where nxt = "finishing render h" and r = r, OF run] by (simp_all add: line n s1)
  then show ?thesis using st by (simp add: on_wire_def calls_of_def conn_call_def send_header_def new_connection_def Let_def)
qed

section \<open>Demonstration\<close>

definition demo_panicking :: "unit raw_handler" where
  "demo_panicking r = State_Monad.return ([ChangeHeader (set_header ''Content-Type'' ''text/html; charset=utf-8'')], Panicked ''nil map'')"

lemma panic_answered_witness:
  "\<forall>s. cn_status (on_wire (fst (fst (run_state (LogRequests (Recover demo_panicking) blank_request) s)))) = 500"
proof
  fix s :: noisy
  let ?calls = "[ChangeHeader (set_header ''Content-Type'' ''text/html; charset=utf-8'')]"
  obtain calls' e' s' where run: "run_state (LogRequests (Recover demo_panicking) blank_request) s = ((calls', e'), s')"
    by (metis surj_pair)
  have "run_state (demo_panicking blank_request) s = ((?calls, Panicked ''nil map''), s)"
    by (simp add: demo_panicking_def)
  moreover have "statuses_ok ?calls" "\<not> sends ?calls" by (simp_all add: statuses_ok_def sends_def)
  ultimately have "cn_status (on_wire calls') = 500"
    using panic_answered [where nxt = demo_panicking and r = blank_request, OF _ _ _ run] by simp
  then show "cn_status (on_wire (fst (fst (run_state (LogRequests (Recover demo_panicking) blank_request) s)))) = 500"
    by (simp add: run)
qed

lemma finishing_unchanged_witness:
  "\<forall>s :: noisy. cn_status (on_wire (fst (fst (run_state
     (LogRequests (Recover (finishing (\<lambda>_. ''ok'') handleHealth)) blank_request) s)))) = 200"
proof
  fix s :: noisy
  let ?h = "handleHealth :: unit noisy_ext site_handler"
  obtain calls e s' where run: "run_state (LogRequests (Recover (finishing (\<lambda>_. ''ok'') ?h)) blank_request) s = ((calls, e), s')"
    by (metis surj_pair)
  obtain resp s1 where line: "run_state (RequestLogger ?h blank_request new_writer) s = (resp, s1)" by (rule prod.exhaust)
  then have "Status resp = 200" by (auto simp: run_RequestLogger handleHealth_def run_answer)
  then have "cn_status (on_wire calls) = 200" using finishing_unchanged [OF line _ run] by simp
  then show "cn_status (on_wire (fst (fst (run_state
     (LogRequests (Recover (finishing (\<lambda>_. ''ok'') handleHealth)) blank_request) s)))) = 200"
    by (simp add: run)
qed

end
