(* ===== verification/Startup.thy ===== *)
theory Startup
  imports Router Operator
begin

text \<open>
  \<open>cmd/server/main.go\<close> up to \<open>serve\<close>, with the packages it starts the process from:
  \<open>internal/store\<close> (opening the pool, migrating), \<open>internal/buildinfo\<close> and the diagnostics of
  \<open>internal/web/admin.go\<close>.  The pool, the migration library and the runtime are outside: each call
  to them succeeds or fails as the list \<open>pr_faults\<close> says, and what the process does is the list of
  its events.
\<close>

section \<open>Build information\<close>

record Info =
  bi_Version :: string
  bi_Revision :: string
  bi_Time :: string
  bi_Dirty :: bool
  bi_GoVer :: string

definition read_setting :: "Info \<Rightarrow> string \<times> string \<Rightarrow> Info" where
  "read_setting info s = (case s of (key, v) \<Rightarrow>
     if key = ''vcs.revision'' then info\<lparr>bi_Revision := v\<rparr>
     else if key = ''vcs.time'' then info\<lparr>bi_Time := v\<rparr>
     else if key = ''vcs.modified'' then info\<lparr>bi_Dirty := (v = ''true'')\<rparr>
     else info)"

text \<open>\<open>debug.ReadBuildInfo\<close> gives the main module's version and the settings, or nothing.\<close>

definition read_info :: "string \<Rightarrow> (string \<times> (string \<times> string) list) option \<Rightarrow> Info" where
  "read_info gover bi =
     (let info = \<lparr>bi_Version = ''devel'', bi_Revision = ''unknown'', bi_Time = [], bi_Dirty = False, bi_GoVer = gover\<rparr>
      in case bi of
           None \<Rightarrow> info
         | Some (v, settings) \<Rightarrow> foldl read_setting (if v \<noteq> [] then info\<lparr>bi_Version := v\<rparr> else info) settings)"

definition short :: "Info \<Rightarrow> string" where
  "short i = (if length (bi_Revision i) > 12 then take 12 (bi_Revision i) else bi_Revision i)"

definition Info_String :: "Info \<Rightarrow> string" where
  "Info_String i =
     (let s = bi_Version i @ '' ('' @ short i @ '')'';
          s = (if bi_Dirty i then s @ '' [dirty]'' else s)
      in s @ '' '' @ bi_GoVer i)"

section \<open>Diagnostics\<close>

text \<open>
  The handlers of the diagnostics mux; those of \<open>net/http/pprof\<close> and \<open>expvar\<close> are a parameter.  The
  pattern that ends in a slash matches every path below it, and the longer patterns win over it.
\<close>

datatype admin_handler = PprofIndex | PprofCmdline | PprofProfile | PprofSymbol | PprofTrace | Expvar | Version

definition admin_routes :: "admin_handler route list" where
  "admin_routes =
     [(''GET'', [Lit ''debug'', Lit ''pprof'', Lit ''cmdline''], PprofCmdline),
      (''GET'', [Lit ''debug'', Lit ''pprof'', Lit ''profile''], PprofProfile),
      (''GET'', [Lit ''debug'', Lit ''pprof'', Lit ''symbol''], PprofSymbol),
      (''GET'', [Lit ''debug'', Lit ''pprof'', Lit ''trace''], PprofTrace),
      (''GET'', [Lit ''debug'', Lit ''vars''], Expvar),
      (''GET'', [Lit ''version''], Version)]"

definition below_pprof :: "request \<Rightarrow> bool" where
  "below_pprof r = (2 < length (Segments r) \<and> take 2 (Segments r) = [''debug'', ''pprof''])"

definition find_admin :: "request \<Rightarrow> admin_handler option" where
  "find_admin r = (case find_route r admin_routes of
     Some (_, h) \<Rightarrow> Some h
   | None \<Rightarrow> if method_serves ''GET'' (Method r) \<and> below_pprof r then Some PprofIndex else None)"

text \<open>\<open>enc.Encode\<close> of the build with an indent of two spaces; the toolchain's strings are printable ASCII.\<close>

definition json_byte :: "char \<Rightarrow> string" where
  "json_byte c =
     (if c = CHR 0x22 \<or> c = CHR 0x5C then [CHR 0x5C, c]
      else if c = CHR ''<'' then [CHR 0x5C] @ ''u003c'' else if c = CHR ''>'' then [CHR 0x5C] @ ''u003e''
      else if c = CHR ''&'' then [CHR 0x5C] @ ''u0026'' else [c])"

definition json_string :: "string \<Rightarrow> string" where
  "json_string s = [CHR 0x22] @ concat (map json_byte s) @ [CHR 0x22]"

definition info_json :: "Info \<Rightarrow> string" where
  "info_json i =
     (let field = (\<lambda>name v. ''  '' @ json_string name @ '': '' @ v)
      in ''{'' @ [LF] @ field ''Version'' (json_string (bi_Version i)) @ '','' @ [LF] @
         field ''Revision'' (json_string (bi_Revision i)) @ '','' @ [LF] @
         field ''Time'' (json_string (bi_Time i)) @ '','' @ [LF] @
         field ''Dirty'' (if bi_Dirty i then ''true'' else ''false'') @ '','' @ [LF] @
         field ''GoVer'' (json_string (bi_GoVer i)) @ [LF] @ ''}'' @ [LF])"

definition handleVersion :: "Info \<Rightarrow> 'z handler" where
  "handleVersion info r w = answer (respond 200 (Text (info_json info))
     (set_header ''Content-Type'' ''application/json; charset=utf-8'' w))"

definition AdminHandler :: "lib \<Rightarrow> Info \<Rightarrow> (admin_handler \<Rightarrow> 'z handler) \<Rightarrow> 'z handler" where
  "AdminHandler lib info runtime r w =
     (if \<not> CleanPath r \<and> Method r \<noteq> ''CONNECT'' then answer (l_mux_redirect lib r w)
      else (case find_admin r of
          Some h \<Rightarrow> if h = Version then handleVersion info r w else runtime h r w
        | None \<Rightarrow>
            if Segments r = [''debug'', ''pprof''] \<and> method_serves ''GET'' (Method r) then answer (l_mux_redirect lib r w)
            else if below_pprof r \<or> Segments r = [''debug'', ''pprof''] \<or> allowed_methods r admin_routes \<noteq> []
            then answer (http_Error ''Method Not Allowed'' 405 (set_header ''Allow'' ''GET, HEAD'' w))
            else answer (http_NotFound w)))"

section \<open>Flags\<close>

datatype flag_err = BadSyntax string | NotDefined string | BadValue string string | HelpAsked

record flags =
  fl_migrate :: bool
  fl_stats :: bool

text \<open>\<open>strconv.ParseBool\<close>.\<close>

definition ParseBool :: "string \<Rightarrow> bool option" where
  "ParseBool s =
     (if s \<in> set [''1'', ''t'', ''T'', ''TRUE'', ''true'', ''True''] then Some True
      else if s \<in> set [''0'', ''f'', ''F'', ''FALSE'', ''false'', ''False''] then Some False else None)"

text \<open>One flag of the set, after its minus signs: \<open>name\<close> or \<open>name=value\<close>.\<close>

definition set_flag :: "string \<Rightarrow> flags \<Rightarrow> flag_err + flags" where
  "set_flag s fl =
     (let name = takeWhile (\<lambda>c. c \<noteq> CHR ''='') s; rest = dropWhile (\<lambda>c. c \<noteq> CHR ''='') s;
          v = (if rest = [] then Some True else ParseBool (tl rest))
      in if name = ''migrate'' \<or> name = ''stats'' then
           (case v of None \<Rightarrow> Inl (BadValue (tl rest) name)
            | Some b \<Rightarrow> Inr (if name = ''migrate'' then fl\<lparr>fl_migrate := b\<rparr> else fl\<lparr>fl_stats := b\<rparr>))
         else if name = ''help'' \<or> name = ''h'' then Inl HelpAsked else Inl (NotDefined name))"

text \<open>\<open>flags.Parse\<close>: until the first argument that is no flag, or after \<open>--\<close>.\<close>

fun parse_flags :: "string list \<Rightarrow> flags \<Rightarrow> flag_err + flags" where
  "parse_flags [] fl = Inr fl"
| "parse_flags (s # args) fl =
     (if length s < 2 \<or> hd s \<noteq> CHR ''-'' then Inr fl
      else if s = ''--'' then Inr fl
      else (let name = (if s ! 1 = CHR ''-'' then drop 2 s else drop 1 s)
        in if name = [] \<or> hd name = CHR ''-'' \<or> hd name = CHR ''='' then Inl (BadSyntax s)
           else (case set_flag name fl of Inl e \<Rightarrow> Inl e | Inr fl' \<Rightarrow> parse_flags args fl')))"

definition no_flags :: flags where "no_flags = \<lparr>fl_migrate = False, fl_stats = False\<rparr>"

section \<open>The process\<close>

text \<open>\<open>newLogger\<close>: JSON from the level of information up in production, text from debug up elsewhere.\<close>

datatype log_format = JSONHandler | TextHandler
datatype log_level = LevelDebug | LevelInfo

definition newLogger :: "Config \<Rightarrow> log_format \<times> log_level" where
  "newLogger cfg = (if IsProduction cfg then (JSONHandler, LevelInfo) else (TextHandler, LevelDebug))"

datatype surface = PublicHandler | DiagnosticsHandler

record http_server =
  hs_Addr :: string
  hs_Handler :: surface
  hs_ReadHeaderTimeout :: duration
  hs_ReadTimeout :: duration
  hs_WriteTimeout :: duration
  hs_IdleTimeout :: duration
  hs_MaxHeaderBytes :: int

definition newHTTPServer :: "string \<Rightarrow> surface \<Rightarrow> http_server" where
  "newHTTPServer addr h =
     \<lparr>hs_Addr = addr, hs_Handler = h, hs_ReadHeaderTimeout = 5 * second, hs_ReadTimeout = 30 * second,
      hs_WriteTimeout = 30 * second, hs_IdleTimeout = 2 * minute, hs_MaxHeaderBytes = 65536\<rparr>"

datatype run_err =
    Wrap string run_err | FlagError flag_err | ConfigError "config_err list" | CallFailed
  | StoreError store_err | DatabaseError pg_error | ServeErrors "run_err list"

datatype event =
    PoolOpened | PoolClosed | HandleOpened | HandleClosed | Migrated int | UpToDate nat | Printed string
  | Starting string Config | PurgeStarted | Serving "http_server list"
  | SchemaCreated string | SchemaDropped string

record process = site +
  pr_faults :: "bool list"
  pr_events :: "event list"

type_synonym ('z, 'r) process_prog = "('z process_scheme, 'r) state"

definition emit :: "event list \<Rightarrow> ('z, unit) process_prog" where
  "emit es = State (\<lambda>w. ((), w\<lparr>pr_events := pr_events w @ es\<rparr>))"

text \<open>A call to what is outside: it fails, or it has the events it has.\<close>

definition call :: "event list \<Rightarrow> ('z, run_err + unit) process_prog" where
  "call es = State (\<lambda>w. case pr_faults w of
     [] \<Rightarrow> (Inr (), w\<lparr>pr_events := pr_events w @ es\<rparr>)
   | f # fs \<Rightarrow> if f then (Inl CallFailed, w\<lparr>pr_faults := fs\<rparr>)
       else (Inr (), w\<lparr>pr_faults := fs, pr_events := pr_events w @ es\<rparr>))"

text \<open>\<open>defer x.Close()\<close>: the rest, and then the event of closing on every exit.\<close>

definition deferred :: "event \<Rightarrow> ('z, 'r) process_prog \<Rightarrow> ('z, 'r) process_prog" where
  "deferred e m = do { r \<leftarrow> m; _ \<leftarrow> emit [e]; State_Monad.return r }"

text \<open>\<open>store.Open\<close>: parse the address, build the pool, and reach the database once.\<close>

definition store_Open :: "('z, run_err + unit) process_prog" where
  "store_Open =
     attempt (call []) (Wrap ''parse database url'') (\<lambda>_.
     attempt (call [PoolOpened]) (Wrap ''create pool'') (\<lambda>_. do {
       pinged \<leftarrow> call [];
       case pinged of
         Inl err \<Rightarrow> do { _ \<leftarrow> emit [PoolClosed]; State_Monad.return (Inl (Wrap ''ping database'' err)) }
       | Inr _ \<Rightarrow> State_Monad.return (Inr ())
     }))"

text \<open>\<open>store.Migrate\<close>: \<open>pending\<close> are the versions the library applies.\<close>

definition store_Migrate :: "int list \<Rightarrow> ('z, run_err + unit) process_prog" where
  "store_Migrate pending = do {
     _ \<leftarrow> emit [HandleOpened];
     deferred HandleClosed
       (attempt (call []) (Wrap ''create migration provider'') (\<lambda>_.
        attempt (call (map Migrated pending)) (Wrap ''apply migrations'') (\<lambda>_. do {
          _ \<leftarrow> emit [UpToDate (length pending)];
          State_Monad.return (Inr ())
        })))
   }"

definition applyMigrations :: "int list \<Rightarrow> ('z, run_err + unit) process_prog" where
  "applyMigrations pending =
     attempt store_Open (Wrap ''open database'') (\<lambda>_. deferred PoolClosed (store_Migrate pending))"

definition writeStats :: "instant \<Rightarrow> ('z, run_err + unit) process_prog" where
  "writeStats now =
     attempt store_Open (Wrap ''open database'') (\<lambda>_. deferred PoolClosed
       (attempt (Collect now) DatabaseError (\<lambda>report.
        attempt (call [Printed (WriteTo report)]) (Wrap ''write stats'') (\<lambda>_.
        State_Monad.return (Inr ())))))"

text \<open>\<open>run\<close>.  \<open>served\<close> is what \<open>serve\<close> joins: the errors it ends with, none for a clean end.\<close>

record outside =
  o_parse_url :: "string \<Rightarrow> (string \<times> string) option"
  o_parse_duration :: "string \<Rightarrow> int option"
  o_info :: Info
  o_now :: instant
  o_pending :: "int list"
  o_probe :: string
  o_served :: "run_err list"

definition server_list :: "Config \<Rightarrow> http_server list" where
  "server_list cfg = newHTTPServer (Addr cfg) PublicHandler #
     (if AdminAddr cfg \<noteq> [] then [newHTTPServer (AdminAddr cfg) DiagnosticsHandler] else [])"

definition start_serving :: "outside \<Rightarrow> Config \<Rightarrow> ('z, run_err + unit) process_prog" where
  "start_serving out cfg = do {
     _ \<leftarrow> emit [Starting (Info_String (o_info out)) cfg];
     attempt store_Open (Wrap ''open database'') (\<lambda>_. deferred PoolClosed
       (attempt (NewStore (o_probe out)) (\<lambda>e. Wrap ''open photo store'' (StoreError e)) (\<lambda>_. do {
          _ \<leftarrow> emit [PurgeStarted, Serving (server_list cfg)];
          State_Monad.return (if o_served out \<noteq> [] then Inl (ServeErrors (o_served out)) else Inr ())
        })))
   }"

definition run :: "outside \<Rightarrow> string list \<Rightarrow> (string \<Rightarrow> string) \<Rightarrow> ('z, run_err + unit) process_prog" where
  "run out args getenv = (case parse_flags args no_flags of
     Inl err \<Rightarrow> State_Monad.return (Inl (Wrap ''parse flags'' (FlagError err)))
   | Inr fl \<Rightarrow> (case Load (o_parse_url out) (o_parse_duration out) getenv of
       Inl errs \<Rightarrow> State_Monad.return (Inl (Wrap ''load config'' (ConfigError errs)))
     | Inr cfg \<Rightarrow>
         if fl_migrate fl then applyMigrations (o_pending out)
         else if fl_stats fl then writeStats (o_now out)
         else start_serving out cfg))"

text \<open>\<open>main\<close>: the exit status.\<close>

definition exit_status :: "run_err + unit \<Rightarrow> int" where
  "exit_status r = (case r of Inl _ \<Rightarrow> 1 | Inr _ \<Rightarrow> 0)"

section \<open>What the process does\<close>

definition emits :: "('z, 'r) process_prog \<Rightarrow> ('r \<Rightarrow> event list \<Rightarrow> bool) \<Rightarrow> bool" where
  "emits m Q = (\<forall>w. \<exists>es. pr_events (snd (run_state m w)) = pr_events w @ es \<and> Q (fst (run_state m w)) es)"

lemma emits_weaken: "emits m Q \<Longrightarrow> (\<And>r es. Q r es \<Longrightarrow> R r es) \<Longrightarrow> emits m R"
  unfolding emits_def by blast

lemma emitsI:
  "(\<And>w. pr_events (snd (run_state m w)) = pr_events w @ f w \<and> Q (fst (run_state m w)) (f w)) \<Longrightarrow> emits m Q"
  unfolding emits_def by blast

lemma emits_return: "Q r [] \<Longrightarrow> emits (State_Monad.return r) Q"
  by (simp add: emits_def)

lemma emits_emit: "Q () es \<Longrightarrow> emits (emit es) Q"
  by (simp add: emits_def emit_def)

lemma emits_call: "Q (Inr ()) es \<Longrightarrow> Q (Inl CallFailed) [] \<Longrightarrow> emits (call es) Q"
  by (simp add: emits_def call_def split: list.splits)

lemma emits_bind:
  assumes "emits m P" and "\<And>x es. P x es \<Longrightarrow> emits (k x) (\<lambda>r es'. Q r (es @ es'))"
  shows "emits (State_Monad.bind m k) Q"
proof -
  have "\<exists>es. pr_events (snd (run_state (State_Monad.bind m k) w)) = pr_events w @ es \<and>
      Q (fst (run_state (State_Monad.bind m k) w)) es" for w
  proof -
    obtain x w1 where m: "run_state m w = (x, w1)" by (rule prod.exhaust)
    then obtain es where es: "pr_events w1 = pr_events w @ es" "P x es"
      using assms(1) unfolding emits_def by (metis fst_conv snd_conv)
    obtain es' where "pr_events (snd (run_state (k x) w1)) = pr_events w1 @ es'" "Q (fst (run_state (k x) w1)) (es @ es')"
      using assms(2) [OF es(2)] unfolding emits_def by blast
    then show ?thesis using m es(1) by (intro exI [of _ "es @ es'"]) simp
  qed
  then show ?thesis by (simp add: emits_def)
qed

lemma emits_attempt:
  fixes m :: "('z, 'd + 'e) process_prog"
  assumes "emits m P" and "\<And>e es. P (Inl e) es \<Longrightarrow> Q (Inl (h e)) es"
    and "\<And>x es. P (Inr x) es \<Longrightarrow> emits (k x) (\<lambda>r es'. Q r (es @ es'))"
  shows "emits (attempt m h k) Q"
  unfolding attempt_def
proof (rule emits_bind [OF assms(1)])
  fix x :: "'d + 'e" and es
  assume "P x es"
  then show "emits (case x of Inl e \<Rightarrow> State_Monad.return (Inl (h e)) | Inr y \<Rightarrow> k y) (\<lambda>r es'. Q r (es @ es'))"
    using assms(2,3) by (cases x) (simp_all add: emits_return)
qed

lemma emits_deferred: "emits m (\<lambda>r es. Q r (es @ [e])) \<Longrightarrow> emits (deferred e m) Q"
  unfolding deferred_def
  by (rule emits_bind, assumption, rule emits_bind [where P = "\<lambda>_ es. es = [e]"])
    (auto intro: emits_emit emits_return)

lemma emits_conn_only:
  fixes m :: "('z, 'r) process_prog"
  assumes "conn_only m" shows "emits m (\<lambda>_ es. es = [])"
proof -
  have "pr_events (snd (run_state m w)) = pr_events w" for w :: "'z process_scheme"
  proof -
    obtain d fs where "snd (run_state m w) = w\<lparr>c_db := d, c_faults := fs\<rparr>"
      using assms unfolding conn_only_def by blast
    then show ?thesis by simp
  qed
  then show ?thesis by (simp add: emits_def)
qed

lemma pr_events_disk_step [simp]: "pr_events (snd (run_state (disk_step f) w)) = pr_events w"
  by (simp add: run_disk_step split: list.splits)

lemma emits_disk_step: "emits (disk_step f) (\<lambda>_ es. es = [])"
  by (simp add: emits_def)

lemma emits_step_or:
  assumes "emits c (\<lambda>_ es. es = [])" "emits k (\<lambda>_ es. es = [])"
  shows "emits (step_or f what c k) (\<lambda>_ es. es = [])"
  unfolding step_or_def
  by (rule emits_bind [OF emits_disk_step], simp, intro conjI impI assms(2))
    (rule emits_bind [OF assms(1)], simp, rule emits_return, simp)

lemma emits_NewStore: "emits (NewStore probe) (\<lambda>_ es. es = [])"
proof -
  have quiet: "emits no_cleanup (\<lambda>_ es. es = [])" "emits (State_Monad.return x) (\<lambda>_ es. es = [])" for x
    unfolding no_cleanup_def by (rule emits_return, simp)+
  show ?thesis unfolding NewStore_def by (intro emits_step_or quiet emits_disk_step)
qed

text \<open>The shapes of what each part does.\<close>

lemma emits_store_Open:
  "emits store_Open (\<lambda>r es. case r of Inl _ \<Rightarrow> es = [] \<or> es = [PoolOpened, PoolClosed] | Inr _ \<Rightarrow> es = [PoolOpened])"
proof -
  have call: "emits (call es) (\<lambda>r es'. es' = (case r of Inl _ \<Rightarrow> [] | Inr _ \<Rightarrow> es))" for es
    by (rule emits_call) simp_all
  show ?thesis
    unfolding store_Open_def
    apply (rule emits_attempt [OF call], simp)
    apply (rule emits_attempt [OF call], simp)
    apply (rule emits_bind [OF call])
    by (auto split: sum.splits intro!: emits_return emits_bind [OF emits_emit [where Q = "\<lambda>_ es. es = [PoolClosed]"]])
qed

lemma emits_open_and:
  assumes "emits m P" and "\<And>r es. P r es \<Longrightarrow> Q r (PoolOpened # es @ [PoolClosed])"
    and "\<And>e. Q (Inl (Wrap ''open database'' e)) []" "\<And>e. Q (Inl (Wrap ''open database'' e)) [PoolOpened, PoolClosed]"
  shows "emits (attempt store_Open (Wrap ''open database'') (\<lambda>_. deferred PoolClosed m)) Q"
proof (rule emits_attempt [OF emits_store_Open])
  show "Q (Inl (Wrap ''open database'' e)) es"
    if "case Inl e of Inl _ \<Rightarrow> es = [] \<or> es = [PoolOpened, PoolClosed] | Inr _ \<Rightarrow> es = [PoolOpened]" for e es
    using that assms(3,4) by auto
  show "emits (deferred PoolClosed m) (\<lambda>r es'. Q r (es @ es'))"
    if "case Inr x of Inl _ \<Rightarrow> es = [] \<or> es = [PoolOpened, PoolClosed] | Inr _ \<Rightarrow> es = [PoolOpened]" for x es
    by (rule emits_deferred, rule emits_weaken [OF assms(1)]) (use that assms(2) in simp)
qed

definition migration_events :: "int list \<Rightarrow> event list \<Rightarrow> bool" where
  "migration_events pending es = (es \<in> {[HandleOpened, HandleClosed],
     [HandleOpened] @ map Migrated pending @ [UpToDate (length pending), HandleClosed]})"

lemma emits_store_Migrate:
  "emits (store_Migrate pending) (\<lambda>r es. migration_events pending es \<and>
     (r = Inr () \<longrightarrow> es = [HandleOpened] @ map Migrated pending @ [UpToDate (length pending), HandleClosed]))"
proof -
  have call: "emits (call es) (\<lambda>r es'. es' = (case r of Inl _ \<Rightarrow> [] | Inr _ \<Rightarrow> es))" for es
    by (rule emits_call) simp_all
  show ?thesis
    unfolding store_Migrate_def
    apply (rule emits_bind [OF emits_emit [where Q = "\<lambda>_ es. es = [HandleOpened]"]], simp)
    apply (rule emits_deferred)
    apply (rule emits_attempt [OF call], simp add: migration_events_def)
    apply (rule emits_attempt [OF call], simp add: migration_events_def)
    apply (rule emits_bind [OF emits_emit [where Q = "\<lambda>_ es. es = [UpToDate (length pending)]"]], simp)
    by (auto simp: migration_events_def intro!: emits_return)
qed

definition run_did :: "outside \<Rightarrow> string list \<Rightarrow> (string \<Rightarrow> string) \<Rightarrow> run_err + unit \<Rightarrow> event list \<Rightarrow> bool" where
  "run_did out args getenv r es = (case parse_flags args no_flags of
     Inl _ \<Rightarrow> es = [] \<and> r \<noteq> Inr ()
   | Inr fl \<Rightarrow> (case Load (o_parse_url out) (o_parse_duration out) getenv of
       Inl _ \<Rightarrow> es = [] \<and> r \<noteq> Inr ()
     | Inr cfg \<Rightarrow>
         if fl_migrate fl then
           es \<in> {[], [PoolOpened, PoolClosed]} \<and> r \<noteq> Inr () \<or>
           (\<exists>ms. migration_events (o_pending out) ms \<and> es = PoolOpened # ms @ [PoolClosed] \<and>
             (r = Inr () \<longrightarrow> UpToDate (length (o_pending out)) \<in> set ms))
         else if fl_stats fl then
           es \<in> {[], [PoolOpened, PoolClosed]} \<and> r \<noteq> Inr () \<or>
           (\<exists>report. es = [PoolOpened, Printed (WriteTo report), PoolClosed])
         else
           (let hello = Starting (Info_String (o_info out)) cfg in
            es \<in> {[hello], [hello, PoolOpened, PoolClosed]} \<and> r \<noteq> Inr () \<or>
            es = [hello, PoolOpened, PurgeStarted, Serving (server_list cfg), PoolClosed] \<and>
            (r = Inr () \<longleftrightarrow> o_served out = []))))"

lemma emits_writeStats:
  "emits (writeStats now) (\<lambda>r es. es \<in> {[], [PoolOpened, PoolClosed]} \<and> r \<noteq> Inr () \<or>
     (\<exists>report. es = [PoolOpened, Printed (WriteTo report), PoolClosed]))"
proof -
  have call: "emits (call es) (\<lambda>r es'. es' = (case r of Inl _ \<Rightarrow> [] | Inr _ \<Rightarrow> es))" for es
    by (rule emits_call) simp_all
  have read: "conn_only (Collect now)" unfolding Collect_def by (intro conn_only_intros)
  have inner: "emits (attempt (Collect now) DatabaseError (\<lambda>report.
      attempt (call [Printed (WriteTo report)]) (Wrap ''write stats'') (\<lambda>_. State_Monad.return (Inr ()))))
    (\<lambda>r es. es = [] \<and> r \<noteq> Inr () \<or> (\<exists>report. es = [Printed (WriteTo report)]))"
    apply (rule emits_attempt [OF emits_conn_only [OF read]], simp)
    apply (rule emits_attempt [OF call], simp)
    by (rule emits_return) (auto intro: exI)
  show ?thesis unfolding writeStats_def by (rule emits_open_and [OF inner]) auto
qed

lemma emits_start_serving:
  "emits (start_serving out cfg) (\<lambda>r es. let hello = Starting (Info_String (o_info out)) cfg in
     es \<in> {[hello], [hello, PoolOpened, PoolClosed]} \<and> r \<noteq> Inr () \<or>
     es = [hello, PoolOpened, PurgeStarted, Serving (server_list cfg), PoolClosed] \<and>
       (r = Inr () \<longleftrightarrow> o_served out = []))"
proof -
  have inner: "emits (attempt (NewStore (o_probe out)) (\<lambda>e. Wrap ''open photo store'' (StoreError e)) (\<lambda>_. do {
          _ \<leftarrow> emit [PurgeStarted, Serving (server_list cfg)];
          State_Monad.return (if o_served out \<noteq> [] then Inl (ServeErrors (o_served out)) else Inr ()) }))
    (\<lambda>r es. es = [] \<and> r \<noteq> Inr () \<or> es = [PurgeStarted, Serving (server_list cfg)] \<and> (r = Inr () \<longleftrightarrow> o_served out = []))"
    apply (rule emits_attempt [OF emits_NewStore], simp)
    apply (rule emits_bind [OF emits_emit [where Q = "\<lambda>_ es. es = [PurgeStarted, Serving (server_list cfg)]"]], simp)
    by (rule emits_return) simp
  show ?thesis
    unfolding start_serving_def
    apply (rule emits_bind [OF emits_emit [where Q = "\<lambda>_ es. es = [Starting (Info_String (o_info out)) cfg]"]], simp)
    by (rule emits_open_and [OF inner]) auto
qed

lemma emits_run: "emits (run out args getenv) (run_did out args getenv)"
proof -
  have "emits (applyMigrations pending) (\<lambda>r es. es \<in> {[], [PoolOpened, PoolClosed]} \<and> r \<noteq> Inr () \<or>
     (\<exists>ms. migration_events pending ms \<and> es = PoolOpened # ms @ [PoolClosed] \<and>
       (r = Inr () \<longrightarrow> UpToDate (length pending) \<in> set ms)))" for pending
    unfolding applyMigrations_def by (rule emits_open_and [OF emits_store_Migrate]) auto
  note migrated = this
  show ?thesis
  proof (cases "parse_flags args no_flags")
    case (Inr fl)
    show ?thesis
    proof (cases "Load (o_parse_url out) (o_parse_duration out) getenv")
      case (Inr cfg)
      note loaded = \<open>parse_flags args no_flags = Inr fl\<close> Inr
      consider "fl_migrate fl" | "\<not> fl_migrate fl" "fl_stats fl" | "\<not> fl_migrate fl" "\<not> fl_stats fl" by blast
      then show ?thesis
      proof cases
        case 1
        then show ?thesis
          by (simp add: run_def loaded) (rule emits_weaken [OF migrated], simp add: run_did_def loaded)
      next
        case 2
        then show ?thesis
          by (simp add: run_def loaded) (rule emits_weaken [OF emits_writeStats], simp add: run_did_def loaded)
      next
        case 3
        then show ?thesis
          by (simp add: run_def loaded) (rule emits_weaken [OF emits_start_serving], simp add: run_did_def loaded)
      qed
    qed (simp add: run_def run_did_def Inr emits_return)
  qed (simp add: run_def run_did_def emits_return)
qed

lemma loaded_servers:
  assumes "Load pu pd getenv = Inr cfg" "s \<in> set (server_list cfg)"
  shows "isLoopback (hs_Addr s)"
  using Load_checked(4,5) [OF assms(1)] assms(2) by (auto simp: server_list_def newHTTPServer_def split: if_splits)

text \<open>C13: Every way the process ends gives back the database it opened.  It serves only after the flags and the
  configuration were read, the database answered and the photo directory took a file; then every
  listener is on the local host, the diagnostics on one of their own, and it ends without an error
  exactly when serving did.  The schema changes in a run that was asked to migrate, and such a run never serves.\<close>

theorem process_outcome:
  assumes "run_state (run out args getenv) w = (r, w')"
  shows "\<exists>es. pr_events w' = pr_events w @ es \<and>
    count_list es PoolOpened = count_list es PoolClosed \<and> count_list es HandleOpened = count_list es HandleClosed \<and>
    (\<forall>srvs. Serving srvs \<in> set es \<longrightarrow> (\<exists>cfg. Load (o_parse_url out) (o_parse_duration out) getenv = Inr cfg \<and>
       srvs = server_list cfg \<and> (\<forall>s\<in>set srvs. isLoopback (hs_Addr s)) \<and>
       es = [Starting (Info_String (o_info out)) cfg, PoolOpened, PurgeStarted, Serving srvs, PoolClosed] \<and>
       exit_status r = (if o_served out = [] then 0 else 1))) \<and>
    (\<forall>v. Migrated v \<in> set es \<longrightarrow> (\<exists>fl. parse_flags args no_flags = Inr fl \<and> fl_migrate fl))"
proof -
  obtain es where es: "pr_events w' = pr_events w @ es" "run_did out args getenv r es"
    using emits_run [of out args getenv] assms unfolding emits_def by (metis fst_conv snd_conv)
  have migrations: "count_list ms PoolOpened = 0" "count_list ms PoolClosed = 0"
    "count_list ms HandleOpened = count_list ms HandleClosed" "Serving srvs \<notin> set ms"
    if "migration_events pending ms" for pending ms srvs
  proof -
    have "count_list (map Migrated pending) e = 0" if "\<And>v. e \<noteq> Migrated v" for e
      using that by (induction pending) auto
    then show "count_list ms PoolOpened = 0" "count_list ms PoolClosed = 0"
      "count_list ms HandleOpened = count_list ms HandleClosed" "Serving srvs \<notin> set ms"
      using that by (auto simp: migration_events_def)
  qed
  have status: "exit_status r = (if o_served out = [] then 0 else 1)" if "(r = Inr ()) = (o_served out = [])"
    using that by (cases r) (auto simp: exit_status_def)
  show ?thesis
  proof (intro exI [of _ es] conjI es(1))
    show "count_list es PoolOpened = count_list es PoolClosed"
      using es(2) migrations by (auto simp: run_did_def Let_def split: sum.splits if_splits)
    show "count_list es HandleOpened = count_list es HandleClosed"
      using es(2) migrations by (auto simp: run_did_def Let_def split: sum.splits if_splits)
    show "\<forall>v. Migrated v \<in> set es \<longrightarrow> (\<exists>fl. parse_flags args no_flags = Inr fl \<and> fl_migrate fl)"
      using es(2) by (auto simp: run_did_def Let_def split: sum.splits if_splits)
    show "\<forall>srvs. Serving srvs \<in> set es \<longrightarrow> (\<exists>cfg. Load (o_parse_url out) (o_parse_duration out) getenv = Inr cfg \<and>
       srvs = server_list cfg \<and> (\<forall>s\<in>set srvs. isLoopback (hs_Addr s)) \<and>
       es = [Starting (Info_String (o_info out)) cfg, PoolOpened, PurgeStarted, Serving srvs, PoolClosed] \<and>
       exit_status r = (if o_served out = [] then 0 else 1))"
      using es(2) migrations(4) loaded_servers status
      by (auto simp: run_did_def Let_def split: sum.splits if_splits)
  qed
qed

section \<open>Diagnostics stay apart\<close>

definition first_literal :: "seg list \<Rightarrow> string option" where
  "first_literal ps = (case ps of Lit l # _ \<Rightarrow> Some l | _ \<Rightarrow> None)"

definition first_in :: "string set \<Rightarrow> 'h route list \<Rightarrow> bool" where
  "first_in ls rts = (\<forall>(meth, ps, h)\<in>set rts. \<exists>l\<in>ls. first_literal ps = Some l)"

lemma match_first: "match_path ps ss \<noteq> None \<Longrightarrow> first_literal ps = Some l \<Longrightarrow> ss \<noteq> [] \<and> hd ss = l"
  by (cases "(ps, ss)" rule: match_path.cases) (auto simp: first_literal_def split: if_splits)

lemma find_route_first:
  "find_route r rts \<noteq> None \<Longrightarrow> first_in ls rts \<Longrightarrow>
    Segments r \<noteq> [] \<and> hd (Segments r) \<in> ls"
proof (induction rts)
  case (Cons rt rts)
  obtain meth ps h where rt: "rt = (meth, ps, h)" by (rule prod_cases3)
  then obtain l where l: "l \<in> ls" "first_literal ps = Some l" using Cons.prems(2) by (auto simp: first_in_def)
  have rest: "first_in ls rts" using Cons.prems(2) by (simp add: first_in_def)
  show ?case
  proof (cases "match_path ps (Segments r)")
    case None
    then show ?thesis using Cons.IH [OF _ rest] Cons.prems(1) rt by (auto simp: route_values_def split: if_splits)
  next
    case (Some vs)
    then show ?thesis using match_first [of ps "Segments r" l] l by auto
  qed
qed simp

lemma allowed_methods_first:
  assumes "first_in ls rts" "hd (Segments r) \<notin> ls"
  shows "allowed_methods r rts = []"
proof -
  have "match_path ps (Segments r) = None" if "(meth, ps, h) \<in> set rts" for meth ps h
  proof -
    have "\<exists>l\<in>ls. first_literal ps = Some l" using assms(1) that unfolding first_in_def by fast
    then obtain l where l: "l \<in> ls" "first_literal ps = Some l" by blast
    show ?thesis
    proof (rule ccontr)
      assume "match_path ps (Segments r) \<noteq> None"
      then have "hd (Segments r) = l" using match_first l(2) by blast
      then show False using l(1) assms(2) by simp
    qed
  qed
  then have "\<not> list_ex (\<lambda>rt. case rt of (meth, ps, _) \<Rightarrow> meth = m \<and> match_path ps (Segments r) \<noteq> None) rts" for m
    by (auto simp: list_ex_iff split: prod.splits)
  then show ?thesis by (simp add: allowed_methods_def Let_def)
qed

lemma public_first:
  "first_in (- {''debug'', ''version''}) (appRoutes sv dr)"
  "first_in (- {''debug'', ''version''}) (pageRoutes sv)"
  by (simp_all add: first_in_def appRoutes_def pageRoutes_def first_literal_def Let_def)

lemma admin_first: "find_admin r \<noteq> None \<Longrightarrow> hd (Segments r) \<in> {''debug'', ''version''}"
proof -
  assume found: "find_admin r \<noteq> None"
  have "first_in ({''debug'', ''version''}) admin_routes"
    by (simp add: first_in_def admin_routes_def first_literal_def)
  moreover have "hd (Segments r) = ''debug''" if "below_pprof r"
    using that by (cases "Segments r") (auto simp: below_pprof_def)
  ultimately show ?thesis
    using found find_route_first [of r admin_routes "{''debug'', ''version''}"]
    by (auto simp: find_admin_def split: option.splits if_splits)
qed

lemma no_public_route:
  assumes "find_admin r \<noteq> None" "first_in (- {''debug'', ''version''}) rts"
  shows "find_route r rts = None" "allowed_methods r rts = []"
proof -
  have out: "hd (Segments r) \<notin> - {''debug'', ''version''}" using admin_first [OF assms(1)] by blast
  show "find_route r rts = None" using find_route_first [OF _ assms(2), of r] out by blast
  show "allowed_methods r rts = []" by (rule allowed_methods_first [OF assms(2) out])
qed

text \<open>Nothing the diagnostics serve is served to the public: whatever path a diagnostics handler answers,
  the app and every page answer with 404 Not Found.\<close>

theorem diagnostics_apart:
  assumes "find_admin r \<noteq> None" and "CleanPath r"
  shows "Status (fst (run_state (mux lib (appRoutes sv dr) r w) s)) = 404 \<and>
    Status (fst (run_state (mux lib (pageRoutes sv) r w) s')) = 404"
proof -
  note none = no_public_route [OF assms(1) public_first(1)] no_public_route [OF assms(1) public_first(2)]
  have "http_NotFound w = r' \<Longrightarrow> Status r' = 404" for r' by (auto simp: http_NotFound_def http_Error_def respond_def)
  then show ?thesis using assms(2) by (simp add: mux_def run_answer none)
qed

definition demo_outside :: outside where
  "demo_outside = \<lparr>o_parse_url = demo_url, o_parse_duration = (\<lambda>_. None), o_info = read_info ''go1.27'' None,
     o_now = 0, o_pending = [1, 2], o_probe = ''.probe'', o_served = []\<rparr>"

lemma diagnostics_apart_witness:
  "Status (fst (run_state (mux demo_lib (appRoutes sv dr) (blank_request\<lparr>Segments := [''version'']\<rparr>) w) s)) = 404"
proof -
  have "find_admin (blank_request\<lparr>Segments := [''version'']\<rparr>) \<noteq> None"
    by (simp add: find_admin_def admin_routes_def route_values_def method_serves_def blank_request_def)
  moreover have "CleanPath (blank_request\<lparr>Segments := [''version'']\<rparr>)" by (simp add: blank_request_def)
  ultimately show ?thesis using diagnostics_apart by blast
qed

definition demo_process :: process where
  "demo_process = \<lparr>c_db = empty_db, c_now = 0, c_faults = [], w_sent = [], w_mail_faults = [], w_files = (\<lambda>_. None),
     w_disk_faults = [], s_clock = 0, s_visits = [], s_writes = newNetworkLimiter, s_logins48 = newNetworkLimiter,
     s_reads = newNetworkLimiter, s_log = [], pr_faults = [False, False, True], pr_events = []\<rparr>"

text \<open>The database does not answer: the pool is closed again, and nothing is served.\<close>

lemma process_outcome_witness:
  "count_list (pr_events (snd (run_state (run demo_outside [] production_env) demo_process))) PoolOpened =
   count_list (pr_events (snd (run_state (run demo_outside [] production_env) demo_process))) PoolClosed"
proof -
  have "pr_events demo_process = []" by (simp add: demo_process_def)
  then show ?thesis using process_outcome [OF surjective_pairing, of demo_outside "[]" production_env demo_process] by auto
qed

lemma demo_flags:
  "parse_flags [''-migrate''] no_flags = Inr \<lparr>fl_migrate = True, fl_stats = False\<rparr>"
  "parse_flags [''--stats=F'', ''x'', ''-migrate''] no_flags = Inr no_flags"
  "parse_flags [''-stats=no''] no_flags = Inl (BadValue ''no'' ''stats'')"
  "parse_flags [''-x''] no_flags = Inl (NotDefined ''x'')" "parse_flags [''-h''] no_flags = Inl HelpAsked"
  by code_simp+

lemma demo_build:
  "Info_String (read_info ''go1.27'' (Some ([], [(''vcs.revision'', ''0123456789abcdef''), (''vcs.modified'', ''true'')])))
    = ''devel (0123456789ab) [dirty] go1.27''"
  by code_simp

end
