(* ===== verification/Serve.thy ===== *)
theory Serve
  imports Startup "HOL-Library.Multiset"
begin

text \<open>
  \<open>serve\<close> of \<open>cmd/server/main.go\<close>: one goroutine per server that listens and then sends what
  \<open>ListenAndServe\<close> returned into a channel with room for all of them, the main goroutine that waits
  for the first such answer or for the context, and one goroutine per server that shuts it down.
  Their steps interleave in any order.
\<close>

section \<open>The goroutines\<close>

text \<open>
  The listening goroutine of a server: before \<open>ListenAndServe\<close>, inside it, or past its send.  A
  result is \<open>None\<close> for \<open>http.ErrServerClosed\<close>.
\<close>

datatype listener = Fresh | Listening | Sent "string option"

text \<open>The shutdown of a server: not asked for, under way, or done with its result.\<close>

datatype drain = NotAsked | Draining | Drained "string option"

text \<open>
  The main goroutine: in the first \<open>select\<close>, waiting for the shutdowns with the error of the
  \<open>select\<close>, or returned with the errors it joins.
\<close>

datatype main_phase = Selecting | Joining "string option" | Returned "run_err list"

record serving =
  sg_listener :: "nat \<Rightarrow> listener"
  sg_drain :: "nat \<Rightarrow> drain"
  sg_chan :: "string option list"
  sg_errs :: "run_err list"
  sg_main :: main_phase
  sg_cancelled :: bool

definition shutdown_err :: "http_server list \<Rightarrow> nat \<Rightarrow> string \<Rightarrow> run_err" where
  "shutdown_err srvs i e = Wrap (''shutdown '' @ hs_Addr (srvs ! i)) (Wrap e CallFailed)"

definition listen_err :: "string option \<Rightarrow> run_err list" where
  "listen_err x = (case x of None \<Rightarrow> [] | Some e \<Rightarrow> [Wrap ''listen'' (Wrap e CallFailed)])"

text \<open>
  A server whose shutdown was asked for listens no more, and one that never listened then does not
  begin to: \<open>ListenAndServe\<close> returns \<open>ErrServerClosed\<close>.  A shutdown ends within its budget.
\<close>

inductive serve_step :: "http_server list \<Rightarrow> serving \<Rightarrow> serving \<Rightarrow> bool" for srvs where
  listens: "i < length srvs \<Longrightarrow> sg_listener s i = Fresh \<Longrightarrow> sg_drain s i = NotAsked \<Longrightarrow>
    serve_step srvs s (s\<lparr>sg_listener := (sg_listener s)(i := Listening)\<rparr>)"
| listen_fails: "i < length srvs \<Longrightarrow> sg_listener s i \<in> {Fresh, Listening} \<Longrightarrow> sg_drain s i = NotAsked \<Longrightarrow>
    serve_step srvs s (s\<lparr>sg_listener := (sg_listener s)(i := Sent (Some e)), sg_chan := sg_chan s @ [Some e]\<rparr>)"
| closed: "i < length srvs \<Longrightarrow> sg_listener s i \<in> {Fresh, Listening} \<Longrightarrow> sg_drain s i \<noteq> NotAsked \<Longrightarrow>
    serve_step srvs s (s\<lparr>sg_listener := (sg_listener s)(i := Sent None), sg_chan := sg_chan s @ [None]\<rparr>)"
| cancelled: "\<not> sg_cancelled s \<Longrightarrow> serve_step srvs s (s\<lparr>sg_cancelled := True\<rparr>)"
| server_ended: "sg_main s = Selecting \<Longrightarrow> sg_chan s = x # xs \<Longrightarrow>
    serve_step srvs s (s\<lparr>sg_main := Joining x, sg_chan := xs\<rparr>)"
| context_done: "sg_main s = Selecting \<Longrightarrow> sg_cancelled s \<Longrightarrow> serve_step srvs s (s\<lparr>sg_main := Joining None\<rparr>)"
| shuts_down: "sg_main s = Joining x \<Longrightarrow> i < length srvs \<Longrightarrow> sg_drain s i = NotAsked \<Longrightarrow>
    serve_step srvs s (s\<lparr>sg_drain := (sg_drain s)(i := Draining)\<rparr>)"
| drained: "sg_drain s i = Draining \<Longrightarrow> i < length srvs \<Longrightarrow>
    serve_step srvs s (s\<lparr>sg_drain := (sg_drain s)(i := Drained None)\<rparr>)"
| not_drained: "sg_drain s i = Draining \<Longrightarrow> i < length srvs \<Longrightarrow>
    serve_step srvs s (s\<lparr>sg_drain := (sg_drain s)(i := Drained (Some e)), sg_errs := sg_errs s @ [shutdown_err srvs i e]\<rparr>)"
| returns: "sg_main s = Joining x \<Longrightarrow> \<forall>i<length srvs. \<exists>r. sg_drain s i = Drained r \<Longrightarrow>
    serve_step srvs s (s\<lparr>sg_main := Returned (sg_errs s @ listen_err x)\<rparr>)"

definition serve_start :: "bool \<Rightarrow> serving" where
  "serve_start c = \<lparr>sg_listener = (\<lambda>_. Fresh), sg_drain = (\<lambda>_. NotAsked), sg_chan = [], sg_errs = [],
     sg_main = Selecting, sg_cancelled = c\<rparr>"

inductive serve_reachable :: "http_server list \<Rightarrow> serving \<Rightarrow> bool" for srvs where
  start: "serve_reachable srvs (serve_start c)"
| step: "serve_reachable srvs s \<Longrightarrow> serve_step srvs s s' \<Longrightarrow> serve_reachable srvs s'"

section \<open>Every run ends\<close>

fun listener_left :: "listener \<Rightarrow> nat" where
  "listener_left Fresh = 2" | "listener_left Listening = 1" | "listener_left (Sent r) = 0"

fun drain_left :: "drain \<Rightarrow> nat" where
  "drain_left NotAsked = 2" | "drain_left Draining = 1" | "drain_left (Drained r) = 0"

fun main_left :: "main_phase \<Rightarrow> nat" where
  "main_left Selecting = 2" | "main_left (Joining x) = 1" | "main_left (Returned es) = 0"

definition steps_left :: "http_server list \<Rightarrow> serving \<Rightarrow> nat" where
  "steps_left srvs s = (\<Sum>i<length srvs. listener_left (sg_listener s i)) + (\<Sum>i<length srvs. drain_left (sg_drain s i)) +
     main_left (sg_main s) + (if sg_cancelled s then 0 else 1)"

lemma sum_upd_less:
  fixes f :: "'b \<Rightarrow> nat" and n :: nat
  assumes "i < n" "f y < f (g i)"
  shows "(\<Sum>j<n. f ((g(i := y)) j)) < (\<Sum>j<n. f (g j))"
proof (rule sum_strict_mono_ex1)
  show "\<exists>a\<in>{..<n}. f ((g(i := y)) a) < f (g a)" using assms by (intro bexI [of _ i]) simp_all
qed (use assms(2) in \<open>auto simp: less_imp_le\<close>)

lemma serve_step_left: "serve_step srvs s s' \<Longrightarrow> steps_left srvs s' < steps_left srvs s"
proof (induction rule: serve_step.induct)
  case (listens i s)
  then show ?case
    using sum_upd_less [of i "length srvs" listener_left Listening "sg_listener s"] by (simp add: steps_left_def)
next
  case (listen_fails i s e)
  then show ?case
    using sum_upd_less [of i "length srvs" listener_left "Sent (Some e)" "sg_listener s"] by (auto simp: steps_left_def)
next
  case (closed i s)
  then show ?case
    using sum_upd_less [of i "length srvs" listener_left "Sent None" "sg_listener s"] by (auto simp: steps_left_def)
next
  case (shuts_down s x i)
  then show ?case
    using sum_upd_less [of i "length srvs" drain_left Draining "sg_drain s"] by (simp add: steps_left_def)
next
  case (drained s i)
  then show ?case
    using sum_upd_less [of i "length srvs" drain_left "Drained None" "sg_drain s"] by (simp add: steps_left_def)
next
  case (not_drained s i e)
  then show ?case
    using sum_upd_less [of i "length srvs" drain_left "Drained (Some e)" "sg_drain s"] by (simp add: steps_left_def)
qed (simp_all add: steps_left_def)

lemma serve_not_stuck:
  assumes "\<And>errs. sg_main s \<noteq> Returned errs"
  shows "\<exists>s'. serve_step srvs s s'"
proof (cases "sg_main s")
  case Selecting
  then show ?thesis using serve_step.cancelled serve_step.context_done by (cases "sg_cancelled s") blast+
next
  case (Joining x)
  show ?thesis
  proof (cases "\<forall>i<length srvs. \<exists>r. sg_drain s i = Drained r")
    case True
    then show ?thesis using serve_step.returns [OF Joining] by blast
  next
    case False
    then obtain i where i: "i < length srvs" "\<And>r. sg_drain s i \<noteq> Drained r" by blast
    then show ?thesis
      using serve_step.shuts_down [OF Joining i(1)] serve_step.drained [of s i srvs] by (cases "sg_drain s i") blast+
  qed
qed (use assms in simp)

text \<open>A run: at every instant some goroutine makes a step, or none can.\<close>

definition maximal_run :: "http_server list \<Rightarrow> (nat \<Rightarrow> serving) \<Rightarrow> bool" where
  "maximal_run srvs st = (\<forall>k. serve_step srvs (st k) (st (Suc k)) \<or>
     (\<forall>s. \<not> serve_step srvs (st k) s) \<and> st (Suc k) = st k)"


section \<open>What it returns\<close>

definition drain_errs :: "http_server list \<Rightarrow> serving \<Rightarrow> run_err multiset" where
  "drain_errs srvs s = (\<Sum>i<length srvs. case sg_drain s i of
     Drained (Some e) \<Rightarrow> {#shutdown_err srvs i e#} | _ \<Rightarrow> {#})"

definition listener_failed :: "http_server list \<Rightarrow> serving \<Rightarrow> string option \<Rightarrow> bool" where
  "listener_failed srvs s x = (\<exists>i<length srvs. sg_listener s i = Sent x)"

text \<open>Why the first \<open>select\<close> ended: the error of a listener, or the context.\<close>

definition why_ended :: "http_server list \<Rightarrow> serving \<Rightarrow> string option \<Rightarrow> bool" where
  "why_ended srvs s x = (case x of None \<Rightarrow> sg_cancelled s | Some e \<Rightarrow> listener_failed srvs s (Some e))"

definition serve_ok :: "http_server list \<Rightarrow> serving \<Rightarrow> bool" where
  "serve_ok srvs s = (mset (sg_errs s) = drain_errs srvs s \<and> (\<forall>x\<in>set (sg_chan s). listener_failed srvs s x) \<and>
     (case sg_main s of
        Selecting \<Rightarrow> (\<forall>i<length srvs. sg_drain s i = NotAsked) \<and> None \<notin> set (sg_chan s)
      | Joining x \<Rightarrow> why_ended srvs s x
      | Returned errs \<Rightarrow> (\<forall>i<length srvs. \<exists>r. sg_drain s i = Drained r) \<and>
          (\<exists>x. why_ended srvs s x \<and> mset errs = drain_errs srvs s + mset (listen_err x))))"

lemma drain_errs_upd:
  assumes "i < length srvs" "sg_drain s i = NotAsked \<or> sg_drain s i = Draining" "sg_drain s' = (sg_drain s)(i := d)"
  shows "drain_errs srvs s' = drain_errs srvs s + (case d of Drained (Some e) \<Rightarrow> {#shutdown_err srvs i e#} | _ \<Rightarrow> {#})"
proof -
  let ?f = "\<lambda>d j. case d j of Drained (Some e) \<Rightarrow> {#shutdown_err srvs j e#} | _ \<Rightarrow> {#}"
  have "sum (?f (sg_drain s')) ({..<length srvs} - {i}) = sum (?f (sg_drain s)) ({..<length srvs} - {i})"
    using assms(3) by (intro sum.cong) simp_all
  moreover have "?f (sg_drain s) i = {#}" using assms(2) by auto
  moreover have "?f (sg_drain s') i = (case d of Drained (Some e) \<Rightarrow> {#shutdown_err srvs i e#} | _ \<Rightarrow> {#})"
    using assms(3) by simp
  ultimately show ?thesis
    using assms(1) sum.remove [of "{..<length srvs}" i "?f (sg_drain s)"] sum.remove [of "{..<length srvs}" i "?f (sg_drain s')"]
    unfolding drain_errs_def by (simp add: add.commute)
qed

lemma drain_errs_same: "sg_drain s' = sg_drain s \<Longrightarrow> drain_errs srvs s' = drain_errs srvs s"
  by (simp add: drain_errs_def)

text \<open>A step of a listener, or of the context.\<close>

lemma serve_ok_listener:
  assumes ok: "serve_ok srvs s"
    and same: "sg_main s' = sg_main s" "sg_drain s' = sg_drain s" "sg_errs s' = sg_errs s" "sg_cancelled s \<longrightarrow> sg_cancelled s'"
    and failed: "\<And>x. listener_failed srvs s x \<Longrightarrow> listener_failed srvs s' x"
    and chan: "\<And>x. x \<in> set (sg_chan s') \<Longrightarrow> x \<in> set (sg_chan s) \<or> listener_failed srvs s' x"
    and none: "sg_main s = Selecting \<Longrightarrow> None \<notin> set (sg_chan s')"
  shows "serve_ok srvs s'"
proof -
  have "why_ended srvs s x \<Longrightarrow> why_ended srvs s' x" for x
    using same(4) failed by (auto simp: why_ended_def split: option.splits)
  moreover have "drain_errs srvs s' = drain_errs srvs s" by (rule drain_errs_same) (rule same)
  ultimately show ?thesis
    using ok same failed chan none unfolding serve_ok_def by (cases "sg_main s") (simp_all, blast+)
qed

lemma serve_step_ok: "serve_step srvs s s' \<Longrightarrow> serve_ok srvs s \<Longrightarrow> serve_ok srvs s'"
proof (induction rule: serve_step.induct)
  case (listens i s)
  show ?case
  proof (rule serve_ok_listener [OF listens(4)])
    show "listener_failed srvs (s\<lparr>sg_listener := (sg_listener s)(i := Listening)\<rparr>) x" if "listener_failed srvs s x" for x
      using listens(2) that unfolding listener_failed_def by fastforce
  qed (use listens(4) in \<open>simp_all add: serve_ok_def\<close>)
next
  case (listen_fails i s e)
  show ?case
  proof (rule serve_ok_listener [OF listen_fails(4)])
    let ?s' = "s\<lparr>sg_listener := (sg_listener s)(i := Sent (Some e)), sg_chan := sg_chan s @ [Some e]\<rparr>"
    show "listener_failed srvs ?s' x" if "listener_failed srvs s x" for x
      using listen_fails(2) that unfolding listener_failed_def by fastforce
    show "x \<in> set (sg_chan s) \<or> listener_failed srvs ?s' x" if "x \<in> set (sg_chan ?s')" for x
      using listen_fails(1) that by (auto simp: listener_failed_def)
  qed (use listen_fails(4) in \<open>simp_all add: serve_ok_def\<close>)
next
  case (closed i s)
  show ?case
  proof (rule serve_ok_listener [OF closed(4)])
    let ?s' = "s\<lparr>sg_listener := (sg_listener s)(i := Sent None), sg_chan := sg_chan s @ [None]\<rparr>"
    show "listener_failed srvs ?s' x" if "listener_failed srvs s x" for x
      using closed(2) that unfolding listener_failed_def by fastforce
    show "x \<in> set (sg_chan s) \<or> listener_failed srvs ?s' x" if "x \<in> set (sg_chan ?s')" for x
      using closed(1) that by (auto simp: listener_failed_def)
  qed (use closed in \<open>auto simp: serve_ok_def\<close>)
next
  case (cancelled s)
  show ?case
    by (rule serve_ok_listener [OF cancelled(2)]) (use cancelled(2) in \<open>simp_all add: listener_failed_def serve_ok_def\<close>)
next
  case (server_ended s x xs)
  then have "listener_failed srvs s x" "None \<notin> insert x (set xs)" by (auto simp: serve_ok_def)
  then have "listener_failed srvs s x" "x \<noteq> None" by (simp, cases x, simp_all)
  then show ?case using server_ended
    by (auto simp: serve_ok_def why_ended_def listener_failed_def drain_errs_def)
next
  case (context_done s)
  then show ?case by (auto simp: serve_ok_def why_ended_def listener_failed_def drain_errs_def)
next
  case (shuts_down s x i)
  let ?s' = "s\<lparr>sg_drain := (sg_drain s)(i := Draining)\<rparr>"
  have "drain_errs srvs ?s' = drain_errs srvs s" using drain_errs_upd [OF shuts_down(2), of s ?s'] shuts_down(3) by simp
  then show ?case using shuts_down(1,4)
    by (auto simp: serve_ok_def why_ended_def listener_failed_def split: option.splits)
next
  case (drained s i)
  let ?s' = "s\<lparr>sg_drain := (sg_drain s)(i := Drained None)\<rparr>"
  have "drain_errs srvs ?s' = drain_errs srvs s" using drain_errs_upd [OF drained(2), of s ?s'] drained(1) by simp
  then show ?case using drained
    by (auto simp: serve_ok_def why_ended_def listener_failed_def split: main_phase.splits option.splits)
next
  case (not_drained s i e)
  let ?s' = "s\<lparr>sg_drain := (sg_drain s)(i := Drained (Some e)), sg_errs := sg_errs s @ [shutdown_err srvs i e]\<rparr>"
  have "drain_errs srvs ?s' = drain_errs srvs s + {#shutdown_err srvs i e#}"
    using drain_errs_upd [OF not_drained(2), of s ?s'] not_drained(1) by simp
  moreover have "sg_main s \<noteq> Returned errs" for errs using not_drained by (fastforce simp: serve_ok_def)
  ultimately show ?case using not_drained
    by (auto simp: serve_ok_def why_ended_def listener_failed_def split: main_phase.splits option.splits)
next
  case (returns s x)
  let ?s' = "s\<lparr>sg_main := Returned (sg_errs s @ listen_err x)\<rparr>"
  have "why_ended srvs s x" "mset (sg_errs s) = drain_errs srvs s" using returns(1,3) by (simp_all add: serve_ok_def)
  then have "why_ended srvs ?s' x \<and> mset (sg_errs s @ listen_err x) = drain_errs srvs ?s' + mset (listen_err x)"
    by (cases x) (simp_all add: why_ended_def listener_failed_def drain_errs_def)
  moreover have "\<forall>y\<in>set (sg_chan s). listener_failed srvs ?s' y" "mset (sg_errs s) = drain_errs srvs ?s'"
    using returns(3) by (simp_all add: serve_ok_def listener_failed_def drain_errs_def)
  ultimately show ?case using returns(2) unfolding serve_ok_def by auto
qed

lemma serve_reachable_ok: "serve_reachable srvs s \<Longrightarrow> serve_ok srvs s"
proof (induction rule: serve_reachable.induct)
  case (start c)
  then show ?case by (simp add: serve_ok_def serve_start_def drain_errs_def)
next
  case (step s s')
  then show ?case using serve_step_ok by blast
qed

text \<open>C14: When \<open>serve\<close> is back, the shutdown of every server has ended, so none accepts a connection any
  more, and every error of a shutdown is among those it returns.  It returns no error only when it
  was asked to stop and every server drained in time; when it was not asked to stop, the error of a
  listener is among them.\<close>

theorem serve_outcome:
  assumes "serve_reachable srvs s" and "sg_main s = Returned errs"
  shows "(\<forall>i<length srvs. \<exists>r. sg_drain s i = Drained r \<and>
      (\<forall>e. r = Some e \<longrightarrow> shutdown_err srvs i e \<in> set errs)) \<and>
    (errs = [] \<longrightarrow> sg_cancelled s \<and> (\<forall>i<length srvs. sg_drain s i = Drained None)) \<and>
    (\<not> sg_cancelled s \<longrightarrow> (\<exists>i<length srvs. \<exists>e. sg_listener s i = Sent (Some e) \<and> Wrap ''listen'' (Wrap e CallFailed) \<in> set errs))"
proof -
  obtain x where ended: "\<forall>i<length srvs. \<exists>r. sg_drain s i = Drained r" and why: "why_ended srvs s x"
    and errs: "mset errs = drain_errs srvs s + mset (listen_err x)"
    using serve_reachable_ok [OF assms(1)] assms(2) by (auto simp: serve_ok_def)
  have drain: "shutdown_err srvs i e \<in> set errs" if "i < length srvs" "sg_drain s i = Drained (Some e)" for i e
  proof -
    have "drain_errs srvs s = {#shutdown_err srvs i e#} + (\<Sum>j\<in>{..<length srvs} - {i}. case sg_drain s j of
        Drained (Some e) \<Rightarrow> {#shutdown_err srvs j e#} | _ \<Rightarrow> {#})"
      unfolding drain_errs_def using that by (subst sum.remove [of _ i]) simp_all
    then have "shutdown_err srvs i e \<in># drain_errs srvs s" by simp
    then have "shutdown_err srvs i e \<in># mset errs" using errs by simp
    then show ?thesis by simp
  qed
  have "Drained r = Drained None" if "i < length srvs" "sg_drain s i = Drained r" "errs = []" for i r
    using drain [OF that(1)] that(2,3) by (cases r) auto
  moreover have "x = None" if "errs = []"
    using errs that by (auto simp: listen_err_def split: option.splits)
  moreover have "\<exists>i<length srvs. \<exists>e. sg_listener s i = Sent (Some e) \<and> Wrap ''listen'' (Wrap e CallFailed) \<in> set errs"
    if running: "\<not> sg_cancelled s"
  proof -
    obtain e where e: "x = Some e" using why running by (cases x) (auto simp: why_ended_def)
    then have "Wrap ''listen'' (Wrap e CallFailed) \<in># mset errs" using errs by (simp add: listen_err_def)
    then show ?thesis using why e by (auto simp: why_ended_def listener_failed_def)
  qed
  moreover have "sg_cancelled s" if "errs = []"
    using calculation(2) [OF that] why by (simp add: why_ended_def)
  ultimately show ?thesis using ended drain by metis
qed

section \<open>Demonstration\<close>

text \<open>The port of the only server is taken: its listener fails, it is shut down, and the error is returned.\<close>

definition demo_servers :: "http_server list" where
  "demo_servers = [newHTTPServer ''127.0.0.1:8080'' PublicHandler]"

definition demo_failed :: "nat \<Rightarrow> serving" where
  "demo_failed k = (let s = serve_start True; l = (\<lambda>_. Fresh)(0 := Sent (Some ''address in use'')) in
     [s, s\<lparr>sg_listener := l, sg_chan := [Some ''address in use'']\<rparr>,
      s\<lparr>sg_listener := l, sg_main := Joining (Some ''address in use'')\<rparr>,
      s\<lparr>sg_listener := l, sg_main := Joining (Some ''address in use''), sg_drain := (\<lambda>_. NotAsked)(0 := Draining)\<rparr>,
      s\<lparr>sg_listener := l, sg_main := Joining (Some ''address in use''), sg_drain := (\<lambda>_. NotAsked)(0 := Drained None)\<rparr>,
      s\<lparr>sg_listener := l, sg_main := Returned [Wrap ''listen'' (Wrap ''address in use'' CallFailed)],
        sg_drain := (\<lambda>_. NotAsked)(0 := Drained None)\<rparr>] ! min k 5)"

lemma demo_failed_steps:
  "serve_step demo_servers (demo_failed 0) (demo_failed 1)" "serve_step demo_servers (demo_failed 1) (demo_failed 2)"
  "serve_step demo_servers (demo_failed 2) (demo_failed 3)" "serve_step demo_servers (demo_failed 3) (demo_failed 4)"
  "serve_step demo_servers (demo_failed 4) (demo_failed 5)"
proof -
  note simps = demo_failed_def serve_start_def demo_servers_def Let_def listen_err_def numeral_eq_Suc
  show "serve_step demo_servers (demo_failed 0) (demo_failed 1)"
    using serve_step.listen_fails [of 0 demo_servers "demo_failed 0" "''address in use''"] by (simp add: simps)
  show "serve_step demo_servers (demo_failed 1) (demo_failed 2)"
    using serve_step.server_ended [of "demo_failed 1" "Some ''address in use''" "[]" demo_servers] by (simp add: simps)
  show "serve_step demo_servers (demo_failed 2) (demo_failed 3)"
    using serve_step.shuts_down [of "demo_failed 2" "Some ''address in use''" 0 demo_servers] by (simp add: simps)
  show "serve_step demo_servers (demo_failed 3) (demo_failed 4)"
    using serve_step.drained [of "demo_failed 3" 0 demo_servers] by (simp add: simps)
  show "serve_step demo_servers (demo_failed 4) (demo_failed 5)"
    using serve_step.returns [of "demo_failed 4" "Some ''address in use''" demo_servers] by (simp add: simps)
qed

lemma demo_failed_final: "\<not> serve_step demo_servers (demo_failed 5) s"
proof
  assume "serve_step demo_servers (demo_failed 5) s"
  moreover have "steps_left demo_servers (demo_failed 5) = 0"
    by (simp add: steps_left_def demo_failed_def demo_servers_def serve_start_def Let_def)
  ultimately show False using serve_step_left by fastforce
qed

lemma demo_failed_run: "maximal_run demo_servers demo_failed"
proof -
  have "serve_step demo_servers (demo_failed k) (demo_failed (Suc k)) \<or>
     (\<forall>s. \<not> serve_step demo_servers (demo_failed k) s) \<and> demo_failed (Suc k) = demo_failed k" for k
  proof (cases "5 \<le> k")
    case True
    then have "demo_failed k = demo_failed 5" "demo_failed (Suc k) = demo_failed 5" by (simp_all add: demo_failed_def)
    then show ?thesis using demo_failed_final by simp
  next
    case False
    then have "k = 0 \<or> k = 1 \<or> k = 2 \<or> k = 3 \<or> k = 4" by arith
    then have "serve_step demo_servers (demo_failed k) (demo_failed (k + 1))"
      using demo_failed_steps by (elim disjE) (simp_all only: arith_simps add_0 one_add_one nat_1_add_1 numeral_plus_one)
    then show ?thesis by simp
  qed
  then show ?thesis by (simp add: maximal_run_def)
qed


lemma serve_outcome_witness: "\<exists>r. sg_drain (demo_failed 5) 0 = Drained r"
proof -
  have "serve_reachable demo_servers (demo_failed 0)"
    using serve_reachable.start [of demo_servers True] by (simp add: demo_failed_def)
  then have "serve_reachable demo_servers (demo_failed 5)"
    by (rule serve_reachable.step [OF serve_reachable.step [OF serve_reachable.step [OF serve_reachable.step
        [OF serve_reachable.step [OF _ demo_failed_steps(1)] demo_failed_steps(2)] demo_failed_steps(3)]
        demo_failed_steps(4)] demo_failed_steps(5)])
  moreover have "sg_main (demo_failed 5) = Returned [Wrap ''listen'' (Wrap ''address in use'' CallFailed)]"
    by (simp add: demo_failed_def Let_def)
  ultimately have "\<forall>i<length demo_servers. \<exists>r. sg_drain (demo_failed 5) i = Drained r"
    using serve_outcome [of demo_servers "demo_failed 5"] by blast
  then show ?thesis by (simp add: demo_servers_def)
qed

end
