(* ===== verification/TestDb.thy ===== *)
theory TestDb
  imports Startup
begin

text \<open>
  \<open>internal/testdb\<close>: the database a test gets, a schema of its own on the configured server, and what
  is left of it when the test is over.
\<close>

section \<open>Names\<close>

definition namePrefixLimit :: nat where "namePrefixLimit = 40"
definition suffixLength :: nat where "suffixLength = 10"

definition schema_char :: "nat \<Rightarrow> char" where
  "schema_char r = (if 97 \<le> r \<and> r \<le> 122 \<or> 48 \<le> r \<and> r \<le> 57 then byte r else CHR ''_'')"

text \<open>The loop of \<open>schemaName\<close> over the runes of the test's name.\<close>

fun schema_prefix :: "string \<Rightarrow> nat list \<Rightarrow> string" where
  "schema_prefix b [] = b"
| "schema_prefix b (r # rs) = (if namePrefixLimit \<le> length b then b else schema_prefix (b @ [schema_char r]) rs)"

text \<open>\<open>random\<close> is what \<open>rand.Text\<close> gives: at least 26 letters and digits of base 32.\<close>

definition schemaName :: "(string \<Rightarrow> string) \<Rightarrow> string \<Rightarrow> string \<Rightarrow> string" where
  "schemaName ul name random =
     schema_prefix ''test_'' (runes (to_lower ul name)) @ ''_'' @ to_lower ul (take suffixLength random)"

fun cut_on :: "string \<Rightarrow> string \<Rightarrow> (string \<times> string) option" where
  "cut_on sep [] = (if sep = [] then Some ([], []) else None)"
| "cut_on sep (c # cs) = (if has_prefix (c # cs) sep then Some ([], drop (length sep) (c # cs))
     else map_option (\<lambda>(a, b). (c # a, b)) (cut_on sep cs))"

definition redact :: "string \<Rightarrow> string" where
  "redact url = (case cut_on ''://'' url of
     None \<Rightarrow> ''the configured database''
   | Some (scheme, rest) \<Rightarrow> (case cut_at (CHR ''@'') rest of
       Some (_, host) \<Rightarrow> scheme @ ''://'' @ host
     | None \<Rightarrow> scheme @ ''://'' @ rest))"

section \<open>A test with its database\<close>

text \<open>How a test ends: skipped, failed with a message before its body, or its body ran.\<close>

datatype test_end = Skipped | Fatal string | Ran

text \<open>\<open>New\<close>; the flag says that the cleanup is registered.\<close>

definition testdb_New :: "string \<Rightarrow> string \<Rightarrow> string \<Rightarrow> int list \<Rightarrow> ('z, test_end \<times> bool) process_prog" where
  "testdb_New url ci schema pending =
     (let fatal = (\<lambda>msg. State_Monad.return (Fatal msg, False));
          close_and = (\<lambda>msg. do { _ \<leftarrow> emit [PoolClosed]; State_Monad.return (Fatal msg, False) })
      in if url = [] then (if ci \<noteq> [] then fatal ''DATABASE_URL is unset in CI'' else State_Monad.return (Skipped, False))
      else on_result (call [PoolOpened]) (\<lambda>_. fatal (''connect to '' @ redact url)) (\<lambda>_.
        on_result (call [SchemaCreated schema]) (\<lambda>_. close_and ''create schema'') (\<lambda>_.
        on_result (call []) (\<lambda>_. close_and ''parse database url'') (\<lambda>_.
        on_result (call [PoolOpened]) (\<lambda>_. close_and ''create pool'') (\<lambda>_.
        on_result (store_Migrate pending) (\<lambda>_. State_Monad.return (Fatal ''migrate schema'', True)) (\<lambda>_.
        State_Monad.return (Ran, True)))))))"

text \<open>The registered cleanup: whether the schema could be dropped.\<close>

definition testdb_cleanup :: "string \<Rightarrow> ('z, bool) process_prog" where
  "testdb_cleanup schema = do {
     _ \<leftarrow> emit [PoolClosed];
     dropped \<leftarrow> call [SchemaDropped schema];
     _ \<leftarrow> emit [PoolClosed];
     State_Monad.return (dropped = Inr ())
   }"

definition with_testdb :: "string \<Rightarrow> string \<Rightarrow> string \<Rightarrow> int list \<Rightarrow> ('z, test_end \<times> bool) process_prog" where
  "with_testdb url ci schema pending = do {
     out \<leftarrow> testdb_New url ci schema pending;
     (if snd out then do { dropped \<leftarrow> testdb_cleanup schema; State_Monad.return (fst out, dropped) }
      else State_Monad.return (fst out, True))
   }"

section \<open>Properties\<close>

lemma schema_prefix_props:
  "length (schema_prefix b rs) \<le> max (length b) namePrefixLimit \<and>
    (set b \<subseteq> K \<longrightarrow> range schema_char \<subseteq> K \<longrightarrow> set (schema_prefix b rs) \<subseteq> K) \<and> (\<exists>t. schema_prefix b rs = b @ t)"
proof (induction rs arbitrary: b)
  case (Cons r rs)
  show ?case
  proof (cases "namePrefixLimit \<le> length b")
    case False
    then have "length (b @ [schema_char r]) \<le> namePrefixLimit" by simp
    then show ?thesis using Cons [of "b @ [schema_char r]"] False by auto
  qed simp
qed simp

definition schema_chars :: "char set" where
  "schema_chars = {c. 97 \<le> code c \<and> code c \<le> 122 \<or> 48 \<le> code c \<and> code c \<le> 57 \<or> c = CHR ''_''}"

lemma schema_char_in: "range schema_char \<subseteq> schema_chars"
  by (auto simp: schema_char_def schema_chars_def)

text \<open>A schema's name is an identifier that needs no quotes and that the database does not cut.\<close>

lemma schemaName_identifier:
  assumes "\<forall>c\<in>set random. 65 \<le> code c \<and> code c \<le> 90 \<or> 50 \<le> code c \<and> code c \<le> 55"
  shows "length (schemaName ul name random) \<le> 63 \<and> set (schemaName ul name random) \<subseteq> schema_chars \<and>
    has_prefix (schemaName ul name random) ''test_''"
proof -
  let ?p = "schema_prefix ''test_'' (runes (to_lower ul name))"
  note p = schema_prefix_props [of "''test_''" "runes (to_lower ul name)" schema_chars]
  have start: "set ''test_'' \<subseteq> schema_chars" by (simp add: schema_chars_def code_def)
  have "ascii (take suffixLength random)"
    using assms by (auto simp: ascii_def list_all_iff dest!: in_set_takeD)
  then have low: "to_lower ul (take suffixLength random) = map lower_byte (take suffixLength random)"
    by (simp add: to_lower_def)
  have "set (map lower_byte (take suffixLength random)) \<subseteq> schema_chars"
    using assms by (auto simp: schema_chars_def code_lower_byte dest!: in_set_takeD)
  moreover have "length ?p \<le> 40" using p by (simp add: namePrefixLimit_def)
  moreover have "set ?p \<subseteq> schema_chars" using p start schema_char_in by blast
  moreover have "has_prefix ?p ''test_''" using p by (auto simp: has_prefix_def)
  ultimately show ?thesis
    unfolding schemaName_def low by (auto simp: suffixLength_def has_prefix_def schema_chars_def)
qed

lemma cut_on_found: "CHR '':'' \<notin> set a \<Longrightarrow> cut_on ''://'' (a @ ''://'' @ b) = Some (a, b)"
  by (induction a) (auto simp: has_prefix_def)

text \<open>
  \<open>redact\<close> hides a password without \<open>@\<close>; of one that holds an \<open>@\<close>, which \<open>url.Parse\<close> accepts, it
  shows what follows.
\<close>

lemma redact_hides:
  assumes "CHR '':'' \<notin> set scheme" "CHR ''@'' \<notin> set credentials"
  shows "redact (scheme @ ''://'' @ credentials @ ''@'' @ host) = scheme @ ''://'' @ host"
proof -
  have "cut_at (CHR ''@'') (credentials @ ''@'' @ host) = Some (credentials, host)"
    using assms(2) by (simp add: cut_at_Some)
  then show ?thesis using cut_on_found [OF assms(1)] by (simp add: redact_def)
qed

lemma redact_shows_rest_of_password:
  "redact ''postgres://retratar:pa@ss@db/retratar'' = ''postgres://ss@db/retratar''"
  by code_simp

lemma emits_on_result:
  fixes m :: "('z, 'd + 'e) process_prog"
  assumes "emits m P" and "\<And>e es. P (Inl e) es \<Longrightarrow> emits (h e) (\<lambda>r es'. Q r (es @ es'))"
    and "\<And>x es. P (Inr x) es \<Longrightarrow> emits (k x) (\<lambda>r es'. Q r (es @ es'))"
  shows "emits (on_result m h k) Q"
  unfolding on_result_def
proof (rule emits_bind [OF assms(1)])
  fix x :: "'d + 'e" and es
  assume "P x es"
  then show "emits (case x of Inl e \<Rightarrow> h e | Inr y \<Rightarrow> k y) (\<lambda>r es'. Q r (es @ es'))"
    using assms(2,3) by (cases x) simp_all
qed

text \<open>A test gives back both its pools however it ends, and its schema once \<open>New\<close> got as far as the cleanup.\<close>

definition gives_back :: "string \<Rightarrow> test_end \<times> bool \<Rightarrow> event list \<Rightarrow> bool" where
  "gives_back schema r es = (count_list es PoolOpened = count_list es PoolClosed \<and>
     (fst r = Ran \<longrightarrow> SchemaCreated schema \<in> set es \<and> (snd r \<longrightarrow> SchemaDropped schema \<in> set es)))"

definition new_did :: "string \<Rightarrow> test_end \<times> bool \<Rightarrow> event list \<Rightarrow> bool" where
  "new_did schema r es = (if snd r then count_list es PoolOpened = Suc (Suc (count_list es PoolClosed)) \<and> SchemaCreated schema \<in> set es
     else count_list es PoolOpened = count_list es PoolClosed \<and> fst r \<noteq> Ran)"

lemma emits_testdb_New: "emits (testdb_New url ci schema pending) (new_did schema)"
proof -
  have call: "emits (call es) (\<lambda>r es'. es' = (case r of Inl _ \<Rightarrow> [] | Inr _ \<Rightarrow> es))" for es
    by (rule emits_call) simp_all
  have gone: "emits (do { _ \<leftarrow> emit [PoolClosed]; State_Monad.return (Fatal msg, False) }) Q"
    if "Q (Fatal msg, False) [PoolClosed]" for msg Q
    by (rule emits_bind [OF emits_emit [where Q = "\<lambda>_ es. es = [PoolClosed]"]], simp, rule emits_return) (simp add: that)
  have migrated: "count_list es PoolOpened = 0 \<and> count_list es PoolClosed = 0" if "migration_events pending es" for es
  proof -
    have "count_list (map Migrated pending) e = 0" if "\<And>v. e \<noteq> Migrated v" for e
      using that by (induction pending) auto
    then show ?thesis using that by (auto simp: migration_events_def)
  qed
  show ?thesis
  proof (cases "url = []")
    case True
    then show ?thesis by (cases "ci = []") (simp_all add: testdb_New_def Let_def emits_return new_did_def)
  next
    case False
    have mig: "emits (store_Migrate pending) (\<lambda>_ es. count_list es PoolOpened = 0 \<and> count_list es PoolClosed = 0)"
      by (rule emits_weaken [OF emits_store_Migrate]) (erule conjE, rule migrated)
    show ?thesis
      unfolding testdb_New_def Let_def if_not_P [OF False]
      apply (rule emits_on_result [OF call], rule emits_return, simp add: new_did_def)
      apply (rule emits_on_result [OF call], rule gone, simp add: new_did_def)
      apply (rule emits_on_result [OF call], rule gone, simp add: new_did_def)
      apply (rule emits_on_result [OF call], rule gone, simp add: new_did_def)
      by (rule emits_on_result [OF mig]; rule emits_return; simp add: new_did_def)
  qed
qed

lemma testdb_gives_back: "emits (with_testdb url ci schema pending) (gives_back schema)"
proof -
  have call: "emits (call es) (\<lambda>r es'. es' = (case r of Inl _ \<Rightarrow> [] | Inr _ \<Rightarrow> es))" for es
    by (rule emits_call) simp_all
  have pool: "emits (emit [PoolClosed]) (\<lambda>_ es. es = [PoolClosed])" by (rule emits_emit) simp
  have clean: "emits (testdb_cleanup schema) (\<lambda>dropped es. count_list es PoolOpened = 0 \<and>
      count_list es PoolClosed = 2 \<and> (dropped \<longrightarrow> SchemaDropped schema \<in> set es))"
    unfolding testdb_cleanup_def
    by (rule emits_bind [OF pool], rule emits_bind [OF call], rule emits_bind [OF pool], rule emits_return)
      (auto split: sum.splits)
  show ?thesis
    unfolding with_testdb_def
  proof (rule emits_bind [OF emits_testdb_New])
    fix r :: "test_end \<times> bool" and es
    assume new: "new_did schema r es"
    show "emits (if snd r then do { dropped \<leftarrow> testdb_cleanup schema; State_Monad.return (fst r, dropped) }
        else State_Monad.return (fst r, True)) (\<lambda>r es'. gives_back schema r (es @ es'))"
    proof (cases "snd r")
      case True
      show ?thesis
        unfolding if_P [OF True]
        by (rule emits_bind [OF clean], rule emits_return) (use new True in \<open>auto simp: new_did_def gives_back_def\<close>)
    qed (use new in \<open>simp add: new_did_def gives_back_def emits_return\<close>)
  qed
qed

end
