(* ===== verification/Spec2Isabelle.thy ===== *)
theory Spec2Isabelle
  imports Site OgCard Mail Panics Serve TestDb
begin

text \<open>
  A model of retratar: a small site where a signed-in owner keeps a page (a mood, a name, a photo, a
  style, a guestbook) that anybody can read.  One Go binary serves two surfaces split by host name,
  the owners' app and the public pages, over a Postgres database and a directory of photos.  Every
  theory translates the part of \<open>src/\<close> its header names, one definition for each Go function under
  the function's own name, and proves what that part promises.


  \<^bold>\<open>The program and the theories\<close>

  \<^item> Generic.  \<^theory_text>\<open>Prelude\<close> (the scalar types, the collections \<open>run_simps\<close>, \<open>keeps_intros\<close> and others, lists
    and options), \<^theory_text>\<open>GoStrings\<close> (\<open>strings\<close>, \<open>unicode/utf8\<close> on byte strings), \<^theory_text>\<open>NetAddr\<close> (\<open>net/netip\<close>, with
    addresses as words).
  \<^item> The store, \<open>internal/store\<close>.  \<^theory_text>\<open>Schema\<close>: the rows of \<open>models.go\<close>, the tables as lists of rows, and
    \<open>db_ok\<close>, what the constraints of the migrations accept.  \<^theory_text>\<open>Queries\<close>: each sqlc statement as a function
    from the database's clock and tables to a result and new tables.  \<^theory_text>\<open>QueryFacts\<close>: every statement keeps
    the constraints, and one that fails changes nothing.  \<^theory_text>\<open>Conn\<close>: a program of statements and
    transactions over a state with the tables and \<open>c_faults\<close>, a list that says which of the next calls
    fail; a theorem about a program holds for every such list.
  \<^item> The services.  \<^theory_text>\<open>Handles\<close>, \<^theory_text>\<open>Accounts\<close>, \<^theory_text>\<open>Users\<close> (\<open>internal/user\<close>), \<^theory_text>\<open>UserStyle\<close> (\<open>style.go\<close> there),
    \<^theory_text>\<open>Sessions\<close> (\<open>internal/session\<close>), \<^theory_text>\<open>Mood\<close>, \<^theory_text>\<open>Guestbook\<close>, \<^theory_text>\<open>Style\<close>, \<^theory_text>\<open>Textcheck\<close> (the packages of these
    names), \<^theory_text>\<open>Operator\<close> (\<open>cmd/server/purge.go\<close>, \<open>internal/stats\<close>), \<^theory_text>\<open>Mail\<close> (\<open>internal/mail\<close>), \<^theory_text>\<open>Config\<close>
    (\<open>internal/config\<close>), \<^theory_text>\<open>PhotoStore\<close> (\<open>internal/photostore\<close>), \<^theory_text>\<open>Photo\<close> and \<^theory_text>\<open>Orientation\<close>
    (\<open>internal/photo\<close>), \<^theory_text>\<open>OgCard\<close> (\<open>internal/ogcard\<close>).
  \<^item> The web, \<open>internal/web\<close>.  \<^theory_text>\<open>Http\<close>, \<^theory_text>\<open>Views\<close>, \<^theory_text>\<open>Response\<close> (requests, what templates are given, the
    response writer and cookies), \<^theory_text>\<open>Outside\<close> (mail sent and files on disk, with their faults),
    \<^theory_text>\<open>LoginWeb\<close>, \<^theory_text>\<open>Home\<close>, \<^theory_text>\<open>StyleEdit\<close>, \<^theory_text>\<open>StyleWeb\<close>, \<^theory_text>\<open>Owner\<close>, \<^theory_text>\<open>GuestbookWeb\<close>, \<^theory_text>\<open>Page\<close>, \<^theory_text>\<open>PhotoWeb\<close> (the
    handlers of the files of these names; \<^theory_text>\<open>Owner\<close> has \<open>account.go\<close>, \<open>claim.go\<close>, \<open>mood.go\<close>, \<open>name.go\<close>,
    \<open>random.go\<close>, \<open>legal.go\<close>, and \<^theory_text>\<open>Page\<close> has \<open>og.go\<close>), \<^theory_text>\<open>RateLimit\<close>, \<^theory_text>\<open>Middleware\<close>, \<^theory_text>\<open>Router\<close>, \<^theory_text>\<open>Panics\<close>
    (\<open>Recover\<close> and the status recorder).
  \<^item> The process.  \<^theory_text>\<open>Startup\<close> (\<open>cmd/server/main.go\<close> up to \<open>serve\<close>, \<open>store.Open\<close>, \<open>Migrate\<close>,
    \<open>internal/buildinfo\<close>, \<open>admin.go\<close>), \<^theory_text>\<open>Serve\<close> (\<open>serve\<close>), \<^theory_text>\<open>TestDb\<close> (\<open>internal/testdb\<close>).


  \<^bold>\<open>How state and operations correspond\<close>

  A method of a service is a program \<open>('z, error + result) prog\<close> over the record \<open>conn\<close>; a handler is a
  program over a record that extends it: \<open>web\<close> adds mail and files, \<open>site\<close> the clock, the three
  limiters and the log, \<open>process\<close> and \<open>noisy\<close> what start-up and panics need.  Go's errors are
  constructors of a datatype for each package, and each \<open>return err\<close> is a branch.  Transactions restore
  the tables on every path that does not commit.  Instants and durations are integers
  that count microseconds; widths that wrap (the photo's dimensions as \<open>int32\<close>, network addresses)
  are written out.  Random draws, clocks and the names of temporary files are arguments.


  \<^bold>\<open>What the lemmas show\<close>

  \<^item> Signing in (\<^theory_text>\<open>Login\<close>, \<^theory_text>\<open>LoginWeb\<close>, \<^theory_text>\<open>Sessions\<close>): a step relation of requests, redemptions, purges and
    time with ghost lists of links; budget, single use and supersession are invariants of its reachable
    states.  The two token stores meet one contract, the locale \<open>bearer_store\<close> of \<^theory_text>\<open>Bearer\<close>.
  \<^item> Accounts and pages (\<^theory_text>\<open>AccountFacts\<close>, \<^theory_text>\<open>AccountProps\<close>, \<^theory_text>\<open>Mood\<close>, \<^theory_text>\<open>Guestbook\<close>, \<^theory_text>\<open>UserStyle\<close>, \<^theory_text>\<open>System\<close>): the
    outcome of each operation on each branch, and what every run of all services in any order keeps.
    User text is the locale \<open>user_text\<close> of \<^theory_text>\<open>Textcheck\<close>, interpreted for names, notes and entries.
  \<^item> Traffic (\<^theory_text>\<open>Meter\<close>, \<^theory_text>\<open>RateLimit\<close>): the locale \<open>meter\<close> bounds what any stretch of requests is allowed and
    serves a client that waits; the bounded map of buckets is one, and refines the plain allowance.
  \<^item> The surfaces (\<^theory_text>\<open>Surface\<close>, \<^theory_text>\<open>Headers\<close>, \<^theory_text>\<open>Authority\<close>): of every request through the whole chain, who can
    change anything, whose rows change, and which policies and cookies an answer carries.  \<^theory_text>\<open>Site\<close> puts
    the parts together: over any history of requests, purges, grants and restarts, the tables stay as
    their services keep them and every named photo is on disk.  Its interface between handlers and
    services is the locale \<open>tame_services\<close>, with \<open>all_services\<close> where photos are named.
  \<^item> Photos (\<^theory_text>\<open>PhotoStore\<close>, \<^theory_text>\<open>PhotoFiles\<close>, \<^theory_text>\<open>PhotoRace\<close>): saving is all or nothing over single file-system
    steps; one handler, and any interleaving of many, keeps every named photo on disk; the processing
    slot admits one upload and is never leaked.  The handlers are shown to be runs of the threads.
  \<^item> The process (\<^theory_text>\<open>Startup\<close>, \<^theory_text>\<open>Serve\<close>, \<^theory_text>\<open>Panics\<close>): what is opened is closed on every exit, listeners are
    local, \<open>serve\<close> returns after every server is drained, a panic is answered.


  \<^bold>\<open>Termination\<close>

  Loops are structural recursion, or recursion with a measure (decoding and trimming runes, reading
  a message, finding matches, fitting a size).  Three loops count down: the groups of an IPv6 address (as
  \<open>parseIPv6\<close> does), the entries of an EXIF directory (their number is in the file), and the letters of
  a base-32 key, whose bound is the number of bits and so at least five times what is used.
  \<open>serve\<close> is a relation each of whose steps lowers a measure, so its runs end after at most four steps
  for each server and three more.


  \<^bold>\<open>What is not modelled\<close>

  \<^item> The contents of templates, stylesheets, fonts and migrations (\<open>templates.go\<close>, \<open>static.go\<close>,
    \<open>migrations\<close>): embedded data.  A rendered page is the data its template is given.
  \<^item> Third-party and runtime code is an argument: image codecs, glyph measures, \<open>goose\<close>, the pool, the SMTP
    relay, the parsers of addresses, URLs and UUIDs, the hash of tokens, Unicode case folding, \<open>pprof\<close> and
    \<open>expvar\<close>.  Hypotheses on them are named where they are needed (\<open>polite\<close>, for example).
  \<^item> Requests interleave call by call only where they share more than the database: in \<^theory_text>\<open>PhotoRace\<close>, where
    \<open>Save\<close> is one step because its files belong to one thread.  Elsewhere a service method is one step;
    the database gives its transactions that isolation by locks the model does not have.
  \<^item> A call that fails has not taken effect.  The one place where it matters that an answer may be lost
    after the effect is shown in \<^theory_text>\<open>PhotoRace\<close> (\<open>lost_answer_loses_photo\<close>).
  \<^item> Log lines other than those of requests, panics and mail; durations; the text of wrapped errors
    where nothing reads it; the test seams of \<open>Server\<close>.
\<close>

end
